(* ===== verification/Prelude.thy ===== *)
theory Prelude
  imports Main "HOL-Library.Word"
begin

text \<open>
  What every component of the development shares: the machine types of the IA-32 target
  (\<open>char\<close>, \<open>short\<close> and \<open>int\<close> as words of 8, 16 and 32 bits), the outcome of running a
  piece of C, the byte-addressed memory, and C strings and blocks of bytes in it.
\<close>

unbundle bit_operations_syntax

section \<open>Machine integers\<close>

type_synonym u8 = "8 word"
type_synonym u16 = "16 word"
type_synonym u32 = "32 word"

text \<open>The measure of the loops that count down: \<open>while (count--)\<close> and \<open>while (--n != 0)\<close>.\<close>

lemma unat_pred_less [termination_simp]: "n \<noteq> 0 \<Longrightarrow> unat (n - 1) < unat (n :: u32)"
  by (simp add: unat_minus_one unat_gt_0)

lemma unat_pred2_less [termination_simp]: "n \<noteq> 1 \<Longrightarrow> unat (n - 2) < unat (n - 1 :: u32)"
  using unat_pred_less [of "n - 1"] by simp

lemma unat_u32_less: "unat (n :: u32) < 4294967296"
proof -
  have "unat n < 2 ^ LENGTH(32)" by (rule unsigned_less)
  then show ?thesis by simp
qed

lemma uint_u32_bounds: "0 \<le> uint (n :: u32)" "uint (n :: u32) < 4294967296"
  using uint_bounded [of n] by simp_all

lemma sint_u32: "sint (n :: u32) = (if uint n < 2147483648 then uint n else uint n - 4294967296)"
proof -
  have "(uint n + 2147483648) mod 4294967296
      = (if uint n < 2147483648 then uint n + 2147483648 else uint n - 2147483648)"
  proof (cases "uint n < 2147483648")
    case True
    with uint_u32_bounds [of n] show ?thesis by (simp add: mod_pos_pos_trivial)
  next
    case False
    have "(uint n + 2147483648) mod 4294967296 = (uint n - 2147483648 + 4294967296) mod 4294967296"
      by (rule arg_cong [of _ _ "\<lambda>k. k mod 4294967296"]) simp
    also have "\<dots> = uint n - 2147483648"
      using False uint_u32_bounds [of n] by (simp only: mod_add_self2) (simp add: mod_pos_pos_trivial)
    finally show ?thesis using False by simp
  qed
  then show ?thesis
    by (simp add: sint_uint signed_take_bit_eq_take_bit_shift take_bit_eq_mod)
qed

lemma sint_u32_bounds: "- 2147483648 \<le> sint (n :: u32)" "sint (n :: u32) < 2147483648"
proof -
  have "- 2147483648 \<le> (if k < 2147483648 then k else k - 4294967296)"
    "(if k < 2147483648 then k else k - 4294967296) < 2147483648"
    if "0 \<le> k" "k < 4294967296" for k :: int
    using that by auto
  from this [OF uint_u32_bounds] show "- 2147483648 \<le> sint n" "sint n < 2147483648"
    by (simp_all add: sint_u32)
qed

lemma uint_u32_of_int: "0 \<le> k \<Longrightarrow> k < 4294967296 \<Longrightarrow> uint (of_int k :: u32) = k"
  by (simp add: unsigned_of_int take_bit_int_eq_self)

section \<open>Outcomes of a run\<close>

text \<open>
  A C function either returns, or stops at an access or operation the language gives no
  meaning to, or never stops. The last is \<open>None\<close>; the two others are the values of the
  sum inside \<open>Some\<close>. A loop that need not end is a \<open>partial_function\<close> into this type.
\<close>

datatype fault =
    BadAddr u32   \<comment> \<open>access to an address that is not mapped\<close>
  | BadIndex      \<comment> \<open>index outside an array object\<close>
  | DivZero       \<comment> \<open>integer division by zero\<close>
  | NoArg         \<comment> \<open>\<open>va_arg\<close> past the last variadic argument\<close>

type_synonym 'a run = "(fault + 'a) option"

definition ret :: "'a \<Rightarrow> 'a run" where
  "ret x = Some (Inr x)"

definition fail :: "fault \<Rightarrow> 'a run" where
  "fail e = Some (Inl e)"

definition rbind :: "'a run \<Rightarrow> ('a \<Rightarrow> 'b run) \<Rightarrow> 'b run" where
  "rbind m f = (case m of None \<Rightarrow> None
                | Some r \<Rightarrow> (case r of Inl e \<Rightarrow> Some (Inl e) | Inr x \<Rightarrow> f x))"

named_theorems run_simps \<open>evaluation of sequenced runs\<close>

lemma rbind_ret [simp, run_simps]: "rbind (ret x) f = f x"
  by (simp add: rbind_def ret_def)

lemma rbind_fail [simp, run_simps]: "rbind (fail e) f = fail e"
  by (simp add: rbind_def fail_def)

lemma rbind_None [simp, run_simps]: "rbind None f = None"
  by (simp add: rbind_def)

lemma rbind_assoc: "rbind (rbind m f) g = rbind m (\<lambda>x. rbind (f x) g)"
  by (auto simp: rbind_def split: option.splits sum.splits)

text \<open>
  As a congruence rule this keeps the simplifier out of a continuation until its argument is
  known: evaluation then follows the order of the program.
\<close>

lemma rbind_weak_cong: "m = m' \<Longrightarrow> rbind m f = rbind m' f"
  by simp

lemma run_neq [simp, run_simps]:
  "ret x \<noteq> fail e" "fail e \<noteq> ret x" "ret x \<noteq> None" "None \<noteq> ret x"
  "fail e \<noteq> None" "None \<noteq> fail e"
  by (simp_all add: ret_def fail_def)

lemma ret_inject [simp, run_simps]: "ret x = ret y \<longleftrightarrow> x = y"
  by (simp add: ret_def)

lemma fail_inject [simp]: "fail e = fail e' \<longleftrightarrow> e = e'"
  by (simp add: fail_def)

lemma run_cases [case_names Diverges Fault Returns]:
  obtains "m = None" | e where "m = fail e" | x where "m = ret x"
  by (cases m) (auto simp: ret_def fail_def, metis sum.exhaust)

lemma rbind_eq_ret: "rbind m f = ret y \<longleftrightarrow> (\<exists>x. m = ret x \<and> f x = ret y)"
  by (cases m rule: run_cases) auto

lemma rbind_retE [elim]:
  assumes "rbind m f = ret y"
  obtains x where "m = ret x" "f x = ret y"
  using assms by (auto simp: rbind_eq_ret)

text \<open>Sequencing is monotone, so that loops may be defined through it.\<close>

lemma rbind_mono [partial_function_mono]:
  assumes "mono_option B" and "\<And>y. mono_option (\<lambda>f. C y f)"
  shows "mono_option (\<lambda>f. rbind (B f) (\<lambda>y. C y f))"
proof -
  have eq: "(\<lambda>f. rbind (B f) (\<lambda>y. C y f))
      = (\<lambda>f. Option.bind (B f) (\<lambda>r. case r of Inl e \<Rightarrow> Some (Inl e) | Inr x \<Rightarrow> C x f))"
    by (auto simp: rbind_def fun_eq_iff split: option.splits)
  have "\<And>r. mono_option (\<lambda>f. case r of Inl e \<Rightarrow> Some (Inl e) | Inr x \<Rightarrow> C x f)"
    by (case_tac r) (simp_all add: assms(2) option.const_mono)
  with assms(1) show ?thesis
    unfolding eq by (rule bind_mono)
qed

section \<open>Loops that fill a table\<close>

text \<open>\<open>for (i = 0; i < n; i++) t[off + i] = f(i);\<close>\<close>

definition fill :: "nat \<Rightarrow> nat \<Rightarrow> (nat \<Rightarrow> 'a) \<Rightarrow> 'a list \<Rightarrow> 'a list" where
  "fill off n f t = fold (\<lambda>i t. t[off + i := f i]) [0..<n] t"

lemma length_fill [simp]: "length (fill off n f t) = length t"
  unfolding fill_def by (induction n) simp_all

lemma fill_nth: "j < length t \<Longrightarrow>
    fill off n f t ! j = (if off \<le> j \<and> j < off + n then f (j - off) else t ! j)"
  unfolding fill_def
proof (induction n)
  case (Suc n)
  have "length (fold (\<lambda>i t. t[off + i := f i]) [0..<n] t) = length t"
    using length_fill unfolding fill_def .
  with Suc show ?case by (cases "j = off + n") (auto simp: nth_list_update)
qed auto

section \<open>Memory\<close>

text \<open>
  The kernel and its applications run in flat segments (base 0, limit 4 GB): a pointer is a
  32-bit address and pointer arithmetic is word arithmetic. A memory is the view of one
  address space: \<open>None\<close> at an address that is not mapped.
\<close>

type_synonym mem = "u32 \<Rightarrow> u8 option"

definition load8 :: "mem \<Rightarrow> u32 \<Rightarrow> u8 run" where
  "load8 m a = (case m a of None \<Rightarrow> fail (BadAddr a) | Some b \<Rightarrow> ret b)"

definition store8 :: "mem \<Rightarrow> u32 \<Rightarrow> u8 \<Rightarrow> mem run" where
  "store8 m a b = (case m a of None \<Rightarrow> fail (BadAddr a) | Some _ \<Rightarrow> ret (m(a \<mapsto> b)))"

lemma load8_Some [simp, run_simps]: "m a = Some b \<Longrightarrow> load8 m a = ret b"
  by (simp add: load8_def)

lemma load8_None [simp, run_simps]: "m a = None \<Longrightarrow> load8 m a = fail (BadAddr a)"
  by (simp add: load8_def)

lemma store8_Some [simp, run_simps]: "m a = Some c \<Longrightarrow> store8 m a b = ret (m(a \<mapsto> b))"
  by (simp add: store8_def)

text \<open>Undoes the unfolding of an update that is not applied to an address.\<close>

lemma fun_upd_fold [simp]: "(\<lambda>a. if a = d then x else f a) = f(d := x)"
  by (simp add: fun_eq_iff)

lemma store8_dom [simp, run_simps]: "a \<in> dom m \<Longrightarrow> store8 m a b = ret (m(a \<mapsto> b))"
  by (auto simp: store8_def)

lemma store8_None [simp, run_simps]: "m a = None \<Longrightarrow> store8 m a b = fail (BadAddr a)"
  by (simp add: store8_def)

lemma load8_not_None [simp]: "load8 m a \<noteq> None"
  by (cases "m a") auto

lemma store8_not_None [simp]: "store8 m a b \<noteq> None"
  by (cases "m a") auto

lemma load8_eq_ret: "load8 m a = ret b \<longleftrightarrow> m a = Some b"
  by (cases "m a") auto

lemma store8_eq_ret: "store8 m a b = ret m' \<longleftrightarrow> a \<in> dom m \<and> m' = m(a \<mapsto> b)"
  by (cases "m a") auto

text \<open>Multi-byte objects are little-endian.\<close>

definition join32 :: "u8 \<Rightarrow> u8 \<Rightarrow> u8 \<Rightarrow> u8 \<Rightarrow> u32" where
  "join32 b0 b1 b2 b3 = ucast b0 OR push_bit 8 (ucast b1) OR push_bit 16 (ucast b2) OR push_bit 24 (ucast b3)"

definition split32 :: "u32 \<Rightarrow> u8 list" where
  "split32 w = [ucast w, ucast (drop_bit 8 w), ucast (drop_bit 16 w), ucast (drop_bit 24 w)]"

definition load32 :: "mem \<Rightarrow> u32 \<Rightarrow> u32 run" where
  "load32 m a = rbind (load8 m a) (\<lambda>b0. rbind (load8 m (a + 1)) (\<lambda>b1.
     rbind (load8 m (a + 2)) (\<lambda>b2. rbind (load8 m (a + 3)) (\<lambda>b3. ret (join32 b0 b1 b2 b3)))))"

definition store32 :: "mem \<Rightarrow> u32 \<Rightarrow> u32 \<Rightarrow> mem run" where
  "store32 m a w = rbind (store8 m a (ucast w)) (\<lambda>m. rbind (store8 m (a + 1) (ucast (drop_bit 8 w))) (\<lambda>m.
     rbind (store8 m (a + 2) (ucast (drop_bit 16 w))) (\<lambda>m. store8 m (a + 3) (ucast (drop_bit 24 w)))))"

lemma join32_split: "join32 (ucast w) (ucast (drop_bit 8 w)) (ucast (drop_bit 16 w)) (ucast (drop_bit 24 w)) = w"
proof (rule bit_word_eqI)
  fix n :: nat
  consider "n < 8" | "8 \<le> n \<and> n < 16" | "16 \<le> n \<and> n < 24" | "24 \<le> n" by force
  then show "bit (join32 (ucast w) (ucast (drop_bit 8 w)) (ucast (drop_bit 16 w)) (ucast (drop_bit 24 w))) n
      = bit w n" if "n < LENGTH(32)"
    using that by cases (auto simp: join32_def bit_simps)
qed

lemma bit_u8_beyond [simp]: "8 \<le> k \<Longrightarrow> \<not> bit (b :: u8) k"
  using bit_imp_le_length [of b k] by auto

lemma split32_join: "split32 (join32 b0 b1 b2 b3) = [b0, b1, b2, b3]"
  unfolding split32_def join32_def
  by (auto intro!: bit_word_eqI simp: bit_simps)

text \<open>The addresses of \<open>n\<close> bytes from \<open>p\<close> on, and the region being mapped.\<close>

definition addrs :: "u32 \<Rightarrow> nat \<Rightarrow> u32 set" where
  "addrs p n = (\<lambda>i. p + of_nat i) ` {..<n}"

definition mapped :: "mem \<Rightarrow> u32 \<Rightarrow> nat \<Rightarrow> bool" where
  "mapped m p n \<longleftrightarrow> addrs p n \<subseteq> dom m"

lemma addrs_0 [simp]: "addrs p 0 = {}"
  by (simp add: addrs_def)

lemma addrs_Suc [simp]: "addrs p (Suc n) = insert p (addrs (p + 1) n)"
  unfolding addrs_def lessThan_Suc_eq_insert_0 by (simp add: image_image add.assoc)

lemma addrs_mono: "k \<le> n \<Longrightarrow> addrs p k \<subseteq> addrs p n"
  by (auto simp: addrs_def)

lemma addrs_split: "addrs p (i + n) = addrs p i \<union> addrs (p + of_nat i) n"
  by (induction i arbitrary: p) (auto simp: add.assoc)

lemma mem_addrs [intro]: "i < n \<Longrightarrow> p + of_nat i \<in> addrs p n"
  by (auto simp: addrs_def)

lemma of_nat_u32_inj: "i < 2 ^ 32 \<Longrightarrow> j < 2 ^ 32 \<Longrightarrow> (of_nat i :: u32) = of_nat j \<longleftrightarrow> i = j"
  by (auto simp: word_of_nat_eq_iff take_bit_eq_mod)

lemma start_notin_addrs: "n < 2 ^ 32 \<Longrightarrow> p \<notin> addrs (p + 1) n"
proof
  assume n: "n < 2 ^ 32" and "p \<in> addrs (p + 1) n"
  then obtain i where "i < n" "of_nat (Suc i) = (of_nat 0 :: u32)"
    by (auto simp: addrs_def algebra_simps)
  with n show False
    by (subst (asm) of_nat_u32_inj) auto
qed

lemma end_notin_addrs: "n < 2 ^ 32 \<Longrightarrow> p + of_nat n \<notin> addrs p n"
  by (auto simp: addrs_def of_nat_u32_inj)

lemma mapped_0 [simp]: "mapped m p 0"
  by (simp add: mapped_def)

lemma mapped_Suc [simp]: "mapped m p (Suc n) \<longleftrightarrow> p \<in> dom m \<and> mapped m (p + 1) n"
  by (simp add: mapped_def)

lemma mapped_update [simp]: "mapped m p n \<Longrightarrow> mapped (m(a \<mapsto> b)) p n"
  by (auto simp: mapped_def)

lemma unat_addr: "unat p + i < 2 ^ 32 \<Longrightarrow> unat (p + of_nat i :: u32) = unat p + i"
  by (simp add: unat_word_ariths unat_of_nat)

lemma addrs_disjoint: "unat p + n \<le> unat q \<Longrightarrow> unat q + k \<le> 2 ^ 32 \<Longrightarrow> addrs p n \<inter> addrs q k = {}"
proof -
  assume le: "unat p + n \<le> unat q" "unat q + k \<le> 2 ^ 32"
  have "p + of_nat i \<noteq> q + of_nat j" if "i < n" "j < k" for i j
  proof
    assume "p + of_nat i = q + of_nat j"
    then have "unat p + i = unat q + j"
      using that le unat_addr [of p i] unat_addr [of q j] by simp
    with that le show False by simp
  qed
  then show ?thesis by (auto simp: addrs_def)
qed

lemma mapped_all [simp]: "dom m = UNIV \<Longrightarrow> mapped m p n"
  by (simp add: mapped_def)

subsection \<open>Blocks and C strings\<close>

primrec block :: "mem \<Rightarrow> u32 \<Rightarrow> u8 list \<Rightarrow> bool" where
  "block m p [] = True"
| "block m p (x # xs) = (m p = Some x \<and> block m (p + 1) xs)"

primrec cstr :: "mem \<Rightarrow> u32 \<Rightarrow> u8 list \<Rightarrow> bool" where
  "cstr m p [] = (m p = Some 0)"
| "cstr m p (x # xs) = (x \<noteq> 0 \<and> m p = Some x \<and> cstr m (p + 1) xs)"

text \<open>Writing bytes one after the other, as the loops of the library do.\<close>

primrec upd :: "mem \<Rightarrow> u32 \<Rightarrow> u8 list \<Rightarrow> mem" where
  "upd m p [] = m"
| "upd m p (x # xs) = upd (m(p \<mapsto> x)) (p + 1) xs"

lemma block_append: "block m p (xs @ ys) \<longleftrightarrow> block m p xs \<and> block m (p + of_nat (length xs)) ys"
  by (induction xs arbitrary: p) (auto simp: add.assoc)

lemma cstr_block: "cstr m p xs \<longleftrightarrow> block m p (xs @ [0]) \<and> 0 \<notin> set xs"
  by (induction xs arbitrary: p) auto

lemma block_nth: "block m p xs \<longleftrightarrow> (\<forall>i < length xs. m (p + of_nat i) = Some (xs ! i))"
  by (induction xs arbitrary: p) (auto simp: All_less_Suc2 add.assoc)

lemma block_agree: "\<forall>a \<in> addrs p (length xs). m' a = m a \<Longrightarrow> block m' p xs = block m p xs"
  by (induction xs arbitrary: p) auto

lemma cstr_agree: "\<forall>a \<in> addrs p (Suc (length xs)). m' a = m a \<Longrightarrow> cstr m' p xs = cstr m p xs"
  by (induction xs arbitrary: p) auto

lemma block_mapped: "block m p xs \<Longrightarrow> mapped m p (length xs)"
  by (induction xs arbitrary: p) auto

lemma cstr_mapped: "cstr m p xs \<Longrightarrow> mapped m p (Suc (length xs))"
  using block_mapped [of m p "xs @ [0]"] by (simp add: cstr_block)

lemma cstr_unique: "cstr m p xs \<Longrightarrow> cstr m p ys \<Longrightarrow> xs = ys"
proof (induction xs arbitrary: p ys)
  case Nil
  then show ?case by (cases ys) auto
next
  case (Cons x xs)
  then show ?case by (cases ys) auto
qed

lemma cstr_drop: "cstr m p (xs @ ys) \<Longrightarrow> cstr m (p + of_nat (length xs)) ys"
  by (simp add: cstr_block block_append)

text \<open>A C string is shorter than the address space: its end is not one of its characters.\<close>

lemma cstr_length:
  assumes "cstr m p xs"
  shows "length xs < 2 ^ 32"
proof (rule ccontr)
  assume "\<not> length xs < 2 ^ 32"
  moreover define i where "i = length xs mod 2 ^ 32"
  ultimately have i: "i < length xs" "of_nat i = (of_nat (length xs) :: u32)"
    by (auto simp: word_of_nat_eq_iff take_bit_eq_mod intro: le_less_trans [OF _ mod_less_divisor]
        less_le_trans)
  have b: "block m p xs \<and> block m (p + of_nat (length xs)) [0]" "0 \<notin> set xs"
    using assms by (auto simp: cstr_block block_append)
  then have "m (p + of_nat (length xs)) = Some 0"
    by simp
  moreover have "m (p + of_nat i) = Some (xs ! i)"
    using conjunct1 [OF b(1)] i(1) by (simp add: block_nth)
  ultimately show False
    using b i by (metis nth_mem option.inject)
qed

lemma upd_outside: "a \<notin> addrs p (length xs) \<Longrightarrow> upd m p xs a = m a"
  by (induction xs arbitrary: m p) auto

lemma upd_append: "upd m p (xs @ ys) = upd (upd m p xs) (p + of_nat (length xs)) ys"
  by (induction xs arbitrary: m p) (auto simp: add.assoc)

lemma upd_block: "length xs \<le> 2 ^ 32 \<Longrightarrow> block (upd m p xs) p xs"
proof (induction xs arbitrary: m p)
  case (Cons x xs)
  then have "p \<notin> addrs (p + 1) (length xs)"
    by (intro start_notin_addrs) simp
  with Cons show ?case
    by (simp add: upd_outside)
qed simp

lemma upd_same: "length xs \<le> 2 ^ 32 \<Longrightarrow> upd (upd m p xs) p xs = upd m p xs"
proof
  fix a
  assume len: "length xs \<le> 2 ^ 32"
  show "upd (upd m p xs) p xs a = upd m p xs a"
  proof (cases "a \<in> addrs p (length xs)")
    case True
    then obtain i where "i < length xs" "a = p + of_nat i" by (auto simp: addrs_def)
    then show ?thesis using upd_block [OF len, of "upd m p xs" p] upd_block [OF len, of m p] by (simp add: block_nth)
  qed (simp add: upd_outside)
qed

lemma mapped_upd: "mapped m p n \<Longrightarrow> mapped (upd m q xs) p n"
  by (induction xs arbitrary: m q) auto

lemma dom_upd: "dom (upd m p xs) = dom m \<union> addrs p (length xs)"
  by (induction xs arbitrary: m p) auto

lemma upd_cstr: "length xs < 2 ^ 32 \<Longrightarrow> 0 \<notin> set xs \<Longrightarrow> cstr (upd m p (xs @ [0])) p xs"
  unfolding cstr_block by (auto intro: upd_block)

lemma store32_upd: "mapped m a 4 \<Longrightarrow> store32 m a w = ret (upd m a (split32 w))"
proof -
  assume "mapped m a 4"
  then have "a \<in> dom m" "a + 1 \<in> dom m" "a + 2 \<in> dom m" "a + 3 \<in> dom m"
    using mem_addrs [of 0 4 a] mem_addrs [of 1 4 a] mem_addrs [of 2 4 a] mem_addrs [of 3 4 a]
    by (auto simp: mapped_def)
  then show ?thesis
    by (simp add: store32_def split32_def add.assoc)
qed

lemma load32_block: "block m a [b0, b1, b2, b3] \<Longrightarrow> load32 m a = ret (join32 b0 b1 b2 b3)"
  by (simp add: load32_def add.assoc)

lemma load32_split: "block m a (split32 w) \<Longrightarrow> load32 m a = ret w"
  by (auto simp: split32_def load32_block join32_split)

lemma length_split32 [simp]: "length (split32 w) = 4"
  by (simp add: split32_def)

lemma load32_mapped: "mapped m a 4 \<Longrightarrow> \<exists>w. load32 m a = ret w \<and> block m a (split32 w)"
proof -
  assume "mapped m a 4"
  then obtain b0 b1 b2 b3 where "block m a [b0, b1, b2, b3]"
    by (auto simp: numeral_eq_Suc add.assoc)
  then show ?thesis
    by (auto simp: load32_block split32_join)
qed

lemma load32_agree: "\<forall>a \<in> addrs p 4. m' a = m a \<Longrightarrow> load32 m' p = load32 m p"
  by (simp add: load32_def load8_def numeral_eq_Suc add.assoc)
lemma load32_upd_other: "addrs a 4 \<inter> addrs p (length xs) = {} \<Longrightarrow> load32 (upd m p xs) a = load32 m a"
proof -
  assume "addrs a 4 \<inter> addrs p (length xs) = {}"
  then have "upd m p xs (a + of_nat i) = m (a + of_nat i)" if "i < 4" for i
    using that by (intro upd_outside) auto
  from this [of 0] this [of 1] this [of 2] this [of 3] show ?thesis
    by (simp add: load32_def load8_def)
qed

text \<open>String literals of the source, as the bytes the compiler lays out.\<close>

definition chars :: "string \<Rightarrow> u8 list" where
  "chars s = map of_char s"

lemma chars_simps [simp]: "chars [] = []" "chars (c # s) = of_char c # chars s"
  "chars (s @ t) = chars s @ chars t" "length (chars s) = length s"
  by (simp_all add: chars_def)

lemma addrs_range: "unat p + n \<le> 2 ^ 32 \<Longrightarrow> addrs p n = {a :: u32. unat p \<le> unat a \<and> unat a < unat p + n}"
proof
  assume n: "unat p + n \<le> 2 ^ 32"
  then show "addrs p n \<subseteq> {a. unat p \<le> unat a \<and> unat a < unat p + n}"
    by (auto simp: addrs_def unat_addr)
  show "{a. unat p \<le> unat a \<and> unat a < unat p + n} \<subseteq> addrs p n"
  proof
    fix a :: u32
    assume "a \<in> {a. unat p \<le> unat a \<and> unat a < unat p + n}"
    then have "a = p + of_nat (unat a - unat p)" "unat a - unat p < n"
      by (auto simp: of_nat_diff)
    then show "a \<in> addrs p n" unfolding addrs_def by blast
  qed
qed

end
