(* ===== verification/CString.thy ===== *)
theory CString
  imports Prelude "HOL-Library.List_Lexorder"
begin

text \<open>
  The string functions of \<^verbatim>\<open>common/string.c\<close>, which the kernel and the applications
  share. Each loop over a string runs until a byte of memory stops it; it is a
  \<open>partial_function\<close>, so that returning is a theorem. Loops with a counter terminate by it.
\<close>

unbundle bit_operations_syntax

section \<open>Operations\<close>

text \<open>\<open>for (n = 0; s[n]; n++);\<close>\<close>

partial_function (option) strlen_loop :: "mem \<Rightarrow> u32 \<Rightarrow> u32 \<Rightarrow> u32 run" where
  "strlen_loop m s n = rbind (load8 m (s + n)) (\<lambda>c.
     if c = 0 then ret n else strlen_loop m s (n + 1))"

definition strlen :: "mem \<Rightarrow> u32 \<Rightarrow> u32 run" where
  "strlen m s = strlen_loop m s 0"

text \<open>\<open>while (count && *src)\<close>, then the terminator.\<close>

function strncpy_loop :: "mem \<Rightarrow> u32 \<Rightarrow> u32 \<Rightarrow> u32 \<Rightarrow> mem run" where
  "strncpy_loop m p src count =
     (if count = 0 then store8 m p 0
      else rbind (load8 m src) (\<lambda>c.
        if c = 0 then store8 m p 0
        else rbind (store8 m p c) (\<lambda>m. strncpy_loop m (p + 1) (src + 1) (count - 1))))"
  by pat_completeness auto
termination
  by (relation "measure (\<lambda>(m, p, src, count). unat count)")
     (auto simp: unat_pred_less unat_pred2_less)

definition strncpy :: "mem \<Rightarrow> u32 \<Rightarrow> u32 \<Rightarrow> u32 \<Rightarrow> (u32 \<times> mem) run" where
  "strncpy m dest src count = rbind (strncpy_loop m dest src count) (\<lambda>m. ret (dest, m))"

text \<open>The result is an \<open>int\<close>, the difference of two \<open>unsigned char\<close>.\<close>

partial_function (option) strcmp :: "mem \<Rightarrow> u32 \<Rightarrow> u32 \<Rightarrow> u32 run" where
  "strcmp m s1 s2 = rbind (load8 m s1) (\<lambda>a. rbind (load8 m s2) (\<lambda>b.
     if a = b then (if a = 0 then ret 0 else strcmp m (s1 + 1) (s2 + 1))
     else ret (ucast a - ucast b)))"

text \<open>The \<open>do .. while (--n != 0)\<close> loop, entered with \<open>n\<close> not 0.\<close>

function strncmp_loop :: "mem \<Rightarrow> u32 \<Rightarrow> u32 \<Rightarrow> u32 \<Rightarrow> u32 run" where
  "strncmp_loop m s1 s2 n = rbind (load8 m s1) (\<lambda>a. rbind (load8 m s2) (\<lambda>b.
     if a \<noteq> b then ret (ucast a - ucast b)
     else if a = 0 then ret 0
     else if n - 1 \<noteq> 0 then strncmp_loop m (s1 + 1) (s2 + 1) (n - 1)
     else ret 0))"
  by pat_completeness auto
termination
  by (relation "measure (\<lambda>(m, s1, s2, n). unat (n - 1))")
     (auto simp: unat_pred_less unat_pred2_less)

definition strncmp :: "mem \<Rightarrow> u32 \<Rightarrow> u32 \<Rightarrow> u32 \<Rightarrow> u32 run" where
  "strncmp m s1 s2 n = (if n = 0 then ret 0 else strncmp_loop m s1 s2 n)"

text \<open>\<open>char\<close> is signed on the target, so the comparisons promote by sign extension.\<close>

definition is_digit :: "u8 \<Rightarrow> bool" where
  "is_digit c \<longleftrightarrow> of_char (CHR ''0'') \<le> sint c \<and> sint c \<le> of_char (CHR ''9'')"

partial_function (option) atoi_loop :: "mem \<Rightarrow> u32 \<Rightarrow> u32 \<Rightarrow> u32 run" where
  "atoi_loop m s n = rbind (load8 m s) (\<lambda>c.
     if is_digit c then atoi_loop m (s + 1) (n * 10 + scast c - of_char (CHR ''0'')) else ret n)"

definition atoi :: "mem \<Rightarrow> u32 \<Rightarrow> u32 run" where
  "atoi m s = atoi_loop m s 0"

definition lower_char :: "u8 \<Rightarrow> u8" where
  "lower_char c = (if sint c \<ge> of_char (CHR ''A'') \<and> sint c \<le> of_char (CHR ''Z'') then c + 32 else c)"

partial_function (option) tolower_loop :: "mem \<Rightarrow> u32 \<Rightarrow> u32 \<Rightarrow> mem run" where
  "tolower_loop m s n = rbind (load8 m (s + n)) (\<lambda>c.
     if c = 0 then ret m
     else if sint c \<ge> of_char (CHR ''A'') \<and> sint c \<le> of_char (CHR ''Z'')
     then rbind (store8 m (s + n) (c + 32)) (\<lambda>m. tolower_loop m s (n + 1))
     else tolower_loop m s (n + 1))"

definition tolower :: "mem \<Rightarrow> u32 \<Rightarrow> (u32 \<times> mem) run" where
  "tolower m s = rbind (tolower_loop m s 0) (\<lambda>m. ret (s, m))"

declare strncpy_loop.simps [simp del] strncmp_loop.simps [simp del]

lemmas cstring_eval = strlen_def strlen_loop.simps strncpy_def strncpy_loop.simps strcmp.simps
  strncmp_def strncmp_loop.simps is_digit_def atoi_def atoi_loop.simps lower_char_def
  tolower_loop.simps tolower_def

section \<open>\<open>strlen\<close>\<close>

lemma strlen_loop_cstr: "cstr m (s + n) xs \<Longrightarrow> strlen_loop m s n = ret (n + of_nat (length xs))"
proof (induction xs arbitrary: n)
  case Nil
  then show ?case by (subst strlen_loop.simps) simp
next
  case (Cons x xs)
  then have "strlen_loop m s (n + 1) = ret (n + 1 + of_nat (length xs))"
    by (intro Cons.IH) (simp add: add.assoc)
  with Cons.prems show ?case
    by (subst strlen_loop.simps) (simp add: algebra_simps)
qed

lemma strlen_cstr: "cstr m s xs \<Longrightarrow> strlen m s = ret (of_nat (length xs))"
  using strlen_loop_cstr [of m s 0 xs] by (simp add: strlen_def)

lemma strlen_loop_returns:
  assumes "strlen_loop m s n = Some r"
  shows "\<forall>k. r = Inr k \<longrightarrow> (\<exists>xs. cstr m (s + n) xs \<and> k = n + of_nat (length xs))"
proof (rule strlen_loop.raw_induct [where P = "\<lambda>m s n r. \<forall>k. r = Inr k \<longrightarrow>
    (\<exists>xs. cstr m (s + n) xs \<and> k = n + of_nat (length xs))", OF _ assms], intro allI impI)
  fix f :: "mem \<Rightarrow> u32 \<Rightarrow> u32 \<Rightarrow> u32 run" and m s n r k
  assume IH: "\<And>m s n r. f m s n = Some r \<Longrightarrow>
      \<forall>k. r = Inr k \<longrightarrow> (\<exists>xs. cstr m (s + n) xs \<and> k = n + of_nat (length xs))"
    and eq: "rbind (load8 m (s + n)) (\<lambda>c. if c = 0 then ret n else f m s (n + 1)) = Some r"
    and r: "r = Inr k"
  from eq r obtain c where c: "m (s + n) = Some c"
    and k: "(if c = 0 then ret n else f m s (n + 1)) = ret k"
    by (auto simp: rbind_eq_ret load8_eq_ret simp flip: ret_def)
  show "\<exists>xs. cstr m (s + n) xs \<and> k = n + of_nat (length xs)"
  proof (cases "c = 0")
    case True
    with c k show ?thesis by (intro exI [of _ "[]"]) simp
  next
    case False
    with k obtain xs where "cstr m (s + (n + 1)) xs" "k = n + 1 + of_nat (length xs)"
      using IH [of m s "n + 1" "Inr k"] by (auto simp: ret_def)
    with False c show ?thesis
      by (intro exI [of _ "c # xs"]) (simp add: algebra_simps)
  qed
qed

lemma strlen_iff: "strlen m s = ret k \<longleftrightarrow> (\<exists>xs. cstr m s xs \<and> k = of_nat (length xs))"
  using strlen_loop_returns [of m s 0 "Inr k"] strlen_cstr
  by (auto simp: strlen_def ret_def)

section \<open>\<open>strncpy\<close>\<close>

text \<open>
  With the destination outside the source, at most \<open>count\<close> characters are copied and one
  terminator more is written: \<open>count + 1\<close> bytes when the source is at least \<open>count\<close> long.
\<close>

lemma strncpy_loop_correct:
  assumes "cstr m src xs" and "mapped m p (Suc (min (unat count) (length xs)))"
    and "addrs p (Suc (min (unat count) (length xs))) \<inter> addrs src (Suc (length xs)) = {}"
  shows "strncpy_loop m p src count = ret (upd m p (take (unat count) xs @ [0]))"
  using assms
proof (induction xs arbitrary: m p src count)
  case Nil
  then show ?case
    by (subst strncpy_loop.simps) auto
next
  case (Cons x xs)
  show ?case
  proof (cases "count = 0")
    case True
    with Cons.prems show ?thesis
      by (subst strncpy_loop.simps) auto
  next
    case False
    then have c: "unat count = Suc (unat (count - 1))"
      by (simp add: unat_minus_one unat_gt_0)
    have "strncpy_loop (m(p \<mapsto> x)) (p + 1) (src + 1) (count - 1)
        = ret (upd (m(p \<mapsto> x)) (p + 1) (take (unat (count - 1)) xs @ [0]))"
    proof (rule Cons.IH)
      show "cstr (m(p \<mapsto> x)) (src + 1) xs"
        using Cons.prems(1,3) by (subst cstr_agree [of _ _ _ m]) (auto simp: c)
      show "mapped (m(p \<mapsto> x)) (p + 1) (Suc (min (unat (count - 1)) (length xs)))"
        using Cons.prems(2) by (simp add: c)
      show "addrs (p + 1) (Suc (min (unat (count - 1)) (length xs)))
          \<inter> addrs (src + 1) (Suc (length xs)) = {}"
        using Cons.prems(3) by (auto simp: c)
    qed
    with False Cons.prems show ?thesis
      by (subst strncpy_loop.simps) (auto simp: c)
  qed
qed

section \<open>Comparison\<close>

text \<open>What the comparison returns: the difference at the first mismatch, 0 if there is none.\<close>

fun cmp_bytes :: "u8 list \<Rightarrow> u8 list \<Rightarrow> int" where
  "cmp_bytes [] [] = 0"
| "cmp_bytes [] (y # ys) = - uint y"
| "cmp_bytes (x # xs) [] = uint x"
| "cmp_bytes (x # xs) (y # ys) = (if x = y then cmp_bytes xs ys else uint x - uint y)"

lemma uint_u8_bounds: "0 \<le> uint (x :: u8)" "uint (x :: u8) < 256"
  using uint_bounded [of x] by simp_all

lemma sint_u32_small: "- (2 ^ 31) \<le> k \<Longrightarrow> k < 2 ^ 31 \<Longrightarrow> sint (of_int k :: u32) = k"
  by (simp add: signed_of_int signed_take_bit_int_eq_self)

lemma sint_diff_u8: "sint (ucast a - ucast b :: u32) = uint (a :: u8) - uint (b :: u8)"
proof -
  have "(ucast a - ucast b :: u32) = of_int (uint a - uint b)"
    by (simp add: of_int_uint)
  also have "sint \<dots> = uint a - uint b"
  proof (rule sint_u32_small)
    have "- (2 ^ 31) \<le> i - j \<and> i - j < 2 ^ 31" if "0 \<le> i" "i < 256" "0 \<le> j" "j < 256" for i j :: int
      using that by simp
    from this [OF uint_u8_bounds uint_u8_bounds, of a b]
    show "- (2 ^ 31) \<le> uint a - uint b" "uint a - uint b < 2 ^ 31" by blast+
  qed
  finally show ?thesis .
qed

lemma strcmp_cstr: "cstr m p xs \<Longrightarrow> cstr m q ys \<Longrightarrow>
    \<exists>r. strcmp m p q = ret r \<and> sint r = cmp_bytes xs ys"
proof (induction xs ys arbitrary: p q rule: cmp_bytes.induct)
  case (2 y ys)
  then show ?case
    using sint_diff_u8 [of 0 y] by (subst strcmp.simps) auto
next
  case (3 x xs)
  then show ?case
    using sint_diff_u8 [of x 0] by (subst strcmp.simps) auto
next
  case (4 x xs y ys)
  then show ?case
    by (subst strcmp.simps) (auto simp: sint_diff_u8)
qed (subst strcmp.simps, simp)

lemma cmp_bytes_eq_0: "0 \<notin> set xs \<Longrightarrow> 0 \<notin> set ys \<Longrightarrow> cmp_bytes xs ys = 0 \<longleftrightarrow> xs = ys"
  by (induction xs ys rule: cmp_bytes.induct) (auto simp: word_uint_eq_iff)

lemma cmp_bytes_less: "0 \<notin> set xs \<Longrightarrow> 0 \<notin> set ys \<Longrightarrow> cmp_bytes xs ys < 0 \<longleftrightarrow> xs < ys"
proof (induction xs ys rule: cmp_bytes.induct)
  case (2 y ys)
  then show ?case
    by (auto simp: word_uint_eq_iff less_le)
next
  case (3 x xs)
  then show ?case
    using uint_u8_bounds(1) [of x] by auto
next
  case (4 x xs y ys)
  then show ?case by (auto simp: word_less_def)
qed simp

lemma strcmp_result:
  assumes "cstr m p xs" and "cstr m q ys"
  obtains r where "strcmp m p q = ret r" "r = 0 \<longleftrightarrow> xs = ys" "sint r < 0 \<longleftrightarrow> xs < ys"
proof -
  obtain r where r: "strcmp m p q = ret r" "sint r = cmp_bytes xs ys"
    using strcmp_cstr assms by blast
  have "0 \<notin> set xs" "0 \<notin> set ys"
    using assms by (simp_all add: cstr_block)
  then have "sint r = 0 \<longleftrightarrow> xs = ys" "sint r < 0 \<longleftrightarrow> xs < ys"
    unfolding r(2) by (simp_all add: cmp_bytes_eq_0 cmp_bytes_less)
  moreover have "sint r = 0 \<longleftrightarrow> r = 0"
    by (metis signed_0 signed_word_eqI)
  ultimately show ?thesis
    using r(1) that by blast
qed

text \<open>On strings \<open>strncmp\<close> is \<open>strcmp\<close> of the first \<open>n\<close> characters.\<close>

lemma strncmp_loop_cstr: "cstr m p xs \<Longrightarrow> cstr m q ys \<Longrightarrow> n \<noteq> 0 \<Longrightarrow>
    \<exists>r. strncmp_loop m p q n = ret r \<and>
        sint r = cmp_bytes (take (unat n) xs) (take (unat n) ys)"
proof (induction xs ys arbitrary: p q n rule: cmp_bytes.induct)
  case 1
  then show ?case by (subst strncmp_loop.simps) auto
next
  case (2 y ys)
  then show ?case
    using sint_diff_u8 [of 0 y] by (subst strncmp_loop.simps) (cases "unat n"; auto simp: unat_eq_0)
next
  case (3 x xs)
  then show ?case
    using sint_diff_u8 [of x 0] by (subst strncmp_loop.simps) (cases "unat n"; auto simp: unat_eq_0)
next
  case (4 x xs y ys)
  then have n: "unat n = Suc (unat (n - 1))"
    by (simp add: unat_minus_one unat_gt_0)
  show ?case
  proof (cases "x = y \<and> n - 1 \<noteq> 0")
    case True
    with 4 obtain r where "strncmp_loop m (p + 1) (q + 1) (n - 1) = ret r"
      "sint r = cmp_bytes (take (unat (n - 1)) xs) (take (unat (n - 1)) ys)"
      by (metis cstr.simps(2))
    with True 4 n show ?thesis
      by (subst strncmp_loop.simps) auto
  next
    case False
    with 4 n show ?thesis
      by (subst strncmp_loop.simps) (auto simp: sint_diff_u8)
  qed
qed

lemma strncmp_cstr: "cstr m p xs \<Longrightarrow> cstr m q ys \<Longrightarrow>
    \<exists>r. strncmp m p q n = ret r \<and> sint r = cmp_bytes (take (unat n) xs) (take (unat n) ys)"
  using strncmp_loop_cstr [of m p xs q ys n] by (cases "n = 0") (auto simp: strncmp_def)

section \<open>\<open>atoi\<close> and \<open>tolower\<close>\<close>

lemma sint_u8: "sint (c :: u8) = (if uint c < 128 then uint c else uint c - 256)"
proof -
  have "(uint c + 128) mod 256 = (if uint c < 128 then uint c + 128 else uint c - 128)"
  proof (cases "uint c < 128")
    case True
    with uint_u8_bounds [of c] show ?thesis by (simp add: mod_pos_pos_trivial)
  next
    case False
    have "(uint c + 128) mod 256 = (uint c - 128 + 256) mod 256"
      by (rule arg_cong [of _ _ "\<lambda>k. k mod 256"]) simp
    also have "\<dots> = uint c - 128"
      using False uint_u8_bounds [of c] by (simp only: mod_add_self2) (simp add: mod_pos_pos_trivial)
    finally show ?thesis using False by simp
  qed
  then show ?thesis
    by (simp add: sint_uint signed_take_bit_eq_take_bit_shift take_bit_eq_mod)
qed

lemma is_digit_iff: "is_digit c \<longleftrightarrow> 48 \<le> uint c \<and> uint c \<le> 57"
  using uint_u8_bounds [of c] by (auto simp: is_digit_def sint_u8)

text \<open>The value of a run of digits, as a number of the mathematician's.\<close>

fun dec_value :: "nat \<Rightarrow> u8 list \<Rightarrow> nat" where
  "dec_value n [] = n"
| "dec_value n (c # cs) = dec_value (10 * n + (unat c - 48)) cs"

lemma scast_digit:
  assumes "is_digit c"
  shows "(scast c - 48 :: u32) = of_nat (unat c - 48)"
proof -
  from assms have c: "sint c = uint c" "48 \<le> uint c"
    using uint_u8_bounds [of c] by (auto simp: is_digit_iff sint_u8)
  have "(scast c - 48 :: u32) = of_int (sint c - 48)"
    by (simp add: of_int_sint)
  also have "sint c - 48 = int (unat c - 48)"
    using c by (simp add: unsigned_of_nat nat_le_iff of_nat_diff flip: nat_uint_eq)
  finally show ?thesis by simp
qed

lemma atoi_loop_digits: "block m s (ds @ [c]) \<Longrightarrow> \<forall>d \<in> set ds. is_digit d \<Longrightarrow> \<not> is_digit c \<Longrightarrow>
    atoi_loop m s (of_nat n) = ret (of_nat (dec_value n ds))"
proof (induction ds arbitrary: s n)
  case Nil
  then show ?case by (subst atoi_loop.simps) simp
next
  case (Cons d ds)
  have step: "(of_nat n * 10 + scast d - 48 :: u32) = of_nat (10 * n + (unat d - 48))"
    using scast_digit [of d] Cons.prems(2) by (simp add: algebra_simps)
  have IH: "atoi_loop m (s + 1) (of_nat (10 * n + (unat d - 48)))
      = ret (of_nat (dec_value (10 * n + (unat d - 48)) ds))"
    using Cons.IH [of "s + 1" "10 * n + (unat d - 48)"] Cons.prems by simp
  show ?case
    using Cons.prems IH by (subst atoi_loop.simps) (simp add: step del: of_nat_add of_nat_mult)
qed

lemma atoi_digits: "block m s (ds @ [c]) \<Longrightarrow> \<forall>d \<in> set ds. is_digit d \<Longrightarrow> \<not> is_digit c \<Longrightarrow>
    atoi m s = ret (of_nat (dec_value 0 ds))"
  using atoi_loop_digits [of m s ds c 0] by (simp add: atoi_def)

lemma sint_m32: "sint (- 32 :: u8) = - 32"
  by simp

lemma lower_char_nonzero: "c \<noteq> 0 \<Longrightarrow> lower_char c \<noteq> 0"
proof -
  assume "c \<noteq> 0"
  moreover have "c + 32 = 0 \<Longrightarrow> sint c = - 32"
    by (metis add.inverse_inverse add_eq_0_iff sint_m32)
  ultimately show ?thesis
    by (auto simp: lower_char_def)
qed

lemma lower_char_idem: "lower_char (lower_char c) = lower_char c"
proof -
  have "sint c \<ge> 65 \<Longrightarrow> sint c \<le> 90 \<Longrightarrow> sint (c + 32) = sint c + 32"
    by (simp add: sint_word_ariths signed_take_bit_int_eq_self)
  then show ?thesis
    by (auto simp: lower_char_def)
qed

lemma tolower_loop_cstr: "cstr m (s + n) xs \<Longrightarrow>
    tolower_loop m s n = ret (upd m (s + n) (map lower_char xs))"
proof (induction xs arbitrary: m n)
  case Nil
  then show ?case by (subst tolower_loop.simps) simp
next
  case (Cons x xs)
  have l: "length xs < 2 ^ 32"
    using cstr_length [OF Cons.prems] by simp
  have "cstr (m(s + n \<mapsto> lower_char x)) (s + (n + 1)) xs"
    using Cons.prems cstr_length [OF Cons.prems] start_notin_addrs [of "Suc (length xs)" "s + n"]
    by (subst cstr_agree [of _ _ _ m]) (auto simp: add.assoc)
  then have IH: "tolower_loop (m(s + n \<mapsto> lower_char x)) s (n + 1)
      = ret (upd (m(s + n \<mapsto> lower_char x)) (s + (n + 1)) (map lower_char xs))"
    by (rule Cons.IH)
  have m: "m(s + n \<mapsto> x) = m"
    using Cons.prems by (simp add: map_upd_triv)
  show ?case
    using Cons.prems IH
    by (subst tolower_loop.simps) (auto simp: lower_char_def add.assoc m)
qed

lemma tolower_cstr: "cstr m s xs \<Longrightarrow> tolower m s = ret (s, upd m s (map lower_char xs))"
  using tolower_loop_cstr [of m s 0 xs] by (simp add: tolower_def)

section \<open>Properties\<close>

text \<open>C35: \<open>strcmp\<close> returns for every pair of C strings, and the sign of its result is their
  lexicographic order as sequences of unsigned bytes.\<close>

theorem strcmp_orders:
  assumes "cstr m p xs" and "cstr m q ys"
  shows "\<exists>r. strcmp m p q = ret r \<and> (r = 0 \<longleftrightarrow> xs = ys) \<and> (sint r < 0 \<longleftrightarrow> xs < ys) \<and> (0 < sint r \<longleftrightarrow> ys < xs)"
proof -
  obtain r where r: "strcmp m p q = ret r" "r = 0 \<longleftrightarrow> xs = ys" "sint r < 0 \<longleftrightarrow> xs < ys"
    by (rule strcmp_result [OF assms])
  moreover have "sint r = 0 \<longleftrightarrow> r = 0" by (metis signed_0 signed_word_eqI)
  ultimately show ?thesis by (metis linorder_neqE_linordered_idom linorder_neq_iff order_less_asym)
qed

theorem strcmp_orders_witness:
  "\<exists>r. strcmp ((\<lambda>a. Some 0)(16 \<mapsto> 200, 32 \<mapsto> 100)) 16 32 = ret r \<and> (0 < sint r \<longleftrightarrow> [100 :: u8] < [200])"
  using strcmp_orders [of "(\<lambda>a. Some 0)(16 \<mapsto> 200, 32 \<mapsto> 100)" 16 "[200]" 32 "[100]"] by auto

text \<open>C36: \<open>strncpy\<close> leaves a C string, the first \<open>count\<close> characters of the source, and touches nothing
  else; a source of \<open>count\<close> characters or more has its terminator written one byte behind them.\<close>

theorem strncpy_terminates_copy:
  assumes "cstr m src xs" and "mapped m dest (Suc (min (unat count) (length xs)))"
    and "addrs dest (Suc (min (unat count) (length xs))) \<inter> addrs src (Suc (length xs)) = {}"
  shows "\<exists>m'. strncpy m dest src count = ret (dest, m') \<and> cstr m' dest (take (unat count) xs) \<and>
    (\<forall>a. a \<notin> addrs dest (Suc (min (unat count) (length xs))) \<longrightarrow> m' a = m a)"
proof -
  let ?ys = "take (unat count) xs @ [0]"
  have len: "length ?ys = Suc (min (unat count) (length xs))" by simp
  have "strncpy m dest src count = ret (dest, upd m dest ?ys)"
    by (simp add: strncpy_def strncpy_loop_correct [OF assms] del: addrs_Suc)
  moreover have "cstr (upd m dest ?ys) dest (take (unat count) xs)"
    using cstr_length [OF assms(1)] assms(1) by (intro upd_cstr) (auto simp: cstr_block dest: in_set_takeD)
  ultimately show ?thesis
    using upd_outside [of _ dest ?ys m] unfolding len by blast
qed

theorem strncpy_terminates_copy_witness:
  "\<exists>m'. strncpy ((\<lambda>a. Some 0)(16 \<mapsto> 65, 17 \<mapsto> 66, 18 \<mapsto> 67)) 64 16 2 = ret (64, m') \<and> cstr m' 64 [65, 66]"
proof -
  let ?m = "(\<lambda>a. Some 0)(16 \<mapsto> 65, 17 \<mapsto> 66, 18 \<mapsto> 67) :: mem"
  have "dom ?m = UNIV" by auto
  then have "\<exists>m'. strncpy ?m 64 16 2 = ret (64, m') \<and> cstr m' 64 (take (unat (2 :: u32)) [65, 66, 67]) \<and>
      (\<forall>a. a \<notin> addrs 64 (Suc (min (unat (2 :: u32)) (length [65, 66, 67 :: u8]))) \<longrightarrow> m' a = ?m a)"
    by (intro strncpy_terminates_copy) (simp_all add: addrs_disjoint Int_commute del: addrs_Suc)
  moreover have "take (unat (2 :: u32)) [65, 66, 67 :: u8] = [65, 66]" by simp
  ultimately show ?thesis by metis
qed

text \<open>Lowering a string twice is lowering it once, and the string keeps its length and its place.\<close>

lemma tolower_idempotent:
  assumes "cstr m s xs"
  shows "\<exists>m'. tolower m s = ret (s, m') \<and> cstr m' s (map lower_char xs) \<and> tolower m' s = ret (s, m')"
proof -
  define m' where "m' = upd m s (map lower_char xs)"
  have len: "length xs < 2 ^ 32" by (rule cstr_length [OF assms])
  have nz: "0 \<notin> set (map lower_char xs)"
    using assms by (simp add: cstr_block image_iff) (metis lower_char_nonzero)
  have "m' (s + of_nat (length xs)) = m (s + of_nat (length xs))"
    unfolding m'_def using end_notin_addrs [of "length xs" s] len by (intro upd_outside) simp
  moreover have "block m' s (map lower_char xs)" unfolding m'_def using len by (intro upd_block) simp
  ultimately have c: "cstr m' s (map lower_char xs)"
    using assms nz by (simp add: cstr_block block_append)
  have "upd m' s (map lower_char xs) = m'"
    unfolding m'_def by (rule upd_same) (use len in simp)
  then have "tolower m' s = ret (s, m')"
    using tolower_cstr [OF c] by (simp add: comp_def lower_char_idem)
  with c tolower_cstr [OF assms] show ?thesis by (auto simp: m'_def)
qed

end
