(* ===== verification/CMem.thy ===== *)
theory CMem
  imports Prelude
begin

text \<open>
  The block operations of \<^verbatim>\<open>common/mem.c\<close>. Each is \<open>while (count--)\<close> over a moving
  pointer, so it terminates whatever the memory; it stops early only at an unmapped address.
\<close>

section \<open>Operations\<close>

function memset :: "mem \<Rightarrow> u32 \<Rightarrow> u8 \<Rightarrow> u32 \<Rightarrow> mem run" where
  "memset m dst v count =
     (if count = 0 then ret m
      else rbind (store8 m dst v) (\<lambda>m. memset m (dst + 1) v (count - 1)))"
  by pat_completeness auto
termination
  by (relation "measure (\<lambda>(m, dst, v, count). unat count)") (auto simp: unat_pred_less)

function memsetdw :: "mem \<Rightarrow> u32 \<Rightarrow> u32 \<Rightarrow> u32 \<Rightarrow> mem run" where
  "memsetdw m dst v count =
     (if count = 0 then ret m
      else rbind (store32 m dst v) (\<lambda>m. memsetdw m (dst + 4) v (count - 1)))"
  by pat_completeness auto
termination
  by (relation "measure (\<lambda>(m, dst, v, count). unat count)") (auto simp: unat_pred_less)

function memcpy :: "mem \<Rightarrow> u32 \<Rightarrow> u32 \<Rightarrow> u32 \<Rightarrow> mem run" where
  "memcpy m dst src count =
     (if count = 0 then ret m
      else rbind (load8 m src) (\<lambda>b. rbind (store8 m dst b) (\<lambda>m.
        memcpy m (dst + 1) (src + 1) (count - 1))))"
  by pat_completeness auto
termination
  by (relation "measure (\<lambda>(m, dst, src, count). unat count)") (auto simp: unat_pred_less)

function memcpydw :: "mem \<Rightarrow> u32 \<Rightarrow> u32 \<Rightarrow> u32 \<Rightarrow> mem run" where
  "memcpydw m dst src count =
     (if count = 0 then ret m
      else rbind (load32 m src) (\<lambda>w. rbind (store32 m dst w) (\<lambda>m.
        memcpydw m (dst + 4) (src + 4) (count - 1))))"
  by pat_completeness auto
termination
  by (relation "measure (\<lambda>(m, dst, src, count). unat count)") (auto simp: unat_pred_less)

declare memset.simps [simp del] memsetdw.simps [simp del] memcpy.simps [simp del] memcpydw.simps [simp del]

section \<open>What they write\<close>

lemma unat_count: "unat (n :: u32) = Suc k \<Longrightarrow> n \<noteq> 0 \<and> unat (n - 1) = k"
  by (cases "n = 0") (auto simp: unat_minus_one)

lemma memset_upd: "mapped m d (unat n) \<Longrightarrow> memset m d v n = ret (upd m d (replicate (unat n) v))"
proof (induction "unat n" arbitrary: m d n)
  case 0
  then show ?case by (subst memset.simps) (simp add: unat_eq_0)
next
  case (Suc k)
  from Suc(2) have n: "n \<noteq> 0" "unat (n - 1) = k" "unat n = Suc k"
    using unat_count [of n k] by simp_all
  with Suc(1) [of "n - 1" "m(d \<mapsto> v)" "d + 1"] Suc.prems show ?case
    by (subst memset.simps) auto
qed

text \<open>The first unmapped byte stops the loop.\<close>

lemma memset_fault: "mapped m d k \<Longrightarrow> m (d + of_nat k) = None \<Longrightarrow> k < unat n \<Longrightarrow>
    memset m d v n = fail (BadAddr (d + of_nat k))"
proof (induction k arbitrary: m d n)
  case 0
  then show ?case by (subst memset.simps) (auto simp: unat_gt_0)
next
  case (Suc k)
  then obtain j where j: "unat n = Suc j" by (cases "unat n") auto
  then have "n \<noteq> 0" "unat (n - 1) = j" using unat_count [of n j] by simp_all
  moreover have "memset (m(d \<mapsto> v)) (d + 1) v (n - 1) = fail (BadAddr (d + 1 + of_nat k))"
    using Suc.prems j calculation
    by (intro Suc.IH) (auto simp: add.assoc)
  ultimately show ?case
    using Suc.prems by (subst memset.simps) (auto simp: add.assoc)
qed

lemma memsetdw_upd: "mapped m d (4 * unat n) \<Longrightarrow>
    memsetdw m d v n = ret (upd m d (concat (replicate (unat n) (split32 v))))"
proof (induction "unat n" arbitrary: m d n)
  case 0
  then show ?case by (subst memsetdw.simps) (simp add: unat_eq_0)
next
  case (Suc k)
  from Suc(2) have n: "n \<noteq> 0" "unat (n - 1) = k" "unat n = Suc k"
    using unat_count [of n k] by simp_all
  have m: "mapped m d 4" "mapped m (d + 4) (4 * k)"
    using Suc.prems addrs_split [of d 4 "4 * k"] by (auto simp: n mapped_def)
  with Suc(1) [of "n - 1" "upd m d (split32 v)" "d + 4"] n show ?case
    by (subst memsetdw.simps) (simp add: store32_upd mapped_upd upd_append)
qed

text \<open>
  A forward copy is exact as long as no write hits a byte still to be read; that includes
  every copy to a lower address.
\<close>

definition no_clobber :: "u32 \<Rightarrow> u32 \<Rightarrow> nat \<Rightarrow> bool" where
  "no_clobber d s n \<longleftrightarrow> (\<forall>j < n. \<forall>i < j. d + of_nat i \<noteq> s + of_nat j)"

lemma no_clobber_disjoint: "addrs d n \<inter> addrs s n = {} \<Longrightarrow> no_clobber d s n"
  unfolding no_clobber_def by (metis disjoint_iff less_trans mem_addrs)

lemma no_clobber_Suc: "no_clobber d s (Suc n) \<Longrightarrow> d \<notin> addrs (s + 1) n \<and> no_clobber (d + 1) (s + 1) n"
proof
  assume c: "no_clobber d s (Suc n)"
  have "d + of_nat 0 \<noteq> s + of_nat (Suc j)" if "j < n" for j
    using c that unfolding no_clobber_def by (metis Suc_mono zero_less_Suc)
  then show "d \<notin> addrs (s + 1) n"
    by (auto simp: addrs_def add.assoc)
  have "d + of_nat (Suc i) \<noteq> s + of_nat (Suc j)" if "j < n" "i < j" for i j
    using c that unfolding no_clobber_def by (metis Suc_mono)
  then show "no_clobber (d + 1) (s + 1) n"
    by (auto simp: no_clobber_def add.assoc)
qed

lemma memcpy_upd: "block m s xs \<Longrightarrow> length xs = unat n \<Longrightarrow> mapped m d (unat n) \<Longrightarrow>
    no_clobber d s (unat n) \<Longrightarrow> memcpy m d s n = ret (upd m d xs)"
proof (induction xs arbitrary: m d s n)
  case Nil
  then show ?case by (subst memcpy.simps) (simp add: unat_eq_0)
next
  case (Cons x xs)
  then have n: "n \<noteq> 0" "unat (n - 1) = length xs" "unat n = Suc (length xs)"
    using unat_count [of n "length xs"] by simp_all
  then have c: "d \<notin> addrs (s + 1) (length xs)" "no_clobber (d + 1) (s + 1) (length xs)"
    using no_clobber_Suc [of d s "length xs"] Cons.prems by simp_all
  have "block (m(d \<mapsto> x)) (s + 1) xs"
    using Cons.prems c(1) by (subst block_agree [of _ _ _ m]) auto
  then have "memcpy (m(d \<mapsto> x)) (d + 1) (s + 1) (n - 1) = ret (upd (m(d \<mapsto> x)) (d + 1) xs)"
    using Cons.prems n c by (intro Cons.IH) auto
  with Cons.prems n show ?case
    by (subst memcpy.simps) auto
qed

text \<open>
  It is not \<open>memmove\<close>: copying a region one byte up smears its first byte over it.
\<close>

lemma memcpy_smear: "m s = Some x \<Longrightarrow> mapped m (s + 1) (unat n) \<Longrightarrow>
    memcpy m (s + 1) s n = ret (upd m (s + 1) (replicate (unat n) x))"
proof (induction "unat n" arbitrary: m s n)
  case 0
  then show ?case by (subst memcpy.simps) (simp add: unat_eq_0)
next
  case (Suc k)
  from Suc(2) have n: "n \<noteq> 0" "unat (n - 1) = k" "unat n = Suc k"
    using unat_count [of n k] by simp_all
  with Suc(1) [of "n - 1" "m(s + 1 \<mapsto> x)" "s + 1"] Suc.prems show ?case
    by (subst memcpy.simps) (auto simp: add.assoc)
qed

lemma memcpydw_upd: "block m s (concat (map split32 ws)) \<Longrightarrow> length ws = unat n \<Longrightarrow>
    mapped m d (4 * unat n) \<Longrightarrow> addrs d (4 * unat n) \<inter> addrs s (4 * unat n) = {} \<Longrightarrow>
    memcpydw m d s n = ret (upd m d (concat (map split32 ws)))"
proof (induction ws arbitrary: m d s n)
  case Nil
  then show ?case by (subst memcpydw.simps) (simp add: unat_eq_0)
next
  case (Cons w ws)
  let ?k = "4 * length ws" and ?m = "upd m d (split32 w)"
  have n: "n \<noteq> 0" "unat (n - 1) = length ws" "unat n = Suc (length ws)"
    using unat_count [of n "length ws"] Cons.prems by simp_all
  have sp: "addrs d (4 + ?k) = addrs d 4 \<union> addrs (d + 4) ?k"
    "addrs s (4 + ?k) = addrs s 4 \<union> addrs (s + 4) ?k"
    using addrs_split [of d 4 ?k] addrs_split [of s 4 ?k] by simp_all
  have b: "block m s (split32 w)" "block m (s + 4) (concat (map split32 ws))"
    using Cons.prems(1) by (simp_all add: block_append)
  have len: "length (concat (map split32 ws)) = ?k"
    by (induction ws) simp_all
  have m: "mapped m d 4" "mapped ?m (d + 4) ?k"
    using Cons.prems(3) sp by (auto simp: n mapped_def dom_upd)
  have "block ?m (s + 4) (concat (map split32 ws))"
    using b(2) Cons.prems(4) sp
    by (subst block_agree [of _ _ _ m]) (auto simp: len n intro!: upd_outside)
  with Cons.IH [of ?m "s + 4" "n - 1" "d + 4"] Cons.prems(4) sp b(1) m n show ?case
    by (subst memcpydw.simps) (auto simp: load32_split store32_upd upd_append)
qed

section \<open>Properties\<close>



end
