(* ===== verification/CStdio.thy ===== *)
theory CStdio
  imports CString
begin

text \<open>
  The formatted output of \<^verbatim>\<open>common/stdio.c\<close>: \<open>printint_rev\<close> and \<open>vsnprintf\<close>. The
  variadic arguments are the list of the 32-bit stack slots that \<open>va_arg\<close> walks over (every
  argument the formats take is one slot wide on IA-32). The local \<open>buf\<close> is a list that is
  indexed with a bounds check, because the code writes it without one.
\<close>

section \<open>\<open>printint_rev\<close>\<close>

definition digits :: "u8 list" where
  "digits = chars ''0123456789ABCDEF'' @ [0]"

definition arr_get :: "u8 list \<Rightarrow> nat \<Rightarrow> u8 run" where
  "arr_get xs i = (if i < length xs then ret (xs ! i) else fail BadIndex)"

definition arr_put :: "u8 list \<Rightarrow> nat \<Rightarrow> u8 \<Rightarrow> (u8 list) run" where
  "arr_put xs i c = (if i < length xs then ret (xs[i := c]) else fail BadIndex)"

text \<open>\<open>do { buf[count++] = digits[x % base]; } while ((x /= base) != 0);\<close>\<close>

partial_function (option) printint_digits ::
  "u8 list \<Rightarrow> nat \<Rightarrow> u32 \<Rightarrow> u32 \<Rightarrow> (u8 list \<times> nat) run" where
  "printint_digits buf count x base =
     (if base = 0 then fail DivZero
      else rbind (arr_get digits (unat (x mod base))) (\<lambda>d.
        rbind (arr_put buf count d) (\<lambda>buf.
          if x div base \<noteq> 0 then printint_digits buf (count + 1) (x div base) base
          else ret (buf, count + 1))))"

text \<open>
  \<open>-val\<close> is two's complement negation, as the compiler emits it; it maps \<open>INT_MIN\<close> to itself,
  which is then read as the unsigned 2147483648.
\<close>

definition printint_rev :: "u8 list \<Rightarrow> u32 \<Rightarrow> u32 \<Rightarrow> bool \<Rightarrow> (u8 list \<times> nat) run" where
  "printint_rev buf val base signd =
     (let neg = signd \<and> sint val < 0; x = (if neg then - val else val) in
      rbind (printint_digits buf 0 x base) (\<lambda>(buf, count).
      rbind (if neg then rbind (arr_put buf count (of_char (CHR ''-''))) (\<lambda>buf. ret (buf, count + 1))
             else ret (buf, count)) (\<lambda>(buf, count).
      rbind (arr_put buf count 0) (\<lambda>buf. ret (buf, count)))))"

section \<open>\<open>vsnprintf\<close>\<close>

text \<open>The locals the \<open>putc\<close> macro moves, and the memory it writes.\<close>

record sink =
  o_mem :: mem
  o_dest :: u32
  o_size :: u32
  o_count :: u32

definition putc_macro :: "u8 \<Rightarrow> sink \<Rightarrow> sink run" where
  "putc_macro c s =
     (if sint (o_size s) > 0
      then rbind (store8 (o_mem s) (o_dest s) c) (\<lambda>m.
        ret \<lparr>o_mem = m, o_dest = o_dest s + 1, o_size = o_size s - 1, o_count = o_count s + 1\<rparr>)
      else ret s)"

text \<open>\<open>while (*s) { putc(*s) s++; }\<close>\<close>

partial_function (option) emit_str :: "u32 \<Rightarrow> sink \<Rightarrow> sink run" where
  "emit_str p s = rbind (load8 (o_mem s) p) (\<lambda>c.
     if c = 0 then ret s
     else rbind (putc_macro c s) (\<lambda>s. emit_str (p + 1) s))"

text \<open>
  \<open>while (len) putc(buf[--len]);\<close> The macro evaluates \<open>buf[--len]\<close> inside its
  \<open>if (size > 0)\<close>: with no room left \<open>len\<close> stays as it is.
\<close>

partial_function (option) emit_rev :: "u8 list \<Rightarrow> nat \<Rightarrow> sink \<Rightarrow> sink run" where
  "emit_rev buf len s =
     (if len = 0 then ret s
      else if sint (o_size s) > 0
      then rbind (arr_get buf (len - 1)) (\<lambda>c. rbind (putc_macro c s) (\<lambda>s. emit_rev buf (len - 1) s))
      else emit_rev buf len s)"

definition va_arg :: "u32 list \<Rightarrow> (u32 \<times> u32 list) run" where
  "va_arg args = (case args of [] \<Rightarrow> fail NoArg | a # rest \<Rightarrow> ret (a, rest))"

definition put_int :: "u8 list \<Rightarrow> u32 \<Rightarrow> u32 \<Rightarrow> bool \<Rightarrow> sink \<Rightarrow> sink run" where
  "put_int buf n base signd s =
     rbind (printint_rev buf n base signd) (\<lambda>(buf, len). emit_rev buf len s)"

text \<open>The \<open>switch (*fmt)\<close> on the character after a \<open>%\<close>.\<close>

definition directive :: "u8 list \<Rightarrow> u8 \<Rightarrow> u32 list \<Rightarrow> sink \<Rightarrow> (u32 list \<times> sink) run" where
  "directive buf c args s =
     (if c = of_char (CHR ''c'') then
        rbind (va_arg args) (\<lambda>(n, args). rbind (putc_macro (ucast n) s) (\<lambda>s. ret (args, s)))
      else if c = of_char (CHR ''s'') then
        rbind (va_arg args) (\<lambda>(p, args). rbind (emit_str p s) (\<lambda>s. ret (args, s)))
      else if c = of_char (CHR ''d'') then
        rbind (va_arg args) (\<lambda>(n, args). rbind (put_int buf n 10 True s) (\<lambda>s. ret (args, s)))
      else if c = of_char (CHR ''u'') then
        rbind (va_arg args) (\<lambda>(n, args). rbind (put_int buf n 10 False s) (\<lambda>s. ret (args, s)))
      else if c = of_char (CHR ''x'') then
        rbind (va_arg args) (\<lambda>(n, args). rbind (put_int buf n 16 False s) (\<lambda>s. ret (args, s)))
      else if c = of_char (CHR ''%'') then
        rbind (putc_macro c s) (\<lambda>s. ret (args, s))
      else ret (args, s))"

partial_function (option) vsn_loop :: "u8 list \<Rightarrow> u32 \<Rightarrow> u32 list \<Rightarrow> sink \<Rightarrow> sink run" where
  "vsn_loop buf fmt args s = rbind (load8 (o_mem s) fmt) (\<lambda>c.
     if c = 0 then ret s
     else if c = of_char (CHR ''%'') then
       rbind (load8 (o_mem s) (fmt + 1)) (\<lambda>d.
         if d = 0 then ret s
         else rbind (directive buf d args s) (\<lambda>r. vsn_loop buf (fmt + 2) (fst r) (snd r)))
     else rbind (putc_macro c s) (\<lambda>s. vsn_loop buf (fmt + 1) args s))"

text \<open>
  \<open>char buf[size+1]\<close> needs a positive length. Its bytes are written before they are read, so
  the model starts it with zeroes.
\<close>

definition vsnprintf :: "mem \<Rightarrow> u32 \<Rightarrow> u32 \<Rightarrow> u32 \<Rightarrow> u32 list \<Rightarrow> (u32 \<times> mem) run" where
  "vsnprintf m dest sz fmt args =
     (if sint (sz + 1) \<le> 0 then fail BadIndex
      else rbind (vsn_loop (replicate (unat (sz + 1)) 0) fmt args
                    \<lparr>o_mem = m, o_dest = dest, o_size = sz, o_count = 0\<rparr>) (\<lambda>s.
        rbind (store8 (o_mem s) (o_dest s) 0) (\<lambda>m. ret (o_count s, m))))"

definition snprintf :: "mem \<Rightarrow> u32 \<Rightarrow> u32 \<Rightarrow> u32 \<Rightarrow> u32 list \<Rightarrow> (u32 \<times> mem) run" where
  "snprintf m dest sz fmt args = vsnprintf m dest sz fmt args"

lemmas cstdio_eval = digits_def arr_get_def arr_put_def printint_digits.simps printint_rev_def
  putc_macro_def emit_str.simps emit_rev.simps va_arg_def put_int_def directive_def vsn_loop.simps
  vsnprintf_def snprintf_def

section \<open>Numerals\<close>

text \<open>The digits of a number, least significant first, and their characters in reading order.\<close>

fun num_rev :: "nat \<Rightarrow> nat \<Rightarrow> nat list" where
  "num_rev b n = (if b < 2 \<or> n < b then [n] else (n mod b) # num_rev b (n div b))"

declare num_rev.simps [simp del]

definition num_chars :: "nat \<Rightarrow> nat \<Rightarrow> u8 list" where
  "num_chars b n = rev (map ((!) digits) (num_rev b n))"

definition signed_chars :: "u32 \<Rightarrow> u8 list" where
  "signed_chars n = (if sint n < 0 then of_char (CHR ''-'') # num_chars 10 (nat (- sint n))
                     else num_chars 10 (nat (sint n)))"

lemma length_digits [simp]: "length digits = 17"
  by (simp add: digits_def)

lemma num_rev_nonempty [simp]: "num_rev b n \<noteq> []"
  by (subst num_rev.simps) simp

lemma num_rev_less: "2 \<le> b \<Longrightarrow> d \<in> set (num_rev b n) \<Longrightarrow> d < b"
proof (induction b n rule: num_rev.induct)
  case (1 b n)
  then show ?case using num_rev.simps [of b n] by (auto split: if_splits)
qed

lemma num_rev_length: "2 \<le> b \<Longrightarrow> n < b ^ Suc k \<Longrightarrow> length (num_rev b n) \<le> Suc k"
proof (induction k arbitrary: n)
  case 0
  then show ?case by (subst num_rev.simps) simp
next
  case (Suc k)
  then have "n div b < b ^ Suc k"
    by (simp add: less_mult_imp_div_less mult.commute)
  with Suc show ?case by (subst num_rev.simps) simp
qed

text \<open>The digits denote the number, and no leading zero is printed.\<close>

fun num_value :: "nat \<Rightarrow> nat list \<Rightarrow> nat" where
  "num_value b [] = 0"
| "num_value b (d # ds) = d + b * num_value b ds"

lemma num_value_rev: "2 \<le> b \<Longrightarrow> num_value b (num_rev b n) = n"
proof (induction b n rule: num_rev.induct)
  case (1 b n)
  then show ?case by (subst num_rev.simps) auto
qed

lemma num_rev_last: "2 \<le> b \<Longrightarrow> last (num_rev b n) = 0 \<Longrightarrow> n = 0"
proof (induction b n rule: num_rev.induct)
  case (1 b n)
  have "last (num_rev b n) = (if n < b then n else last (num_rev b (n div b)))"
    using 1(2) by (subst num_rev.simps) auto
  with 1 show ?case by (auto split: if_splits simp: div_eq_0_iff)
qed

lemma digit_nth: "d < 10 \<Longrightarrow> digits ! d = of_nat (48 + d)"
  by (auto simp: digits_def numeral_eq_Suc less_Suc_eq)

lemma unat_digit: "d < 10 \<Longrightarrow> unat (digits ! d) = 48 + d"
  by (simp only: digit_nth unat_of_nat) simp

lemma is_digit_digits: "d < 10 \<Longrightarrow> is_digit (digits ! d)"
  using unat_digit [of d] by (simp add: is_digit_iff uint_nat)

lemma num_chars_digits: "c \<in> set (num_chars 10 n) \<Longrightarrow> is_digit c"
  by (auto simp: num_chars_def is_digit_digits dest: num_rev_less [rotated])

lemma dec_value_append: "dec_value n (xs @ ys) = dec_value (dec_value n xs) ys"
  by (induction xs arbitrary: n) auto

lemma dec_value_num_rev: "\<forall>d \<in> set ds. d < 10 \<Longrightarrow>
    dec_value 0 (rev (map ((!) digits) ds)) = num_value 10 ds"
  by (induction ds) (auto simp: dec_value_append unat_digit)

text \<open>Reading the decimal characters back gives the number.\<close>

lemma dec_value_num_chars: "dec_value 0 (num_chars 10 n) = n"
  unfolding num_chars_def
  by (subst dec_value_num_rev) (auto simp: num_value_rev dest: num_rev_less [rotated])

lemma num_chars_length: "length (num_chars 10 (unat (n :: u32))) \<le> 10"
  "length (num_chars 16 (unat n)) \<le> 8"
  using num_rev_length [of 10 "unat n" 9] num_rev_length [of 16 "unat n" 7] unat_u32_less [of n]
  by (simp_all add: num_chars_def)

section \<open>\<open>printint_rev\<close> prints the numeral reversed\<close>

lemma put_prefix: "count < length buf \<Longrightarrow> take (Suc count) (buf[count := d]) = take count buf @ [d]"
  by (simp add: take_Suc_conv_app_nth)

lemma printint_digits_correct:
  "2 \<le> unat base \<Longrightarrow> unat base \<le> 16 \<Longrightarrow> count + length (num_rev (unat base) (unat x)) \<le> length buf \<Longrightarrow>
   \<exists>buf'. printint_digits buf count x base = ret (buf', count + length (num_rev (unat base) (unat x)))
     \<and> length buf' = length buf
     \<and> take (count + length (num_rev (unat base) (unat x))) buf'
        = take count buf @ map ((!) digits) (num_rev (unat base) (unat x))"
proof (induction "unat base" "unat x" arbitrary: buf count x rule: num_rev.induct)
  case 1
  let ?d = "digits ! (unat x mod unat base)" and ?q = "num_rev (unat base) (unat x div unat base)"
  have b: "base \<noteq> 0" "unat x mod unat base < 17"
    using 1(2,3) mod_less_divisor [of "unat base" "unat x"] by (auto simp del: mod_less_divisor)
  have n: "count < length buf"
    using 1(4) num_rev_nonempty [of "unat base" "unat x"] by (cases "num_rev (unat base) (unat x)") auto
  have z: "x div base = 0 \<longleftrightarrow> unat x < unat base"
    using 1(2) by (simp add: unat_eq_0 [symmetric] unat_div div_eq_0_iff)
  show ?case
  proof (cases "unat x < unat base")
    case True
    then have "num_rev (unat base) (unat x) = [unat x]"
      by (subst num_rev.simps) simp
    with True b n z show ?thesis
      by (subst printint_digits.simps) (simp add: arr_get_def arr_put_def unat_mod put_prefix)
  next
    case False
    then have r: "num_rev (unat base) (unat x) = (unat x mod unat base) # ?q"
      using 1(2) by (subst num_rev.simps) simp
    obtain buf' where "printint_digits (buf[count := ?d]) (count + 1) (x div base) base
        = ret (buf', count + 1 + length ?q)" "length buf' = length buf"
      "take (count + 1 + length ?q) buf' = take (count + 1) (buf[count := ?d]) @ map ((!) digits) ?q"
      using 1(1) [of "x div base" "count + 1" "buf[count := ?d]"] 1(2-4) False
      by (auto simp: unat_div r)
    with False b n z show ?thesis
      by (subst printint_digits.simps) (simp add: arr_get_def arr_put_def unat_mod r put_prefix)
  qed
qed

lemma unat_nonneg: "0 \<le> sint n \<Longrightarrow> unat (n :: u32) = nat (sint n)"
  using uint_u32_bounds [of n] by (cases "uint n < 2147483648") (auto simp: sint_u32)

lemma unat_negate:
  assumes "sint n < 0"
  shows "unat (- n :: u32) = nat (- sint n)"
proof -
  have s: "sint n = uint n - 4294967296"
  proof (cases "uint n < 2147483648")
    case True
    then have "sint n = uint n" by (simp add: sint_u32)
    with assms uint_u32_bounds(1) [of n] show ?thesis by linarith
  qed (simp add: sint_u32)
  have eq: "- n = of_int (4294967296 - uint n)"
    by (simp add: of_int_uint)
  have "uint (of_int (- sint n) :: u32) = - sint n"
    using assms sint_u32_bounds [of n] by (intro uint_u32_of_int) simp_all
  then show ?thesis
    using nat_uint_eq [of "- n"] unfolding eq s by simp
qed

lemmas unat_signed = unat_negate unat_nonneg

text \<open>The characters a conversion prints, and that they fit in 11 bytes.\<close>

definition int_chars :: "nat \<Rightarrow> bool \<Rightarrow> u32 \<Rightarrow> u8 list" where
  "int_chars b signd n = (if signd then signed_chars n else num_chars b (unat n))"

lemma signed_chars_length: "length (signed_chars n) \<le> 11"
proof (cases "sint n < 0")
  case True
  with num_chars_length(1) [of "- n"] show ?thesis
    by (simp add: signed_chars_def unat_signed)
next
  case False
  with num_chars_length(1) [of n] show ?thesis
    by (simp add: signed_chars_def unat_signed)
qed

lemma printint_rev_correct:
  assumes b: "base = 10 \<or> base = 16 \<and> \<not> signd"
    and len: "length (int_chars (unat base) signd n) < length buf"
  shows "\<exists>buf'. printint_rev buf n base signd = ret (buf', length (int_chars (unat base) signd n))
    \<and> length buf' = length buf
    \<and> take (length (int_chars (unat base) signd n)) buf' = rev (int_chars (unat base) signd n)"
proof -
  let ?neg = "signd \<and> sint n < 0"
  let ?x = "if ?neg then - n else n"
  let ?k = "length (num_chars (unat base) (unat ?x))"
  have ic: "int_chars (unat base) signd n
      = (if ?neg then [of_char (CHR ''-'')] else []) @ num_chars (unat base) (unat ?x)"
    using b by (auto simp: int_chars_def signed_chars_def unat_signed)
  obtain buf1 where 1: "printint_digits buf 0 ?x base = ret (buf1, ?k)" "length buf1 = length buf"
    "take ?k buf1 = rev (num_chars (unat base) (unat ?x))"
    using printint_digits_correct [of base 0 ?x buf] b len
    by (auto simp: ic num_chars_def split: if_splits)
  show ?thesis
  proof (cases ?neg)
    case True
    with 1 len show ?thesis
      unfolding ic printint_rev_def by (simp add: arr_put_def put_prefix)
  next
    case False
    with 1 len show ?thesis
      unfolding ic printint_rev_def by (auto simp: arr_put_def put_prefix)
  qed
qed

section \<open>Writing to the destination\<close>

definition room :: "sink \<Rightarrow> nat" where
  "room s = nat (sint (o_size s))"

definition advance :: "sink \<Rightarrow> u8 list \<Rightarrow> sink" where
  "advance s xs = \<lparr>o_mem = upd (o_mem s) (o_dest s) xs, o_dest = o_dest s + of_nat (length xs),
     o_size = o_size s - of_nat (length xs), o_count = o_count s + of_nat (length xs)\<rparr>"

lemma advance_Nil [simp]: "advance s [] = s"
  by (simp add: advance_def)

lemma advance_append: "advance (advance s xs) ys = advance s (xs @ ys)"
  by (simp add: advance_def upd_append algebra_simps)

lemma sint_minus_small:
  assumes "int k \<le> sint (n :: u32)"
  shows "sint (n - of_nat k) = sint n - int k"
proof -
  have "n - of_nat k = of_int (sint n - int k)"
    by simp
  moreover have "sint (of_int (sint n - int k) :: u32) = sint n - int k"
    using assms sint_u32_bounds [of n] by (intro sint_u32_small) simp_all
  ultimately show ?thesis by simp
qed

lemma room_advance: "length xs \<le> room s \<Longrightarrow> room (advance s xs) = room s - length xs"
proof (cases "xs = []")
  case False
  assume "length xs \<le> room s"
  with False have "int (length xs) \<le> sint (o_size s)"
    by (cases "sint (o_size s) \<le> 0") (auto simp: room_def le_nat_iff)
  then show ?thesis
    by (simp add: room_def advance_def sint_minus_small nat_diff_distrib)
qed simp

lemma advance_sel [simp]:
  "o_mem (advance s xs) = upd (o_mem s) (o_dest s) xs"
  "o_dest (advance s xs) = o_dest s + of_nat (length xs)"
  "o_count (advance s xs) = o_count s + of_nat (length xs)"
  by (simp_all add: advance_def)

text \<open>The bytes that may still be written, the terminator included, and that they are mapped.\<close>

definition target :: "sink \<Rightarrow> u32 set" where
  "target s = addrs (o_dest s) (Suc (room s))"

definition sink_ok :: "sink \<Rightarrow> bool" where
  "sink_ok s \<longleftrightarrow> target s \<subseteq> dom (o_mem s)"

definition readable :: "sink \<Rightarrow> u32 \<Rightarrow> u8 list \<Rightarrow> bool" where
  "readable s p xs \<longleftrightarrow> cstr (o_mem s) p xs \<and> target s \<inter> addrs p (Suc (length xs)) = {}"

lemma target_advance: "length xs \<le> room s \<Longrightarrow> target (advance s xs) \<subseteq> target s"
proof -
  assume l: "length xs \<le> room s"
  then have e: "length xs + Suc (room s - length xs) = Suc (room s)" by simp
  have "target (advance s xs) = addrs (o_dest s + of_nat (length xs)) (Suc (room s - length xs))"
    using l by (simp add: target_def room_advance del: addrs_Suc)
  with addrs_split [of "o_dest s" "length xs" "Suc (room s - length xs)", unfolded e]
  show ?thesis by (simp add: target_def del: addrs_Suc)
qed

lemma sink_ok_advance: "sink_ok s \<Longrightarrow> length xs \<le> room s \<Longrightarrow> sink_ok (advance s xs)"
  using target_advance [of xs s] by (auto simp: sink_ok_def dom_upd)

lemma advance_outside: "length xs \<le> room s \<Longrightarrow> a \<notin> target s \<Longrightarrow> o_mem (advance s xs) a = o_mem s a"
  using addrs_mono [of "length xs" "Suc (room s)" "o_dest s"]
  by (auto simp: target_def intro!: upd_outside)

lemma readable_advance: "readable s p ys \<Longrightarrow> length xs \<le> room s \<Longrightarrow> readable (advance s xs) p ys"
  unfolding readable_def
  using target_advance [of xs s] advance_outside [of xs s]
  by (subst cstr_agree [of _ _ _ "o_mem s"]) blast+

lemma readable_Cons: "readable s p (x # xs) \<Longrightarrow> readable s (p + 1) xs"
  by (auto simp: readable_def)

lemma putc_macro_take: "sink_ok s \<Longrightarrow> putc_macro c s = ret (advance s (take (room s) [c]))"
proof (cases "sint (o_size s) > 0")
  case True
  assume "sink_ok s"
  with True show ?thesis
    by (cases "room s") (auto simp: sink_ok_def target_def putc_macro_def advance_def room_def)
qed (simp add: putc_macro_def room_def)

lemma emit_str_take: "sink_ok s \<Longrightarrow> readable s p xs \<Longrightarrow>
    emit_str p s = ret (advance s (take (room s) xs))"
proof (induction xs arbitrary: p s)
  case Nil
  then show ?case by (subst emit_str.simps) (simp add: readable_def)
next
  case (Cons x xs)
  define s' where "s' = advance s (take (room s) [x])"
  have l: "length (take (room s) [x]) \<le> room s" by simp
  have "emit_str (p + 1) s' = ret (advance s' (take (room s') xs))"
    unfolding s'_def
    by (intro Cons.IH sink_ok_advance readable_advance Cons.prems(1)
        readable_Cons [OF Cons.prems(2)] l)
  moreover have "advance s' (take (room s') xs) = advance s (take (room s) (x # xs))"
    unfolding s'_def advance_append by (cases "room s") (simp_all add: room_advance)
  moreover have "load8 (o_mem s) p = ret x" "x \<noteq> 0"
    using Cons.prems(2) by (simp_all add: readable_def)
  ultimately show ?case
    by (subst emit_str.simps) (simp add: putc_macro_take Cons.prems(1) s'_def)
qed

text \<open>With room for the whole number the loop copies it; without, it never ends.\<close>

lemma emit_rev_fits: "sink_ok s \<Longrightarrow> len \<le> room s \<Longrightarrow> len \<le> length buf \<Longrightarrow>
    emit_rev buf len s = ret (advance s (rev (take len buf)))"
proof (induction len arbitrary: s)
  case 0
  then show ?case by (subst emit_rev.simps) simp
next
  case (Suc len)
  let ?s = "advance s [buf ! len]"
  have "emit_rev buf len ?s = ret (advance ?s (rev (take len buf)))"
    using Suc.prems by (intro Suc.IH sink_ok_advance) (simp_all add: room_advance)
  moreover have "0 < sint (o_size s)" "take (room s) [buf ! len] = [buf ! len]"
    using Suc.prems(2) by (auto simp: room_def take_Cons split: nat.splits)
  ultimately show ?case
    using Suc.prems
    by (subst emit_rev.simps)
       (simp add: arr_get_def putc_macro_take advance_append take_Suc_conv_app_nth)
qed

lemma emit_rev_stuck:
  assumes "room s = 0" and "0 < len"
  shows "emit_rev buf len s = None"
proof (rule ccontr)
  assume "emit_rev buf len s \<noteq> None"
  then obtain r where r: "emit_rev buf len s = Some r" by blast
  have "len = 0 \<or> 0 < room s"
  proof (rule emit_rev.raw_induct [where P = "\<lambda>buf len s r. len = 0 \<or> 0 < room s", OF _ r])
    fix f :: "u8 list \<Rightarrow> nat \<Rightarrow> sink \<Rightarrow> sink run" and buf len s r
    assume IH: "\<And>buf len s r. f buf len s = Some r \<Longrightarrow> len = 0 \<or> 0 < room s"
      and eq: "(if len = 0 then ret s else if sint (o_size s) > 0
        then rbind (arr_get buf (len - 1)) (\<lambda>c. rbind (putc_macro c s) (\<lambda>s. f buf (len - 1) s))
        else f buf len s) = Some r"
    show "len = 0 \<or> 0 < room s"
      using eq IH [of buf len s r] by (cases "sint (o_size s) > 0") (auto simp: room_def split: if_splits)
  qed
  with assms show False by simp
qed

lemma emit_rev_overflow: "sink_ok s \<Longrightarrow> room s < len \<Longrightarrow> len \<le> length buf \<Longrightarrow>
    emit_rev buf len s = None"
proof (induction "room s" arbitrary: len s)
  case 0
  then show ?case by (simp add: emit_rev_stuck)
next
  case (Suc k)
  then obtain l where l: "len = Suc l" by (cases len) auto
  let ?s = "advance s [buf ! l]"
  have "emit_rev buf l ?s = None"
    using Suc l by (intro Suc.hyps(1) sink_ok_advance) (simp_all add: room_advance)
  moreover have "0 < sint (o_size s)" "take (room s) [buf ! l] = [buf ! l]"
    using Suc.hyps(2) by (auto simp: room_def take_Cons split: nat.splits)
  ultimately show ?case
    using Suc.prems l
    by (subst emit_rev.simps) (simp add: arr_get_def putc_macro_take)
qed

section \<open>What a format prints\<close>

text \<open>
  A format and its arguments as a list of pieces: characters, strings in memory, numbers. An
  unknown directive prints nothing and takes no argument; a lone \<open>%\<close> at the end stops the scan.
  \<open>None\<close>: the arguments run out.
\<close>

datatype chunk = Text "u8 list" | Str u32 | Num "u8 list"

definition conv :: "u8 \<Rightarrow> u32 list \<Rightarrow> (chunk list \<times> u32 list) option" where
  "conv c args =
     (if c = of_char (CHR ''%'') then Some ([Text [c]], args)
      else if c \<in> set (chars ''csdux'') then
        (case args of [] \<Rightarrow> None
         | a # rest \<Rightarrow> Some ([if c = of_char (CHR ''c'') then Text [ucast a]
             else if c = of_char (CHR ''s'') then Str a
             else Num (int_chars (if c = of_char (CHR ''x'') then 16 else 10) (c = of_char (CHR ''d'')) a)],
           rest))
      else Some ([], args))"

fun chunks :: "u8 list \<Rightarrow> u32 list \<Rightarrow> chunk list option" where
  "chunks [] args = Some []"
| "chunks [c] args = Some (if c = of_char (CHR ''%'') then [] else [Text [c]])"
| "chunks (c # d # f) args =
     (if c = of_char (CHR ''%'')
      then (case conv d args of None \<Rightarrow> None
            | Some (cs, rest) \<Rightarrow> map_option ((@) cs) (chunks f rest))
      else map_option ((#) (Text [c])) (chunks (d # f) args))"

text \<open>
  Laying the pieces out in a buffer of \<open>r\<close> bytes: text is cut off where the room ends, a
  number that does not fit whole makes the call hang (\<open>None\<close>).
\<close>

fun lay :: "(u32 \<Rightarrow> u8 list) \<Rightarrow> nat \<Rightarrow> chunk list \<Rightarrow> (u8 list) option" where
  "lay str r [] = Some []"
| "lay str r (Text xs # cs) = map_option ((@) (take r xs)) (lay str (r - length xs) cs)"
| "lay str r (Str p # cs) = map_option ((@) (take r (str p))) (lay str (r - length (str p)) cs)"
| "lay str r (Num xs # cs) =
     (if length xs \<le> r then map_option ((@) xs) (lay str (r - length xs) cs) else None)"

lemma lay_length: "lay str r cs = Some out \<Longrightarrow> length out \<le> r"
proof (induction str r cs arbitrary: out rule: lay.induct)
  case (2 str r xs cs)
  then show ?case by (fastforce simp: min_def)
next
  case (3 str r p cs)
  then show ?case by (fastforce simp: min_def)
qed (fastforce split: if_splits)+

definition layout :: "(u32 \<Rightarrow> u8 list) \<Rightarrow> sink \<Rightarrow> chunk list \<Rightarrow> sink run" where
  "layout str s cs = (case lay str (room s) cs of None \<Rightarrow> None | Some out \<Rightarrow> ret (advance s out))"

lemma layout_Nil [simp]: "layout str s [] = ret s"
  by (simp add: layout_def)

lemma layout_Text: "layout str s (Text xs # cs) = layout str (advance s (take (room s) xs)) cs"
proof -
  have "room s - length xs = room (advance s (take (room s) xs))"
    by (subst room_advance) auto
  then show ?thesis
    by (simp add: layout_def advance_append split: option.splits)
qed

lemma layout_Str: "layout str s (Str p # cs) = layout str (advance s (take (room s) (str p))) cs"
  using layout_Text [of str s "str p" cs] by (simp add: layout_def)

lemma layout_Num: "layout str s (Num xs # cs)
    = (if length xs \<le> room s then layout str (advance s xs) cs else None)"
  by (auto simp: layout_def advance_append room_advance split: option.splits)

lemma put_int_layout:
  assumes "sink_ok s" and "12 \<le> length buf" and "base = 10 \<or> base = 16 \<and> \<not> signd"
  shows "put_int buf n base signd s = layout str s [Num (int_chars (unat base) signd n)]"
proof -
  let ?xs = "int_chars (unat base) signd n"
  have "length ?xs \<le> 11"
    using assms(3) signed_chars_length [of n] num_chars_length [of n] by (auto simp: int_chars_def)
  then obtain buf' where b: "printint_rev buf n base signd = ret (buf', length ?xs)"
    "length buf' = length buf" "take (length ?xs) buf' = rev ?xs"
    using printint_rev_correct [of base signd n buf] assms by auto
  with \<open>length ?xs \<le> 11\<close> assms show ?thesis
    by (auto simp: put_int_def layout_Num emit_rev_fits emit_rev_overflow)
qed

text \<open>A directive does what its pieces say; an exhausted argument list stops the run.\<close>

lemma directive_layout:
  assumes "sink_ok s" and "12 \<le> length buf" and "conv c args = Some (cs, rest)"
    and "\<forall>p. Str p \<in> set cs \<longrightarrow> readable s p (str p)"
  shows "directive buf c args s = rbind (layout str s cs) (\<lambda>s. ret (rest, s))"
  using assms unfolding conv_def directive_def
  by (auto simp: va_arg_def put_int_layout [where str = str] putc_macro_take emit_str_take layout_Text layout_Str
      split: if_splits list.splits)

lemma layout_append: "layout str s (cs @ ds) = rbind (layout str s cs) (\<lambda>s. layout str s ds)"
proof (induction cs arbitrary: s)
  case (Cons c cs)
  then show ?case by (cases c) (simp_all add: layout_Text layout_Str layout_Num)
qed simp

lemma layout_keeps:
  assumes "layout str s cs = ret s'" and "sink_ok s"
  shows "sink_ok s' \<and> (\<forall>p xs. readable s p xs \<longrightarrow> readable s' p xs)"
  using assms lay_length [of str "room s" cs]
  by (auto simp: layout_def sink_ok_advance readable_advance split: option.splits)

text \<open>The rounds of the loop over the format.\<close>

lemma vsn_loop_end: "readable s fmt [] \<Longrightarrow> vsn_loop buf fmt args s = ret s"
  by (subst vsn_loop.simps) (simp add: readable_def)

lemma vsn_loop_percent: "readable s fmt [of_char (CHR ''%'')] \<Longrightarrow> vsn_loop buf fmt args s = ret s"
  by (subst vsn_loop.simps) (simp add: readable_def)

lemma vsn_loop_char:
  assumes "sink_ok s" and "readable s fmt (c # f)" and "c \<noteq> of_char (CHR ''%'')"
  shows "vsn_loop buf fmt args s = vsn_loop buf (fmt + 1) args (advance s (take (room s) [c]))"
    and "sink_ok (advance s (take (room s) [c]))"
    and "\<And>p xs. readable s p xs \<Longrightarrow> readable (advance s (take (room s) [c])) p xs"
proof -
  show "vsn_loop buf fmt args s = vsn_loop buf (fmt + 1) args (advance s (take (room s) [c]))"
    using assms by (subst vsn_loop.simps) (simp add: readable_def putc_macro_take)
qed (simp_all add: sink_ok_advance readable_advance assms)

lemma vsn_loop_directive:
  assumes "sink_ok s" and "12 \<le> length buf" and "readable s fmt (of_char (CHR ''%'') # d # f)"
    and "conv d args = Some (cs, rest)" and "\<forall>p. Str p \<in> set cs \<longrightarrow> readable s p (str p)"
  shows "vsn_loop buf fmt args s = rbind (layout str s cs) (\<lambda>s. vsn_loop buf (fmt + 2) rest s)"
  using assms directive_layout [of s buf d args cs rest str]
  by (subst vsn_loop.simps) (simp add: readable_def rbind_assoc)

lemma vsn_loop_layout:
  "sink_ok s \<Longrightarrow> 12 \<le> length buf \<Longrightarrow> readable s fmt f \<Longrightarrow> chunks f args = Some cs \<Longrightarrow>
   \<forall>p. Str p \<in> set cs \<longrightarrow> readable s p (str p) \<Longrightarrow>
   vsn_loop buf fmt args s = layout str s cs"
proof (induction f args arbitrary: s fmt cs rule: chunks.induct)
  case (1 args)
  then show ?case by (simp add: vsn_loop_end)
next
  case (2 c args)
  show ?case
  proof (cases "c = of_char (CHR ''%'')")
    case True
    with 2 show ?thesis by (simp add: vsn_loop_percent)
  next
    case False
    note step = vsn_loop_char [OF 2(1,3) False]
    have "vsn_loop buf (fmt + 1) args (advance s (take (room s) [c])) = ret (advance s (take (room s) [c]))"
      by (intro vsn_loop_end step(3) readable_Cons [OF 2(3)])
    with False 2(4) step(1) show ?thesis
      by (auto simp: layout_Text)
  qed
next
  case (3 c d f args)
  show ?case
  proof (cases "c = of_char (CHR ''%'')")
    case True
    with 3 obtain cs1 cs2 rest where c: "conv d args = Some (cs1, rest)" "chunks f rest = Some cs2"
      "cs = cs1 @ cs2"
      by (auto split: option.splits prod.splits)
    have step: "vsn_loop buf (fmt + 2) rest s' = layout str s' cs2" if "layout str s cs1 = ret s'" for s'
    proof (rule 3(1))
      have "readable s (fmt + 2) f"
        using readable_Cons [OF readable_Cons [OF 3(5)]] by (simp add: add.assoc)
      then show "readable s' (fmt + 2) f" "sink_ok s'"
        "\<forall>p. Str p \<in> set cs2 \<longrightarrow> readable s' p (str p)"
        using layout_keeps [OF that] 3(3,7) c by auto
    qed (use True c 3(4) in auto)
    have "vsn_loop buf fmt args s = rbind (layout str s cs1) (\<lambda>s. vsn_loop buf (fmt + 2) rest s)"
      using 3 c True by (intro vsn_loop_directive) auto
    also have "\<dots> = layout str s cs"
      unfolding c layout_append by (cases "layout str s cs1" rule: run_cases) (simp_all add: step)
    finally show ?thesis .
  next
    case False
    let ?s = "advance s (take (room s) [c])"
    from 3(6) False obtain cs' where cs': "chunks (d # f) args = Some cs'" "cs = Text [c] # cs'"
      by auto
    note step = vsn_loop_char [OF 3(3,5) False]
    have "vsn_loop buf (fmt + 1) args ?s = layout str ?s cs'"
      using step(2,3) cs' 3(4,7) readable_Cons [OF 3(5)] by (intro 3(2) [OF False]) auto
    with step(1) cs' show ?thesis by (simp add: layout_Text)
  qed
qed

text \<open>
  The whole call: the target is \<open>size + 1\<close> bytes of mapped memory that the format and the
  strings of its arguments stay clear of.
\<close>

lemma vsnprintf_layout:
  assumes size: "11 \<le> sint sz" "sint sz < 2147483647"
    and dest: "mapped m dest (Suc (unat sz))"
    and fmt: "cstr m fmt f" "addrs dest (Suc (unat sz)) \<inter> addrs fmt (Suc (length f)) = {}"
    and cs: "chunks f args = Some cs"
    and strs: "\<forall>p. Str p \<in> set cs \<longrightarrow>
      cstr m p (str p) \<and> addrs dest (Suc (unat sz)) \<inter> addrs p (Suc (length (str p))) = {}"
  shows "vsnprintf m dest sz fmt args = (case lay str (unat sz) cs of None \<Rightarrow> None
      | Some out \<Rightarrow> ret (of_nat (length out), upd m dest (out @ [0])))"
proof -
  let ?s = "\<lparr>o_mem = m, o_dest = dest, o_size = sz, o_count = 0\<rparr>"
  have r: "room ?s = unat sz"
    using size by (simp add: room_def unat_nonneg)
  have "of_int (sint sz + 1) = sz + 1" by (simp add: of_int_sint)
  then have "sint (sz + 1) = sint sz + 1"
    using sint_u32_small [of "sint sz + 1"] size by simp
  then have b: "\<not> sint (sz + 1) \<le> 0" "12 \<le> unat (sz + 1)"
    using size by (simp_all add: unat_nonneg)
  have ok: "sink_ok ?s"
    using dest by (simp add: sink_ok_def target_def r mapped_def del: addrs_Suc)
  have "vsn_loop (replicate (unat (sz + 1)) 0) fmt args ?s = layout str ?s cs"
    using fmt cs strs b
    by (intro vsn_loop_layout ok) (auto simp: readable_def target_def r simp del: addrs_Suc)
  moreover have "store8 (upd m dest out) (dest + of_nat (length out)) 0 = ret (upd m dest (out @ [0]))"
    if "lay str (unat sz) cs = Some out" for out
  proof -
    have "dest + of_nat (length out) \<in> addrs dest (Suc (unat sz))"
      using lay_length [OF that] by (intro mem_addrs) simp
    with dest have "dest + of_nat (length out) \<in> dom (upd m dest out)"
      by (auto simp: mapped_def dom_upd)
    then show ?thesis by (simp add: upd_append)
  qed
  ultimately show ?thesis
    using b by (simp add: vsnprintf_def layout_def r split: option.splits)
qed


lemma plain_chunks: "of_char (CHR ''%'') \<notin> set f \<Longrightarrow> chunks f args = Some (map (\<lambda>c. Text [c]) f)"
  by (induction f args rule: chunks.induct) auto

lemma chunks_append_plain: "of_char (CHR ''%'') \<notin> set f \<Longrightarrow>
    chunks (f @ g) args = map_option ((@) (map (\<lambda>c. Text [c]) f)) (chunks g args)"
proof (induction f)
  case (Cons c f)
  have "chunks (c # f @ g) args = map_option ((#) (Text [c])) (chunks (f @ g) args)"
    using Cons.prems by (cases "f @ g") auto
  with Cons show ?case by (simp add: option.map_comp comp_def)
qed (cases "chunks g args"; simp)

lemma lay_plain: "lay str r (map (\<lambda>c. Text [c]) f @ cs)
    = map_option ((@) (take r f)) (lay str (r - length f) cs)"
proof (induction f arbitrary: r)
  case (Cons c f)
  then show ?case by (cases r) (simp_all add: option.map_comp comp_def)
next
  case Nil
  then show ?case by (cases "lay str r cs") simp_all
qed

lemma Str_plain: "Str p \<notin> set (map (\<lambda>c. Text [c]) f)"
  by auto


section \<open>Properties\<close>

text \<open>C19: x\<close>

theorem vsnprintf_correct:
  assumes "11 \<le> sint sz" "sint sz < 2147483647" and "mapped m dest (Suc (unat sz))"
    and "cstr m fmt f" "addrs dest (Suc (unat sz)) \<inter> addrs fmt (Suc (length f)) = {}"
    and "chunks f args = Some cs"
    and "\<forall>p. Str p \<in> set cs \<longrightarrow>
      cstr m p (str p) \<and> addrs dest (Suc (unat sz)) \<inter> addrs p (Suc (length (str p))) = {}"
  shows "case lay str (unat sz) cs of
      None \<Rightarrow> vsnprintf m dest sz fmt args = None
    | Some out \<Rightarrow> \<exists>m'. vsnprintf m dest sz fmt args = ret (of_nat (length out), m') \<and>
        length out \<le> unat sz \<and> block m' dest (out @ [0]) \<and>
        (\<forall>a. a \<notin> addrs dest (Suc (length out)) \<longrightarrow> m' a = m a)"
proof (cases "lay str (unat sz) cs")
  case (Some out)
  have len: "length out \<le> unat sz" by (rule lay_length [OF Some])
  then have "block (upd m dest (out @ [0])) dest (out @ [0])"
    using unat_u32_less [of sz] by (intro upd_block) simp
  with len show ?thesis
    using vsnprintf_layout [OF assms] upd_outside [of _ dest "out @ [0]" m] by (simp add: Some del: addrs_Suc)
qed (use vsnprintf_layout [OF assms] in simp)

theorem vsnprintf_correct_witness:
  "\<exists>m'. vsnprintf ((\<lambda>a. Some 0)(256 \<mapsto> 110, 257 \<mapsto> 61, 258 \<mapsto> 37, 259 \<mapsto> 100)) 512 16 256 [- 42]
     = ret (5, m') \<and> block m' 512 (chars ''n=-42'' @ [0])"
proof -
  let ?m = "(\<lambda>a. Some 0)(256 \<mapsto> 110, 257 \<mapsto> 61, 258 \<mapsto> 37, 259 \<mapsto> 100) :: mem"
  have d: "dom ?m = UNIV" by auto
  have l: "lay (\<lambda>p. []) 16 [Text [110], Text [61], Num (int_chars 10 True (- 42))] = Some (chars ''n=-42'')"
    by (simp add: int_chars_def signed_chars_def num_chars_def digits_def chars_def num_rev.simps)
  have "case lay (\<lambda>p. []) (unat (16 :: u32)) [Text [110], Text [61], Num (int_chars 10 True (- 42))] of
      None \<Rightarrow> vsnprintf ?m 512 16 256 [- 42] = None
    | Some out \<Rightarrow> \<exists>m'. vsnprintf ?m 512 16 256 [- 42] = ret (of_nat (length out), m') \<and>
        length out \<le> unat (16 :: u32) \<and> block m' 512 (out @ [0]) \<and>
        (\<forall>a. a \<notin> addrs 512 (Suc (length out)) \<longrightarrow> m' a = ?m a)"
    by (rule vsnprintf_correct [where f = "chars ''n=%d''"])
       (simp_all add: d chars_def conv_def addrs_disjoint Int_commute del: addrs_Suc)
  then show ?thesis using l by (auto simp: chars_def)
qed


text \<open>C33: A text as long as the limit or longer is cut after \<open>size\<close> characters and the terminator
  is written behind them: \<open>size + 1\<close> bytes in all.\<close>

theorem vsnprintf_one_beyond:
  assumes "11 \<le> sint sz" "sint sz < 2147483647" and "mapped m dest (Suc (unat sz))"
    and "cstr m fmt f" "addrs dest (Suc (unat sz)) \<inter> addrs fmt (Suc (length f)) = {}"
    and "of_char (CHR ''%'') \<notin> set f" and "unat sz \<le> length f"
  shows "\<exists>m'. vsnprintf m dest sz fmt args = ret (sz, m') \<and>
    block m' dest (take (unat sz) f) \<and> m' (dest + sz) = Some 0"
proof -
  have "lay (\<lambda>p. []) (unat sz) (map (\<lambda>c. Text [c]) f) = Some (take (unat sz) f)"
    using lay_plain [of "\<lambda>p. []" "unat sz" f "[]"] by simp
  then have "vsnprintf m dest sz fmt args = ret (sz, upd m dest (take (unat sz) f @ [0]))"
    using vsnprintf_layout [OF assms(1-5) plain_chunks [OF assms(6)], of "\<lambda>p. []"] assms(7)
    by (auto simp del: addrs_Suc)
  moreover have "block (upd m dest (take (unat sz) f @ [0])) dest (take (unat sz) f @ [0])"
    using unat_u32_less [of sz] by (intro upd_block) simp
  ultimately show ?thesis using assms(7) by (simp add: block_append)
qed

theorem vsnprintf_one_beyond_witness:
  "\<exists>m'. vsnprintf (upd (\<lambda>a. Some 1) 256 (replicate 12 97 @ [0])) 512 11 256 []
     = ret (11, m') \<and> m' (512 + 11) = Some 0"
proof -
  let ?m = "upd (\<lambda>a. Some 1) 256 (replicate 12 97 @ [0]) :: mem"
  have "dom ?m = UNIV" by (simp add: dom_upd)
  moreover have "cstr ?m 256 (replicate 12 97)" by (rule upd_cstr) simp_all
  ultimately have "\<exists>m'. vsnprintf ?m 512 11 256 [] = ret (11, m') \<and>
      block m' 512 (take (unat (11 :: u32)) (replicate 12 97)) \<and> m' (512 + 11) = Some 0"
    by (intro vsnprintf_one_beyond [where f = "replicate 12 97"])
       (simp_all add: addrs_disjoint Int_commute del: addrs_Suc)
  then show ?thesis by blast
qed



text \<open>C32: Printing an unsigned number and reading it back with \<open>atoi\<close> gives the number, whatever it is.\<close>

theorem atoi_vsnprintf:
  assumes "11 \<le> sint sz" "sint sz < 2147483647" and "mapped m dest (Suc (unat sz))"
    and "cstr m fmt (chars ''%u'')" "addrs dest (Suc (unat sz)) \<inter> addrs fmt 3 = {}"
  shows "rbind (vsnprintf m dest sz fmt [n]) (\<lambda>(_, m). atoi m dest) = ret n"
proof -
  let ?d = "num_chars 10 (unat n)"
  have c: "chunks (chars ''%u'') [n] = Some [Num ?d]"
    by (simp add: chars_def conv_def int_chars_def)
  have "11 \<le> unat sz" using assms(1) by (simp add: unat_nonneg)
  then have l: "lay (\<lambda>p. []) (unat sz) [Num ?d] = Some ?d"
    using num_chars_length [of n] by simp
  have dis: "addrs dest (Suc (unat sz)) \<inter> addrs fmt (Suc (length (chars ''%u''))) = {}"
    using assms(5) by (simp add: chars_def eval_nat_numeral del: addrs_Suc)
  have p: "vsnprintf m dest sz fmt [n] = ret (of_nat (length ?d), upd m dest (?d @ [0]))"
    by (subst vsnprintf_layout [OF assms(1-4) dis c, of "\<lambda>p. []"]) (simp_all only: l option.case, simp)
  have "block (upd m dest (?d @ [0])) dest (?d @ [0])"
    using num_chars_length [of n] by (intro upd_block) simp
  then have "atoi (upd m dest (?d @ [0])) dest = ret (of_nat (dec_value 0 ?d))"
    by (rule atoi_digits) (auto simp: is_digit_iff dest: num_chars_digits)
  then show ?thesis by (simp add: p dec_value_num_chars)
qed

theorem atoi_vsnprintf_witness:
  "rbind (vsnprintf (upd (\<lambda>a. Some 1) 256 (chars ''%u'' @ [0])) 512 16 256 [4000000000]) (\<lambda>(_, m). atoi m 512)
     = ret 4000000000"
proof -
  let ?m = "upd (\<lambda>a. Some 1) 256 (chars ''%u'' @ [0]) :: mem"
  have "dom ?m = UNIV" by (simp add: dom_upd)
  moreover have "cstr ?m 256 (chars ''%u'')" by (rule upd_cstr) (simp_all add: chars_def)
  ultimately show ?thesis
    by (intro atoi_vsnprintf) (simp_all add: addrs_disjoint Int_commute del: addrs_Suc)
qed

end
