(* ===== verification/Codec.thy ===== *)
theory Codec
  imports Prelude
begin

text \<open>
  The interface of the packed structures the processor reads: a C struct with bit-fields
  (a record) and the machine word that lays it out. A bit-field of \<open>n\<close> bits is an \<open>n word\<close>;
  assigning to it is \<open>ucast\<close>. The providers are the descriptors of \<^verbatim>\<open>gdt.c\<close> and
  \<^verbatim>\<open>idt.c\<close> and the page table entries of \<^verbatim>\<open>paging.h\<close>.
\<close>

text \<open>Reassembling a word from adjacent fields, the lowest first.\<close>

unbundle bit_operations_syntax

lemma field_ucast: "LENGTH('b) \<le> LENGTH('a) \<Longrightarrow>
    (ucast (ucast (w :: 'a :: len word) :: 'b :: len word) :: 'a word) = take_bit LENGTH('b) w"
  by (rule bit_word_eqI) (auto simp: bit_simps)

lemma field_join: "take_bit k w OR push_bit k (take_bit n (drop_bit k w)) = take_bit (k + n) (w :: 'a :: len word)"
  by (rule bit_word_eqI) (auto simp: bit_simps)

lemma field_join_assoc:
  "take_bit k w OR (push_bit k (take_bit n (drop_bit k w)) OR x) = take_bit (k + n) (w :: 'a :: len word) OR x"
  by (simp add: field_join flip: or.assoc)

lemma mod_2_field: "w mod 2 = take_bit 1 (w :: 'a :: len word)"
  by (simp add: take_bit_Suc)

lemma field_join_bit:
  "take_bit k w OR (push_bit k (drop_bit k w mod 2) OR x) = take_bit (k + 1) (w :: 'a :: len word) OR x"
  unfolding mod_2_field by (rule field_join_assoc)

lemma take_bit_whole: "LENGTH('a) \<le> n \<Longrightarrow> take_bit n (w :: 'a :: len word) = w"
  by (rule bit_word_eqI) (auto simp: bit_simps)

lemmas field_simps_join = field_ucast field_join field_join_assoc field_join_bit take_bit_whole

locale codec =
  fixes enc :: "'r \<Rightarrow> 'w" and dec :: "'w \<Rightarrow> 'r"
  assumes dec_enc: "dec (enc r) = r"
    and enc_dec: "enc (dec w) = w"
begin

lemma enc_inject: "enc r = enc r' \<longleftrightarrow> r = r'"
  by (metis dec_enc)

lemma dec_inject: "dec w = dec w' \<longleftrightarrow> w = w'"
  by (metis enc_dec)

lemma enc_iff: "enc r = w \<longleftrightarrow> r = dec w"
  by (auto simp: dec_enc enc_dec)

lemma enc_bij: "bij enc"
  by (rule o_bij [of dec]) (auto simp: fun_eq_iff dec_enc enc_dec)

text \<open>A table of entries is laid out entry by entry, and read back by index.\<close>

lemma table_nth: "i < length rs \<Longrightarrow> dec (map enc rs ! i) = rs ! i"
  by (simp add: dec_enc)

lemma table_update: "map enc (rs[i := r]) = (map enc rs)[i := enc r]"
  by (simp add: map_update)

lemma table_dec: "map dec (map enc rs) = rs"
  by (induction rs) (simp_all add: dec_enc)

lemma table_enc: "map enc (map dec ws) = ws"
  by (induction ws) (simp_all add: enc_dec)

end

text \<open>Entries that live in memory, as 32-bit words: page directory and page table entries.\<close>

locale mem_codec = codec enc dec for enc :: "'r \<Rightarrow> u32" and dec :: "u32 \<Rightarrow> 'r"
begin

lemma read_entry: "block m a (split32 (enc r)) \<Longrightarrow> rbind (load32 m a) (\<lambda>w. ret (dec w)) = ret r"
  by (simp add: load32_split dec_enc)

lemma entry_mapped: "mapped m a 4 \<Longrightarrow> \<exists>r. load32 m a = ret (enc r)"
  using load32_mapped [of m a] by (metis enc_dec)

lemma write_read_entry:
  "mapped m a 4 \<Longrightarrow> rbind (store32 m a (enc r)) (\<lambda>m. rbind (load32 m a) (\<lambda>w. ret (dec w))) = ret r"
  by (simp add: store32_upd read_entry upd_block)

lemma write_other_entry:
  "mapped m a 4 \<Longrightarrow> addrs a 4 \<inter> addrs b 4 = {} \<Longrightarrow>
   rbind (store32 m a (enc r)) (\<lambda>m. load32 m b) = load32 m b"
  by (simp add: store32_upd load32_upd_other Int_commute)

end

end
