(* ===== verification/Gdt.thy ===== *)
theory Gdt
  imports Codec
begin

text \<open>
  The global descriptor table of \<^verbatim>\<open>kernel/mem/gdt.c\<close>: segment and TSS descriptors with
  the layout of \<open>gdt_entry_t\<close>, and the table the kernel loads at boot.
\<close>

unbundle bit_operations_syntax

section \<open>Constants of \<^verbatim>\<open>descriptors.h\<close> and \<^verbatim>\<open>gdt.h\<close>\<close>

definition DPL_USER :: u8 where "DPL_USER = 0x3"
definition DPL_KERNEL :: u8 where "DPL_KERNEL = 0x0"
definition TYPE_DATA_RW :: u8 where "TYPE_DATA_RW = 3"
definition TYPE_CODE_EXECONLY :: u8 where "TYPE_CODE_EXECONLY = 9"
definition TYPE_TSS :: u8 where "TYPE_TSS = 9"
definition TYPE_TRAP_GATE :: u8 where "TYPE_TRAP_GATE = 15"
definition TYPE_INTERRUPT_GATE :: u8 where "TYPE_INTERRUPT_GATE = 14"
definition S_CODE_OR_DATA :: u8 where "S_CODE_OR_DATA = 1"
definition S_SYSTEM :: u8 where "S_SYSTEM = 0"
definition DB_SEG :: u8 where "DB_SEG = 1"
definition DB_SYS :: u8 where "DB_SYS = 0"

definition KERNEL_TSS_INDEX :: nat where "KERNEL_TSS_INDEX = 5"
definition MAX_TASK_COUNT :: nat where "MAX_TASK_COUNT = 8"
definition GDT_KERNEL_CODE_SELECTOR :: u16 where "GDT_KERNEL_CODE_SELECTOR = 8 OR ucast DPL_KERNEL"
definition GDT_KERNEL_DATA_SELECTOR :: u16 where "GDT_KERNEL_DATA_SELECTOR = 16 OR ucast DPL_KERNEL"
definition GDT_USER_CODE_SELECTOR :: u16 where "GDT_USER_CODE_SELECTOR = 24 OR ucast DPL_USER"
definition GDT_USER_DATA_SELECTOR :: u16 where "GDT_USER_DATA_SELECTOR = 32 OR ucast DPL_USER"

lemmas descriptor_consts = DPL_USER_def DPL_KERNEL_def TYPE_DATA_RW_def TYPE_CODE_EXECONLY_def
  TYPE_TSS_def TYPE_TRAP_GATE_def TYPE_INTERRUPT_GATE_def S_CODE_OR_DATA_def S_SYSTEM_def
  DB_SEG_def DB_SYS_def KERNEL_TSS_INDEX_def MAX_TASK_COUNT_def GDT_KERNEL_CODE_SELECTOR_def
  GDT_KERNEL_DATA_SELECTOR_def GDT_USER_CODE_SELECTOR_def GDT_USER_DATA_SELECTOR_def

section \<open>Descriptors\<close>

record gdt_entry =
  lim15_0 :: u16
  base15_0 :: u16
  base23_16 :: u8
  g_type :: "4 word"
  g_s :: "1 word"
  g_dpl :: "2 word"
  g_present :: "1 word"
  lim19_16 :: "4 word"
  avl :: "1 word"
  g_l :: "1 word"
  g_db :: "1 word"
  granularity :: "1 word"
  base31_24 :: u8

text \<open>The layout of the packed struct: bit-fields are allocated from the low bit up.\<close>

definition gdt_pack :: "gdt_entry \<Rightarrow> 64 word" where
  "gdt_pack e = ucast (lim15_0 e) OR push_bit 16 (ucast (base15_0 e)) OR push_bit 32 (ucast (base23_16 e))
     OR push_bit 40 (ucast (g_type e)) OR push_bit 44 (ucast (g_s e)) OR push_bit 45 (ucast (g_dpl e))
     OR push_bit 47 (ucast (g_present e)) OR push_bit 48 (ucast (lim19_16 e)) OR push_bit 52 (ucast (avl e))
     OR push_bit 53 (ucast (g_l e)) OR push_bit 54 (ucast (g_db e)) OR push_bit 55 (ucast (granularity e))
     OR push_bit 56 (ucast (base31_24 e))"

definition gdt_unpack :: "64 word \<Rightarrow> gdt_entry" where
  "gdt_unpack w = \<lparr>lim15_0 = ucast w, base15_0 = ucast (drop_bit 16 w), base23_16 = ucast (drop_bit 32 w),
     g_type = ucast (drop_bit 40 w), g_s = ucast (drop_bit 44 w), g_dpl = ucast (drop_bit 45 w),
     g_present = ucast (drop_bit 47 w), lim19_16 = ucast (drop_bit 48 w), avl = ucast (drop_bit 52 w),
     g_l = ucast (drop_bit 53 w), g_db = ucast (drop_bit 54 w), granularity = ucast (drop_bit 55 w),
     base31_24 = ucast (drop_bit 56 w)\<rparr>"

text \<open>\<open>build_entry\<close>: every field of the struct is assigned, in the source's order.\<close>

definition build_entry :: "u32 \<Rightarrow> u32 \<Rightarrow> u8 \<Rightarrow> u8 \<Rightarrow> u8 \<Rightarrow> u8 \<Rightarrow> u8 \<Rightarrow> gdt_entry" where
  "build_entry base limit type s db gran dpl =
     \<lparr>lim15_0 = ucast (limit AND 0xffff), base15_0 = ucast (base AND 0xffff),
      base23_16 = ucast (drop_bit 16 base AND 0xff), g_type = ucast type, g_s = ucast s,
      g_dpl = ucast dpl, g_present = 1, lim19_16 = ucast (drop_bit 16 limit AND 0xf), avl = 0,
      g_l = 0, g_db = ucast db, granularity = ucast gran,
      base31_24 = ucast (drop_bit 24 base AND 0xff)\<rparr>"

definition gdt_make_null_segment :: gdt_entry where
  "gdt_make_null_segment = gdt_unpack 0"

definition gdt_make_code_segment :: "u32 \<Rightarrow> u32 \<Rightarrow> u8 \<Rightarrow> gdt_entry" where
  "gdt_make_code_segment base limit dpl = build_entry base limit TYPE_CODE_EXECONLY S_CODE_OR_DATA DB_SEG 1 dpl"

definition gdt_make_data_segment :: "u32 \<Rightarrow> u32 \<Rightarrow> u8 \<Rightarrow> gdt_entry" where
  "gdt_make_data_segment base limit dpl = build_entry base limit TYPE_DATA_RW S_CODE_OR_DATA DB_SEG 1 dpl"

text \<open>\<open>sizeof(tss_t)\<close>: 26 double words and the 8 KB port bitmap.\<close>

definition sizeof_tss :: u32 where
  "sizeof_tss = 26 * 4 + 8192"

definition gdt_make_tss :: "u32 \<Rightarrow> u8 \<Rightarrow> gdt_entry" where
  "gdt_make_tss tss dpl = build_entry tss (sizeof_tss - 1) TYPE_TSS S_SYSTEM DB_SYS 0 dpl"

text \<open>\<open>gdt_entry_to_selector\<close>: \<open>(entry - gdt) << 3\<close>, for the entry at an index of the table.\<close>

definition gdt_entry_to_selector :: "nat \<Rightarrow> u32" where
  "gdt_entry_to_selector idx = push_bit 3 (of_nat idx)"

text \<open>The table: static storage, so it starts zeroed. \<open>gdt_init\<close> fills the first five entries.\<close>

definition gdt_len :: nat where
  "gdt_len = KERNEL_TSS_INDEX + 1 + MAX_TASK_COUNT"

definition gdt_static :: "gdt_entry list" where
  "gdt_static = replicate gdt_len (gdt_unpack 0)"

record table_ptr =
  tp_limit :: u16
  tp_base :: u32

definition gdt_init :: "u32 \<Rightarrow> gdt_entry list \<Rightarrow> table_ptr \<times> gdt_entry list" where
  "gdt_init gdt_addr gdt =
     (\<lparr>tp_limit = ucast (of_nat (8 * gdt_len) - 1 :: u32), tp_base = gdt_addr\<rparr>,
      gdt[0 := gdt_make_null_segment,
          1 := gdt_make_code_segment 0x0 0xFFFFF DPL_KERNEL,
          2 := gdt_make_data_segment 0x0 0xFFFFF DPL_KERNEL,
          3 := gdt_make_code_segment 0x0 0xFFFFF DPL_USER,
          4 := gdt_make_data_segment 0x0 0xFFFFF DPL_USER])"

section \<open>The layout is a bijection\<close>

lemma bit_narrow [simp]:
  "4 \<le> k \<Longrightarrow> \<not> bit (a :: 4 word) k" "1 \<le> k \<Longrightarrow> \<not> bit (b :: 1 word) k"
  "2 \<le> k \<Longrightarrow> \<not> bit (c :: 2 word) k" "16 \<le> k \<Longrightarrow> \<not> bit (d :: u16) k"
  using bit_imp_le_length [of a k] bit_imp_le_length [of b k] bit_imp_le_length [of c k]
    bit_imp_le_length [of d k] by auto

lemma gdt_unpack_pack: "gdt_unpack (gdt_pack e) = e"
  unfolding gdt_unpack_def gdt_pack_def
  by (intro gdt_entry.equality) (auto intro!: bit_word_eqI simp: bit_simps)

lemma gdt_pack_unpack: "gdt_pack (gdt_unpack w) = w"
  by (simp add: gdt_pack_def gdt_unpack_def field_simps_join)

interpretation gdt_codec: codec gdt_pack gdt_unpack
  by unfold_locales (rule gdt_unpack_pack, rule gdt_pack_unpack)

section \<open>What the processor reads from a descriptor\<close>

text \<open>
  The segment base, the limit in bytes (the 20-bit limit counts 4 KB units when the
  granularity bit is set) and the privilege level, as the IA-32 manual defines them.
\<close>

definition desc_base :: "gdt_entry \<Rightarrow> u32" where
  "desc_base e = ucast (base15_0 e) OR push_bit 16 (ucast (base23_16 e)) OR push_bit 24 (ucast (base31_24 e))"

definition desc_limit20 :: "gdt_entry \<Rightarrow> u32" where
  "desc_limit20 e = ucast (lim15_0 e) OR push_bit 16 (ucast (lim19_16 e))"

definition desc_limit :: "gdt_entry \<Rightarrow> u32" where
  "desc_limit e = (if granularity e = 1 then push_bit 12 (desc_limit20 e) OR 0xfff else desc_limit20 e)"

lemma masks:
  "(x :: u32) AND 0xffff = take_bit 16 x" "(x :: u32) AND 0xff = take_bit 8 x"
  "(x :: u32) AND 0xf = take_bit 4 x" "(x :: u32) AND 0xfffff = take_bit 20 x"
  by (simp_all add: take_bit_eq_mask mask_eq_exp_minus_1)

lemma build_entry_base: "desc_base (build_entry base limit type s db gran dpl) = base"
proof (rule bit_word_eqI)
  fix n :: nat
  assume "n < LENGTH(32)"
  then consider "n < 16" | "16 \<le> n \<and> n < 24" | "24 \<le> n \<and> n < 32" by force
  then show "bit (desc_base (build_entry base limit type s db gran dpl)) n = bit base n"
    by cases (auto simp: desc_base_def build_entry_def bit_simps masks)
qed

lemma build_entry_limit20: "desc_limit20 (build_entry base limit type s db gran dpl) = take_bit 20 limit"
proof (rule bit_word_eqI)
  fix n :: nat
  consider "n < 16" | "16 \<le> n \<and> n < 20" | "20 \<le> n" by force
  then show "bit (desc_limit20 (build_entry base limit type s db gran dpl)) n = bit (take_bit 20 limit) n"
    by cases (auto simp: desc_limit20_def build_entry_def bit_simps masks)
qed

lemma build_entry_fields [simp]:
  "g_present (build_entry base limit type s db gran dpl) = 1"
  "g_dpl (build_entry base limit type s db gran dpl) = ucast dpl"
  "g_s (build_entry base limit type s db gran dpl) = ucast s"
  "g_type (build_entry base limit type s db gran dpl) = ucast type"
  "granularity (build_entry base limit type s db gran dpl) = ucast gran"
  by (simp_all add: build_entry_def)

lemma desc_limit_pages: "granularity e = 1 \<Longrightarrow> desc_limit20 e = 0xfffff \<Longrightarrow> desc_limit e = 0xffffffff"
  by (simp add: desc_limit_def)

text \<open>The TSS descriptor spans exactly the structure.\<close>

lemma gdt_make_tss_desc:
  "desc_base (gdt_make_tss tss dpl) = tss" "desc_limit (gdt_make_tss tss dpl) = sizeof_tss - 1"
  "g_dpl (gdt_make_tss tss dpl) = ucast dpl" "g_s (gdt_make_tss tss dpl) = 0"
  "g_type (gdt_make_tss tss dpl) = 9" "g_present (gdt_make_tss tss dpl) = 1"
  by (simp_all add: gdt_make_tss_def build_entry_base desc_limit_def build_entry_limit20 sizeof_tss_def
      descriptor_consts take_bit_eq_mask mask_eq_exp_minus_1)

section \<open>The table after boot\<close>

lemma length_gdt_init [simp]: "length (snd (gdt_init a gdt)) = length gdt"
  by (simp add: gdt_init_def)

lemma gdt_init_nth:
  assumes "length gdt = gdt_len"
  shows "snd (gdt_init a gdt) ! 0 = gdt_make_null_segment"
    "snd (gdt_init a gdt) ! 1 = gdt_make_code_segment 0 0xFFFFF DPL_KERNEL"
    "snd (gdt_init a gdt) ! 2 = gdt_make_data_segment 0 0xFFFFF DPL_KERNEL"
    "snd (gdt_init a gdt) ! 3 = gdt_make_code_segment 0 0xFFFFF DPL_USER"
    "snd (gdt_init a gdt) ! 4 = gdt_make_data_segment 0 0xFFFFF DPL_USER"
    "5 \<le> i \<Longrightarrow> snd (gdt_init a gdt) ! i = gdt ! i"
  using assms by (simp_all add: gdt_init_def gdt_len_def descriptor_consts)

lemma flat_segment:
  "desc_base (gdt_make_code_segment 0 0xFFFFF dpl) = 0"
  "desc_limit (gdt_make_code_segment 0 0xFFFFF dpl) = 0xffffffff"
  "desc_base (gdt_make_data_segment 0 0xFFFFF dpl) = 0"
  "desc_limit (gdt_make_data_segment 0 0xFFFFF dpl) = 0xffffffff"
  by (auto intro!: desc_limit_pages simp: gdt_make_code_segment_def gdt_make_data_segment_def
      build_entry_base build_entry_limit20 take_bit_eq_mask mask_eq_exp_minus_1)

section \<open>Selectors\<close>

text \<open>How the processor splits a selector: index, and requested privilege level.\<close>

definition sel_index :: "u16 \<Rightarrow> nat" where
  "sel_index sel = unat (drop_bit 3 sel)"

definition sel_rpl :: "u16 \<Rightarrow> u16" where
  "sel_rpl sel = take_bit 2 sel"

lemma selector_nat: "idx < 8192 \<Longrightarrow> unat (gdt_entry_to_selector idx) = 8 * idx"
  by (simp add: gdt_entry_to_selector_def push_bit_eq_mult unat_mult_lem [THEN iffD1] unat_of_nat
      unat_word_ariths)

lemma selector_index: "idx < 8192 \<Longrightarrow> sel_index (ucast (gdt_entry_to_selector idx)) = idx"
proof -
  assume i: "idx < 8192"
  then have "unat (ucast (gdt_entry_to_selector idx) :: u16) = 8 * idx"
    using selector_nat [OF i] by (simp add: unsigned_ucast_eq take_bit_eq_mod)
  then show ?thesis
    by (simp only: sel_index_def unat_drop_bit_eq) (simp add: drop_bit_eq_div)
qed

lemma selector_inject: "i < 8192 \<Longrightarrow> j < 8192 \<Longrightarrow>
    gdt_entry_to_selector i = gdt_entry_to_selector j \<longleftrightarrow> i = j"
proof
  assume "i < 8192" "j < 8192" "gdt_entry_to_selector i = gdt_entry_to_selector j"
  then have "8 * i = 8 * j" using selector_nat by metis
  then show "i = j" by simp
qed simp

end
