(* ===== verification/Paging.thy ===== *)
theory Paging
  imports Codec
begin

text \<open>
  The page structures and address arithmetic of \<^verbatim>\<open>kernel/mem/paging.h\<close> and
  \<^verbatim>\<open>kernel/mem/frame.h\<close>. The functions these headers declare are in object files only;
  the components that call them take them as parameters.
\<close>

unbundle bit_operations_syntax

section \<open>Address arithmetic\<close>

definition PAGE_SIZE :: u32 where "PAGE_SIZE = 4096"
definition FRAME_SIZE :: u32 where "FRAME_SIZE = 4096"
definition PAGES_IN_PT :: nat where "PAGES_IN_PT = 1024"
definition PAGETABLES_IN_PD :: nat where "PAGETABLES_IN_PD = 1024"

definition ADDR_TO_PDE :: "u32 \<Rightarrow> u32" where "ADDR_TO_PDE addr = drop_bit 22 addr"
definition ADDR_TO_PAGE_NB :: "u32 \<Rightarrow> u32" where "ADDR_TO_PAGE_NB addr = addr div PAGE_SIZE"
definition PAGE_NB_TO_ADDR :: "u32 \<Rightarrow> u32" where "PAGE_NB_TO_ADDR n = n * PAGE_SIZE"
definition PAGE_COUNT :: "u32 \<Rightarrow> u32" where "PAGE_COUNT bytes = (bytes + PAGE_SIZE - 1) div PAGE_SIZE"
definition ADDR_TO_FRAME_NB :: "u32 \<Rightarrow> u32" where "ADDR_TO_FRAME_NB addr = addr div PAGE_SIZE"
definition FRAME_NB_TO_ADDR :: "u32 \<Rightarrow> u32" where "FRAME_NB_TO_ADDR n = n * PAGE_SIZE"
definition FRAME_COUNT :: "u32 \<Rightarrow> u32" where "FRAME_COUNT bytes = (bytes + FRAME_SIZE - 1) div FRAME_SIZE"

lemmas page_consts = PAGE_SIZE_def FRAME_SIZE_def PAGES_IN_PT_def PAGETABLES_IN_PD_def

datatype privilege = PRIVILEGE_KERNEL | PRIVILEGE_USER
datatype access = ACCESS_READONLY | ACCESS_READWRITE

text \<open>Privileges are numbered by the enum; a user mapping is open to both levels.\<close>

instantiation privilege :: linorder
begin

definition less_eq_privilege :: "privilege \<Rightarrow> privilege \<Rightarrow> bool" where
  "p \<le> q \<longleftrightarrow> p = PRIVILEGE_KERNEL \<or> q = PRIVILEGE_USER"

definition less_privilege :: "privilege \<Rightarrow> privilege \<Rightarrow> bool" where
  "p < q \<longleftrightarrow> p = PRIVILEGE_KERNEL \<and> q = PRIVILEGE_USER"

instance
proof
  fix x y z :: privilege
  show "x < y \<longleftrightarrow> x \<le> y \<and> \<not> y \<le> x"
    by (cases x; cases y; cases z; simp add: less_eq_privilege_def less_privilege_def)
  show "x \<le> x"
    by (cases x; cases y; cases z; simp add: less_eq_privilege_def less_privilege_def)
  show "x \<le> y \<or> y \<le> x"
    by (cases x; cases y; cases z; simp add: less_eq_privilege_def less_privilege_def)
  show "x \<le> z" if "x \<le> y" "y \<le> z"
    using that by (cases x; cases y; cases z; simp add: less_eq_privilege_def less_privilege_def)
  show "x = y" if "x \<le> y" "y \<le> x"
    using that by (cases x; cases y; cases z; simp add: less_eq_privilege_def less_privilege_def)
qed

end

section \<open>Page directory and page table entries\<close>

record pde =
  pd_present :: "1 word"
  pd_rw :: "1 word"
  pd_user :: "1 word"
  pd_write_through :: "1 word"
  pd_cache_disable :: "1 word"
  pd_accessed :: "1 word"
  pd_reserved :: "1 word"
  pd_page_sz :: "1 word"
  pd_gp :: "1 word"
  pd_available :: "3 word"
  pagetable_frame_number :: "20 word"

record pte =
  present :: "1 word"
  rw :: "1 word"
  user :: "1 word"
  write_through :: "1 word"
  cache_disable :: "1 word"
  accessed :: "1 word"
  dirty :: "1 word"
  pat :: "1 word"
  gp :: "1 word"
  available :: "3 word"
  frame_number :: "20 word"

definition pde_pack :: "pde \<Rightarrow> u32" where
  "pde_pack e = ucast (pd_present e) OR push_bit 1 (ucast (pd_rw e)) OR push_bit 2 (ucast (pd_user e))
     OR push_bit 3 (ucast (pd_write_through e)) OR push_bit 4 (ucast (pd_cache_disable e))
     OR push_bit 5 (ucast (pd_accessed e)) OR push_bit 6 (ucast (pd_reserved e))
     OR push_bit 7 (ucast (pd_page_sz e)) OR push_bit 8 (ucast (pd_gp e))
     OR push_bit 9 (ucast (pd_available e)) OR push_bit 12 (ucast (pagetable_frame_number e))"

definition pde_unpack :: "u32 \<Rightarrow> pde" where
  "pde_unpack w = \<lparr>pd_present = ucast w, pd_rw = ucast (drop_bit 1 w), pd_user = ucast (drop_bit 2 w),
     pd_write_through = ucast (drop_bit 3 w), pd_cache_disable = ucast (drop_bit 4 w),
     pd_accessed = ucast (drop_bit 5 w), pd_reserved = ucast (drop_bit 6 w),
     pd_page_sz = ucast (drop_bit 7 w), pd_gp = ucast (drop_bit 8 w),
     pd_available = ucast (drop_bit 9 w), pagetable_frame_number = ucast (drop_bit 12 w)\<rparr>"

definition pte_pack :: "pte \<Rightarrow> u32" where
  "pte_pack e = ucast (present e) OR push_bit 1 (ucast (rw e)) OR push_bit 2 (ucast (user e))
     OR push_bit 3 (ucast (write_through e)) OR push_bit 4 (ucast (cache_disable e))
     OR push_bit 5 (ucast (accessed e)) OR push_bit 6 (ucast (dirty e)) OR push_bit 7 (ucast (pat e))
     OR push_bit 8 (ucast (gp e)) OR push_bit 9 (ucast (available e)) OR push_bit 12 (ucast (frame_number e))"

definition pte_unpack :: "u32 \<Rightarrow> pte" where
  "pte_unpack w = \<lparr>present = ucast w, rw = ucast (drop_bit 1 w), user = ucast (drop_bit 2 w),
     write_through = ucast (drop_bit 3 w), cache_disable = ucast (drop_bit 4 w),
     accessed = ucast (drop_bit 5 w), dirty = ucast (drop_bit 6 w), pat = ucast (drop_bit 7 w),
     gp = ucast (drop_bit 8 w), available = ucast (drop_bit 9 w), frame_number = ucast (drop_bit 12 w)\<rparr>"

lemma bit_narrow_page [simp]:
  "1 \<le> k \<Longrightarrow> \<not> bit (a :: 1 word) k" "3 \<le> k \<Longrightarrow> \<not> bit (b :: 3 word) k"
  "20 \<le> k \<Longrightarrow> \<not> bit (c :: 20 word) k"
  using bit_imp_le_length [of a k] bit_imp_le_length [of b k] bit_imp_le_length [of c k] by auto

lemma bit_times_2: "bit (a * 2 :: 'a :: len word) n \<longleftrightarrow> n < LENGTH('a) \<and> 0 < n \<and> bit a (n - 1)"
  by (subst mult.commute) (simp add: bit_double_iff)

lemma pde_unpack_pack: "pde_unpack (pde_pack e) = e"
  unfolding pde_unpack_def pde_pack_def
  by (intro pde.equality) (auto intro!: bit_word_eqI simp: bit_simps bit_times_2)

lemma pte_unpack_pack: "pte_unpack (pte_pack e) = e"
  unfolding pte_unpack_def pte_pack_def
  by (intro pte.equality) (auto intro!: bit_word_eqI simp: bit_simps bit_times_2)

lemma low_bits_field:
  "(w :: 'a :: len word) mod 2 OR (drop_bit (Suc 0) w mod 2 * 2 OR x) = take_bit 2 w OR x"
proof -
  have "take_bit 1 w OR (push_bit 1 (take_bit 1 (drop_bit 1 w)) OR x) = take_bit 2 w OR x"
    using field_join_assoc [of 1 w 1 x] by (simp only: one_add_one)
  then show ?thesis by (simp add: push_bit_eq_mult)
qed

lemma pde_pack_unpack: "pde_pack (pde_unpack w) = w"
  by (simp add: pde_pack_def pde_unpack_def low_bits_field field_simps_join)

lemma pte_pack_unpack: "pte_pack (pte_unpack w) = w"
  by (simp add: pte_pack_def pte_unpack_def low_bits_field field_simps_join)

interpretation pde_codec: mem_codec pde_pack pde_unpack
  by unfold_locales (rule pde_unpack_pack, rule pde_pack_unpack)

interpretation pte_codec: mem_codec pte_pack pte_unpack
  by unfold_locales (rule pte_unpack_pack, rule pte_pack_unpack)

section \<open>Frames and addresses\<close>

lemma unat_page_size [simp]: "unat PAGE_SIZE = 4096" "unat FRAME_SIZE = 4096"
  by (simp_all add: page_consts)

lemma page_number_bound: "unat (ADDR_TO_PAGE_NB a) < 2 ^ 20"
  using unat_u32_less [of a]
  by (simp add: ADDR_TO_PAGE_NB_def unat_div)

text \<open>Pages and addresses convert back and forth; the offset in the page is lost.\<close>

lemma unat_page_addr: "unat n < 2 ^ 20 \<Longrightarrow> unat (PAGE_NB_TO_ADDR n) = 4096 * unat n"
  by (simp add: PAGE_NB_TO_ADDR_def page_consts unat_word_ariths)

lemma page_nb_addr: "unat n < 2 ^ 20 \<Longrightarrow> ADDR_TO_PAGE_NB (PAGE_NB_TO_ADDR n) = n"
  by (intro word_unat_eq_iff [THEN iffD2]) (simp add: ADDR_TO_PAGE_NB_def unat_div unat_page_addr)

lemma page_addr_nb: "unat (PAGE_NB_TO_ADDR (ADDR_TO_PAGE_NB a)) = 4096 * (unat a div 4096)"
  using page_number_bound [of a] by (simp add: unat_page_addr) (simp add: ADDR_TO_PAGE_NB_def unat_div)

lemma frame_page_same: "FRAME_NB_TO_ADDR = PAGE_NB_TO_ADDR" "ADDR_TO_FRAME_NB = ADDR_TO_PAGE_NB"
  "FRAME_COUNT = PAGE_COUNT"
  by (simp_all add: fun_eq_iff FRAME_NB_TO_ADDR_def PAGE_NB_TO_ADDR_def ADDR_TO_FRAME_NB_def
      ADDR_TO_PAGE_NB_def FRAME_COUNT_def PAGE_COUNT_def page_consts)

text \<open>
  \<open>PAGE_COUNT\<close> rounds up, as long as the sum in the macro does not wrap; just below 4 GB it
  does, and the count of a non-empty area comes out as 0.
\<close>

lemma page_count_sum: "unat (n + PAGE_SIZE - 1) = (unat n + 4095) mod 4294967296"
proof -
  have e: "n + PAGE_SIZE - 1 = n + 4095" by (simp add: page_consts)
  show ?thesis unfolding e by (simp add: unat_word_ariths(1))
qed

lemma page_count_ceiling:
  assumes "unat n \<le> 4294967296 - 4096"
  shows "unat n \<le> 4096 * unat (PAGE_COUNT n)" "4096 * unat (PAGE_COUNT n) < unat n + 4096"
proof -
  have "unat (n + PAGE_SIZE - 1) = unat n + 4095" using assms by (simp add: page_count_sum)
  then have "unat (PAGE_COUNT n) = (unat n + 4095) div 4096"
    by (simp add: PAGE_COUNT_def unat_div)
  moreover have "k \<le> 4096 * ((k + 4095) div 4096)" "4096 * ((k + 4095) div 4096) < k + 4096" for k :: nat
    using div_mult_mod_eq [of "k + 4095" 4096] mod_less_divisor [of 4096 "k + 4095"] by linarith+
  ultimately show "unat n \<le> 4096 * unat (PAGE_COUNT n)" "4096 * unat (PAGE_COUNT n) < unat n + 4096"
    by (simp_all only:)
qed

lemma page_count_wraps: "PAGE_COUNT 0xfffff001 = 0"
  by (simp add: PAGE_COUNT_def page_consts)

section \<open>Words of entries, counts of pages\<close>

text \<open>A page table entry survives being stored as a word; the address the processor takes from that
  word is the one \<open>FRAME_NB_TO_ADDR\<close> computes from the field, and clearing the present bit changes
  bit 0 of the word alone.\<close>

lemma pte_word:
  "pte_unpack (pte_pack t) = t \<and> pte_pack t AND NOT (mask 12) = FRAME_NB_TO_ADDR (ucast (frame_number t)) \<and>
   pte_pack (t\<lparr>present := 0\<rparr>) = pte_pack t AND NOT 1"
proof -
  have "pte_pack t AND NOT (mask 12) = push_bit 12 (ucast (frame_number t))"
  proof (rule bit_word_eqI)
    fix n :: nat
    assume n: "n < LENGTH(32)"
    show "bit (pte_pack t AND NOT (mask 12)) n = bit (push_bit 12 (ucast (frame_number t)) :: u32) n"
      using n by (auto simp: pte_pack_def bit_simps bit_times_2)
  qed
  moreover have "pte_pack (t\<lparr>present := 0\<rparr>) = pte_pack t AND NOT 1"
  proof (rule bit_word_eqI)
    fix n :: nat
    show "bit (pte_pack (t\<lparr>present := 0\<rparr>)) n = bit (pte_pack t AND NOT 1) n" if "n < LENGTH(32)"
      using that by (cases "n = 0") (simp_all add: pte_pack_def bit_or_iff bit_and_iff bit_not_iff bit_1_iff
          bit_ucast_iff bit_push_bit_iff bit_times_2)
  qed
  ultimately show ?thesis
    by (simp add: pte_unpack_pack FRAME_NB_TO_ADDR_def page_consts push_bit_eq_mult mult.commute)
qed

text \<open>\<open>PAGE_COUNT\<close> rounds up to whole pages, except in the last page of the address space, where the
  sum in the macro wraps and the count of a large area comes out as 0.\<close>

lemma page_count_rounds_up:
  "unat (PAGE_COUNT n) = (if unat n \<le> 4294963200 then (unat n + 4095) div 4096 else 0)"
proof (cases "unat n \<le> 4294963200")
  case True
  with page_count_sum [of n] show ?thesis by (simp add: PAGE_COUNT_def unat_div)
next
  case False
  then have "(unat n + 4095) mod 4294967296 = unat n + 4095 - 4294967296"
    using unat_u32_less [of n] by (subst mod_if, subst mod_less) auto
  with page_count_sum [of n] False show ?thesis
    using unat_u32_less [of n] by (simp add: PAGE_COUNT_def unat_div)
qed

end
