(* ===== verification/Colors.thy ===== *)
theory Colors
  imports Prelude
begin

text \<open>The R5G6B5 colours of \<^verbatim>\<open>common/colors.h\<close>; the macros compute in \<open>int\<close>.\<close>

unbundle bit_operations_syntax

definition COL8TO5 :: "u32 \<Rightarrow> u32" where "COL8TO5 x = drop_bit 3 x"
definition COL8TO6 :: "u32 \<Rightarrow> u32" where "COL8TO6 x = drop_bit 2 x"

definition RGB :: "u32 \<Rightarrow> u32 \<Rightarrow> u32 \<Rightarrow> u32" where
  "RGB r g b = push_bit 11 (COL8TO5 r) OR push_bit 5 (COL8TO6 g) OR COL8TO5 b"

definition COLTO32 :: "u32 \<Rightarrow> u32" where
  "COLTO32 x = push_bit 16 (x AND 0xFFFF) OR (x AND 0xFFFF)"

definition BLACK :: u32 where "BLACK = RGB 0 0 0"
definition WHITE :: u32 where "WHITE = RGB 255 255 255"
definition RED :: u32 where "RED = RGB 255 0 0"
definition BLUE :: u32 where "BLUE = RGB 0 0 255"
definition GREEN :: u32 where "GREEN = RGB 0 255 0"
definition YELLOW :: u32 where "YELLOW = RGB 255 255 0"
definition CYAN :: u32 where "CYAN = RGB 0 255 255"
definition DARK_GREY :: u32 where "DARK_GREY = RGB 150 150 150"
definition LIGHT_GREY :: u32 where "LIGHT_GREY = RGB 220 220 220"
definition LIGHT_BLUE :: u32 where "LIGHT_BLUE = RGB 150 150 220"
definition LIGHT_GREEN :: u32 where "LIGHT_GREEN = RGB 150 220 150"
definition LIGHT_RED :: u32 where "LIGHT_RED = RGB 255 200 200"

lemmas color_defs = BLACK_def WHITE_def RED_def BLUE_def GREEN_def DARK_GREY_def LIGHT_GREY_def
  LIGHT_GREEN_def LIGHT_RED_def YELLOW_def CYAN_def LIGHT_BLUE_def
  RGB_def COL8TO5_def COL8TO6_def

record term_colors =
  fg :: u16
  bg :: u16

text \<open>The three channels share a 16-bit value without overlapping.\<close>

lemma RGB_channels:
  assumes "r < 256" "g < 256" "b < 256"
  shows "drop_bit 11 (RGB r g b) = drop_bit 3 r"
    "take_bit 6 (drop_bit 5 (RGB r g b)) = drop_bit 2 g"
    "take_bit 5 (RGB r g b) = drop_bit 3 b"
    "RGB r g b < 65536"
proof -
  have low: "n < 8" if "x < 256" "bit x n" for x :: u32 and n
  proof -
    have "take_bit 8 x = x"
      using that by (simp add: word_unat_eq_iff word_less_nat_alt unsigned_take_bit_eq take_bit_nat_eq_self)
    then show ?thesis using that by (metis bit_take_bit_iff)
  qed
  show "drop_bit 11 (RGB r g b) = drop_bit 3 r"
    using assms by (intro bit_word_eqI) (auto dest: low simp: RGB_def COL8TO5_def COL8TO6_def bit_simps)
  show "take_bit 6 (drop_bit 5 (RGB r g b)) = drop_bit 2 g"
    using assms by (intro bit_word_eqI) (auto dest: low simp: RGB_def COL8TO5_def COL8TO6_def bit_simps)
  show "take_bit 5 (RGB r g b) = drop_bit 3 b"
    using assms by (intro bit_word_eqI) (auto dest: low simp: RGB_def COL8TO5_def COL8TO6_def bit_simps)
  have eq: "take_bit 16 (RGB r g b) = RGB r g b"
    using assms by (intro bit_word_eqI) (auto dest: low simp: RGB_def COL8TO5_def COL8TO6_def bit_simps)
  have "unat (take_bit 16 (RGB r g b)) < 65536"
    using take_bit_nat_less_exp [of 16 "unat (RGB r g b)"] by (simp only: unsigned_take_bit_eq) simp
  then show "RGB r g b < 65536"
    unfolding eq by (simp add: word_less_nat_alt)
qed

section \<open>The packed colour\<close>

text \<open>\<open>RGB\<close> packs the three channels into 16 bits without overlap: each can be read back, cut to its
  five or six most significant bits.\<close>

lemma RGB_packs:
  assumes "r < 256" "g < 256" "b < 256"
  shows "RGB r g b < 65536 \<and> drop_bit 11 (RGB r g b) = drop_bit 3 r \<and>
    take_bit 6 (drop_bit 5 (RGB r g b)) = drop_bit 2 g \<and> take_bit 5 (RGB r g b) = drop_bit 3 b"
  using RGB_channels [OF assms] by simp

end
