(* ===== verification/Machine.thy ===== *)
theory Machine
  imports Gdt Paging Colors
begin

text \<open>
  The edge of the modelled code: what it asks of the processor, of the ports and of the
  drivers that the repository ships as object files only (terminal, keyboard, timer, VBE,
  frames, paging, modules). Each such request is an event; a component returns the events it
  issues, in order. What a driver answers is a parameter of the components that use it.
\<close>

text \<open>The variadic arguments of \<open>term_printf\<close>: a value, a string in memory, a literal.\<close>

datatype printf_arg = PInt u32 | PStr u32 | PLit string

datatype kevent =
    OutB u16 u8                      \<comment> \<open>\<open>outb(port, data)\<close>\<close>
  | OutW u16 u16
  | InB u16
  | InW u16
  | SetCr0 u32
  | Lgdt table_ptr
  | Lidt table_ptr
  | Ltr u16                          \<comment> \<open>\<open>task_ltr\<close>\<close>
  | LoadPagedir u32                  \<comment> \<open>\<open>paging_load_pagedir\<close>\<close>
  | TaskSwitch u16                   \<comment> \<open>far call to a TSS selector\<close>
  | CallHandler u32                  \<comment> \<open>call of an interrupt handler installed by a driver\<close>
  | Sti
  | Halt
  | TermInit
  | TermPutsLit string               \<comment> \<open>\<open>term_puts\<close> of a literal\<close>
  | TermPuts u32                     \<comment> \<open>\<open>term_puts\<close> of a string in memory\<close>
  | TermPutc u8
  | TermPrintf string "printf_arg list"
  | TermGetColors
  | TermSetColors term_colors
  | TermSetFg u16
  | TermSetBg u16
  | TermSetChar u8 u32 u32 term_colors
  | KeybInit
  | KeybGetKey
  | TimerInit u32
  | TimerGetFreq
  | TimerGetTicks
  | TimerSleep u32
  | VbeInit
  | VbeGetFb
  | VbeSetPixel u32 u32 u16
  | PagingInit u32
  | PagingMmap u32 u32 u32 privilege access  \<comment> \<open>virtual, physical, size\<close>
  | PagingAlloc u32 u32 privilege            \<comment> \<open>virtual address, size\<close>
  | FrameTotalFree
  | FrameFree u32
  | ModulesDisplayInfo

end
