(* ===== verification/Irq.thy ===== *)
theory Irq
  imports Machine
begin

text \<open>
  Interrupt requests: the 8259 controllers (\<^verbatim>\<open>kernel/drivers/pic.c\<close>), the table of
  handlers (\<^verbatim>\<open>kernel/interrupt/irq.c\<close>) and \<open>irq_handler\<close> of
  \<^verbatim>\<open>kernel/interrupt/idt.c\<close>, which joins the two.
\<close>

section \<open>The interrupt controllers\<close>

definition PIC1_CMD :: u16 where "PIC1_CMD = 0x20"
definition PIC1_DATA :: u16 where "PIC1_DATA = 0x21"
definition PIC2_CMD :: u16 where "PIC2_CMD = 0xA0"
definition PIC2_DATA :: u16 where "PIC2_DATA = 0xA1"
definition PIC_EOI :: u8 where "PIC_EOI = 0x20"

lemmas pic_consts = PIC1_CMD_def PIC1_DATA_def PIC2_CMD_def PIC2_DATA_def PIC_EOI_def

definition pic_init :: "kevent list" where
  "pic_init = [OutB PIC1_CMD 0x11, OutB PIC2_CMD 0x11, OutB PIC1_DATA 32, OutB PIC2_DATA 40,
     OutB PIC1_DATA 0x04, OutB PIC2_DATA 0x02, OutB PIC1_DATA 0x01, OutB PIC2_DATA 0x01,
     TermPutsLit ''PIC initialized.\<newline>'']"

definition pic_eoi :: "u32 \<Rightarrow> kevent list" where
  "pic_eoi irq = (if sint irq > 7 then [OutB PIC2_CMD PIC_EOI] else []) @ [OutB PIC1_CMD PIC_EOI]"

text \<open>
  The initialisation protocol of an 8259, as its data sheet has it: command word 1 on the
  command port, then words 2 (vector offset), 3 (cascade) and 4 (mode) on the data port, in
  this order. The state of one chip is what it still expects and what it has latched.
\<close>

record pic8259 =
  expects :: nat          \<comment> \<open>0: operational, 2 to 4: next command word\<close>
  vector :: u8
  cascade :: u8
  mode :: u8

definition pic_write :: "u16 \<Rightarrow> u16 \<Rightarrow> kevent \<Rightarrow> pic8259 \<Rightarrow> pic8259" where
  "pic_write cmd data ev p = (case ev of
     OutB port v \<Rightarrow>
       if port = cmd then (if v = 0x11 then p\<lparr>expects := 2\<rparr> else p)
       else if port = data then
         (if expects p = 2 then p\<lparr>vector := v, expects := 3\<rparr>
          else if expects p = 3 then p\<lparr>cascade := v, expects := 4\<rparr>
          else if expects p = 4 then p\<lparr>mode := v, expects := 0\<rparr> else p)
       else p
   | _ \<Rightarrow> p)"

text \<open>The vector an operational chip raises for a request line of its own (0 to 7).\<close>

definition pic_vector :: "pic8259 \<Rightarrow> nat \<Rightarrow> nat" where
  "pic_vector p line = unat (vector p) + line"

lemma pic_init_master: "fold (pic_write PIC1_CMD PIC1_DATA) pic_init p
    = \<lparr>expects = 0, vector = 32, cascade = 4, mode = 1\<rparr>"
  by (simp add: pic_init_def pic_write_def pic_consts)

lemma pic_init_slave: "fold (pic_write PIC2_CMD PIC2_DATA) pic_init p
    = \<lparr>expects = 0, vector = 40, cascade = 2, mode = 1\<rparr>"
  by (simp add: pic_init_def pic_write_def pic_consts)

section \<open>The table of handlers\<close>

text \<open>A handler is a code address, \<open>NULL\<close> when there is none, and a name.\<close>

record handler =
  func :: u32
  name :: "u8 list"

definition IRQ_COUNT :: nat where "IRQ_COUNT = 16"

definition zero_handler :: handler where
  "zero_handler = \<lparr>func = 0, name = replicate 64 0\<rparr>"

definition irq_init :: "handler list" where
  "irq_init = replicate IRQ_COUNT zero_handler"

text \<open>The index is not checked; beyond the array the code has no meaning.\<close>

definition irq_install_handler :: "u32 \<Rightarrow> handler \<Rightarrow> handler list \<Rightarrow> (handler list) run" where
  "irq_install_handler irq h hs = (if unat irq < length hs then ret (hs[unat irq := h]) else fail BadIndex)"

text \<open>It returns the address of an array element, which is never \<open>NULL\<close>: \<open>Some\<close>.\<close>

definition irq_get_handler :: "handler list \<Rightarrow> u32 \<Rightarrow> (handler option) run" where
  "irq_get_handler hs irq = (if unat irq < length hs then ret (Some (hs ! unat irq)) else fail BadIndex)"

definition irq_handler :: "handler list \<Rightarrow> u32 \<Rightarrow> (kevent list) run" where
  "irq_handler hs irq =
     rbind (irq_get_handler hs irq) (\<lambda>h.
       ret (pic_eoi irq @
         (case h of None \<Rightarrow> [] | Some h \<Rightarrow> if func h \<noteq> 0 then [CallHandler (func h)] else [])))"

section \<open>A table of slots as an interface\<close>

text \<open>
  What \<open>irq_handler\<close> relies on: a slot gives back what was stored in it last, other slots
  keep theirs, and a store succeeds exactly on the valid keys.
\<close>

locale slot_table =
  fixes put :: "'k \<Rightarrow> 'v \<Rightarrow> 't \<Rightarrow> 't run"
    and get :: "'t \<Rightarrow> 'k \<Rightarrow> 'v run"
    and inv :: "'t \<Rightarrow> bool"
    and valid :: "'k \<Rightarrow> bool"
  assumes put_ret: "inv t \<Longrightarrow> valid k \<Longrightarrow> \<exists>t'. put k v t = ret t' \<and> inv t'"
    and put_fail: "inv t \<Longrightarrow> \<not> valid k \<Longrightarrow> put k v t = fail BadIndex"
    and get_put_same: "inv t \<Longrightarrow> put k v t = ret t' \<Longrightarrow> get t' k = ret v"
    and get_put_other: "inv t \<Longrightarrow> put k v t = ret t' \<Longrightarrow> k \<noteq> k' \<Longrightarrow> get t' k' = get t k'"
begin

lemma put_inv: "inv t \<Longrightarrow> put k v t = ret t' \<Longrightarrow> inv t'"
  using put_ret [of t k v] put_fail [of t k v] by (cases "valid k") auto

lemma put_valid: "inv t \<Longrightarrow> put k v t = ret t' \<Longrightarrow> valid k"
  using put_fail [of t k v] by auto

text \<open>A sequence of stores: the last one to a key wins.\<close>

primrec puts :: "('k \<times> 'v) list \<Rightarrow> 't \<Rightarrow> 't run" where
  "puts [] t = ret t"
| "puts (kv # kvs) t = rbind (put (fst kv) (snd kv) t) (puts kvs)"

lemma puts_inv: "inv t \<Longrightarrow> puts kvs t = ret t' \<Longrightarrow> inv t'"
  by (induction kvs arbitrary: t) (auto simp: rbind_eq_ret dest: put_inv)

lemma puts_ret: "inv t \<Longrightarrow> \<forall>kv \<in> set kvs. valid (fst kv) \<Longrightarrow> \<exists>t'. puts kvs t = ret t'"
proof (induction kvs arbitrary: t)
  case (Cons kv kvs)
  then obtain t1 where "put (fst kv) (snd kv) t = ret t1" "inv t1"
    using put_ret by fastforce
  with Cons show ?case by auto
qed simp

lemma get_puts: "inv t \<Longrightarrow> puts kvs t = ret t' \<Longrightarrow>
    get t' k = (case map_of (rev kvs) k of None \<Rightarrow> get t k | Some v \<Rightarrow> ret v)"
proof (induction kvs arbitrary: t)
  case (Cons kv kvs)
  then obtain t1 where t1: "put (fst kv) (snd kv) t = ret t1" "puts kvs t1 = ret t'"
    by auto
  with Cons have "get t' k = (case map_of (rev kvs) k of None \<Rightarrow> get t1 k | Some v \<Rightarrow> ret v)"
    using put_inv by blast
  moreover have "get t1 k = (if k = fst kv then ret (snd kv) else get t k)"
    using t1(1) Cons.prems(1) get_put_same get_put_other by metis
  ultimately show ?case
    by (auto simp: map_add_def split: option.splits)
qed simp

end

definition handlers_ok :: "handler list \<Rightarrow> bool" where
  "handlers_ok hs \<longleftrightarrow> length hs = IRQ_COUNT"

lemma handlers_ok_init: "handlers_ok irq_init"
  by (simp add: handlers_ok_def irq_init_def)

definition irq_slot :: "handler list \<Rightarrow> u32 \<Rightarrow> handler run" where
  "irq_slot hs irq = rbind (irq_get_handler hs irq) (\<lambda>h. case h of None \<Rightarrow> fail BadIndex | Some h \<Rightarrow> ret h)"

interpretation irqs: slot_table irq_install_handler irq_slot handlers_ok "\<lambda>irq. unat irq < IRQ_COUNT"
proof unfold_locales
  fix t k v t'
  assume ok: "handlers_ok t"
  show "unat k < IRQ_COUNT \<Longrightarrow> \<exists>t'. irq_install_handler k v t = ret t' \<and> handlers_ok t'"
    and "\<not> unat k < IRQ_COUNT \<Longrightarrow> irq_install_handler k v t = fail BadIndex"
    using ok by (simp_all add: handlers_ok_def irq_install_handler_def)
  assume "irq_install_handler k v t = ret t'"
  then show "irq_slot t' k = ret v"
    and "k \<noteq> k' \<Longrightarrow> irq_slot t' k' = irq_slot t k'" for k'
    by (auto simp: irq_install_handler_def irq_slot_def irq_get_handler_def word_unat_eq_iff
        split: if_splits)
qed

section \<open>Dispatch\<close>

lemma irq_handler_slot: "irq_slot hs irq = ret h \<Longrightarrow>
    irq_handler hs irq = ret (pic_eoi irq @ (if func h \<noteq> 0 then [CallHandler (func h)] else []))"
  by (auto simp: irq_slot_def irq_handler_def irq_get_handler_def split: if_splits)

text \<open>After a series of installations every request runs the last handler installed for it.\<close>

lemma dispatch_after_installs:
  assumes "irqs.puts kvs irq_init = ret hs" and "unat irq < IRQ_COUNT"
  shows "irq_handler hs irq = ret (pic_eoi irq @
    (case map_of (rev kvs) irq of None \<Rightarrow> []
     | Some h \<Rightarrow> if func h \<noteq> 0 then [CallHandler (func h)] else []))"
proof -
  have "irq_slot irq_init irq = ret zero_handler"
    using assms(2) by (simp add: irq_slot_def irq_get_handler_def irq_init_def)
  with irqs.get_puts [OF handlers_ok_init assms(1), of irq] show ?thesis
    by (auto simp: irq_handler_slot zero_handler_def split: option.splits)
qed

text \<open>A row of installations.\<close>

primrec irq_installs :: "(u32 \<times> handler) list \<Rightarrow> handler list \<Rightarrow> (handler list) run" where
  "irq_installs [] hs = ret hs"
| "irq_installs (x # xs) hs = rbind (irq_install_handler (fst x) (snd x) hs) (irq_installs xs)"

lemma irq_installs_puts: "irq_installs xs hs = irqs.puts xs hs"
  by (induction xs arbitrary: hs) (simp_all add: rbind_def split: option.splits sum.splits)

section \<open>Properties\<close>

text \<open>C22: After any series of installations that stay within the table, a request is acknowledged at the
  controllers its line goes through and then runs the handler installed last for it, if any.\<close>

theorem irq_dispatch:
  assumes "\<forall>x \<in> set xs. unat (fst x) < IRQ_COUNT" and "unat irq < IRQ_COUNT"
  shows "\<exists>hs. irq_installs xs irq_init = ret hs \<and> irq_handler hs irq = ret (
    (if unat irq < 8 then [OutB PIC1_CMD PIC_EOI] else [OutB PIC2_CMD PIC_EOI, OutB PIC1_CMD PIC_EOI]) @
    (case map_of (rev xs) irq of None \<Rightarrow> []
     | Some h \<Rightarrow> if func h = 0 then [] else [CallHandler (func h)]))"
proof -
  obtain hs where hs: "irqs.puts xs irq_init = ret hs"
    using irqs.puts_ret [OF handlers_ok_init assms(1)] by blast
  have u: "uint irq = int (unat irq)" by (rule uint_nat)
  then have "uint irq < 16" using assms(2) by (simp only: IRQ_COUNT_def)
  then have "sint irq = uint irq" by (simp add: sint_u32)
  with u have "7 < sint irq \<longleftrightarrow> \<not> unat irq < 8" by linarith
  then have "pic_eoi irq = (if unat irq < 8 then [OutB PIC1_CMD PIC_EOI] else [OutB PIC2_CMD PIC_EOI, OutB PIC1_CMD PIC_EOI])"
    by (simp add: pic_eoi_def)
  with dispatch_after_installs [OF hs assms(2)] hs show ?thesis
    by (auto simp: irq_installs_puts split: option.split)
qed

theorem irq_dispatch_witness:
  "\<exists>hs. irq_installs [(1, \<lparr>func = 16, name = []\<rparr>), (9, \<lparr>func = 32, name = []\<rparr>), (1, \<lparr>func = 48, name = []\<rparr>)] irq_init = ret hs \<and>
     irq_handler hs 1 = ret [OutB PIC1_CMD PIC_EOI, CallHandler 48]"
  using irq_dispatch [of "[(1, \<lparr>func = 16, name = []\<rparr>), (9, \<lparr>func = 32, name = []\<rparr>), (1, \<lparr>func = 48, name = []\<rparr>)]" 1]
  by (simp add: IRQ_COUNT_def)

end
