(* ===== verification/Idt.thy ===== *)
theory Idt
  imports Irq
begin

text \<open>
  The interrupt descriptor table of \<^verbatim>\<open>kernel/interrupt/idt.c\<close>: gate descriptors, and
  the table \<open>idt_init\<close> builds. The addresses of the low-level handlers are labels of
  \<^verbatim>\<open>idt_asm.s\<close> and \<^verbatim>\<open>syscall_asm.s\<close> that the linker places: a parameter.
\<close>

unbundle bit_operations_syntax

definition INTERRUPT_COUNT :: nat where "INTERRUPT_COUNT = 256"
definition LAST_EXCEPTION :: nat where "LAST_EXCEPTION = 20"
definition IRQ_REMAP_OFFSET :: nat where "IRQ_REMAP_OFFSET = 32"

lemmas idt_consts = INTERRUPT_COUNT_def LAST_EXCEPTION_def IRQ_REMAP_OFFSET_def IRQ_COUNT_def

section \<open>Gates\<close>

record idt_entry =
  offset15_0 :: u16
  selector :: u16
  reserved :: "8 word"
  i_type :: "5 word"
  i_dpl :: "2 word"
  i_p :: "1 word"
  offset31_16 :: u16

definition idt_pack :: "idt_entry \<Rightarrow> 64 word" where
  "idt_pack e = ucast (offset15_0 e) OR push_bit 16 (ucast (selector e)) OR push_bit 32 (ucast (reserved e))
     OR push_bit 40 (ucast (i_type e)) OR push_bit 45 (ucast (i_dpl e)) OR push_bit 47 (ucast (i_p e))
     OR push_bit 48 (ucast (offset31_16 e))"

definition idt_unpack :: "64 word \<Rightarrow> idt_entry" where
  "idt_unpack w = \<lparr>offset15_0 = ucast w, selector = ucast (drop_bit 16 w), reserved = ucast (drop_bit 32 w),
     i_type = ucast (drop_bit 40 w), i_dpl = ucast (drop_bit 45 w), i_p = ucast (drop_bit 47 w),
     offset31_16 = ucast (drop_bit 48 w)\<rparr>"

definition idt_build_entry :: "u16 \<Rightarrow> u32 \<Rightarrow> u8 \<Rightarrow> u8 \<Rightarrow> idt_entry" where
  "idt_build_entry sel offset type dpl =
     \<lparr>offset15_0 = ucast (offset AND 0xffff), selector = sel, reserved = 0, i_type = ucast type,
      i_dpl = ucast dpl, i_p = 1, offset31_16 = ucast (drop_bit 16 offset AND 0xffff)\<rparr>"

lemma bit_u5_beyond [simp]: "5 \<le> k \<Longrightarrow> \<not> bit (a :: 5 word) k"
  using bit_imp_le_length [of a k] by auto

lemma idt_unpack_pack: "idt_unpack (idt_pack e) = e"
  unfolding idt_unpack_def idt_pack_def
  by (intro idt_entry.equality) (auto intro!: bit_word_eqI simp: bit_simps)

lemma idt_pack_unpack: "idt_pack (idt_unpack w) = w"
  by (simp add: idt_pack_def idt_unpack_def field_simps_join)

interpretation idt_codec: codec idt_pack idt_unpack
  by unfold_locales (rule idt_unpack_pack, rule idt_pack_unpack)

section \<open>\<open>idt_init\<close>\<close>

record isr_labels =
  exception_isr :: "nat \<Rightarrow> u32"
  irq_isr :: "nat \<Rightarrow> u32"
  syscall_isr :: u32

text \<open>
  The three steps on the cleared table: exceptions 0 to 20, requests 0 to 15 from entry 32
  on, and the system call gate, the only one open to user code.
\<close>

definition idt_table :: "isr_labels \<Rightarrow> idt_entry list" where
  "idt_table isr =
     (let t = replicate INTERRUPT_COUNT (idt_unpack 0);
          t = fill 0 (LAST_EXCEPTION + 1) (\<lambda>i. idt_build_entry GDT_KERNEL_CODE_SELECTOR
                (exception_isr isr i) TYPE_INTERRUPT_GATE DPL_KERNEL) t;
          t = fill IRQ_REMAP_OFFSET IRQ_COUNT (\<lambda>i. idt_build_entry GDT_KERNEL_CODE_SELECTOR
                (irq_isr isr i) TYPE_INTERRUPT_GATE DPL_KERNEL) t
      in t[48 := idt_build_entry GDT_KERNEL_CODE_SELECTOR (syscall_isr isr) TYPE_TRAP_GATE DPL_USER])"

definition idt_init :: "u32 \<Rightarrow> isr_labels \<Rightarrow> handler list \<times> idt_entry list \<times> kevent list" where
  "idt_init idt_addr isr =
     (irq_init, idt_table isr,
      [Lidt \<lparr>tp_limit = ucast (of_nat (8 * INTERRUPT_COUNT) - 1 :: u32), tp_base = idt_addr\<rparr>,
       TermPutsLit ''IDT initialized.\<newline>''])"

section \<open>What the processor does with a gate\<close>

definition gate_offset :: "idt_entry \<Rightarrow> u32" where
  "gate_offset e = ucast (offset15_0 e) OR push_bit 16 (ucast (offset31_16 e))"

text \<open>
  \<open>int n\<close> at privilege level \<open>cpl\<close>: the gate must exist, be present and be open to that
  level; otherwise the processor raises a protection fault (\<open>None\<close>).
\<close>

definition software_int :: "idt_entry list \<Rightarrow> nat \<Rightarrow> nat \<Rightarrow> (u16 \<times> u32) option" where
  "software_int t cpl n =
     (if n < length t \<and> i_p (t ! n) = 1 \<and> cpl \<le> unat (i_dpl (t ! n))
      then Some (selector (t ! n), gate_offset (t ! n)) else None)"

text \<open>A hardware interrupt or exception is not subject to the privilege check.\<close>

definition hardware_int :: "idt_entry list \<Rightarrow> nat \<Rightarrow> (u16 \<times> u32) option" where
  "hardware_int t n = software_int t 0 n"

lemma idt_build_entry_offset: "gate_offset (idt_build_entry sel offset type dpl) = offset"
proof (rule bit_word_eqI)
  fix n :: nat
  assume "n < LENGTH(32)"
  then consider "n < 16" | "16 \<le> n \<and> n < 32" by force
  then show "bit (gate_offset (idt_build_entry sel offset type dpl)) n = bit offset n"
    by cases (auto simp: gate_offset_def idt_build_entry_def bit_simps masks)
qed

lemma idt_build_entry_fields [simp]:
  "i_p (idt_build_entry sel offset type dpl) = 1"
  "selector (idt_build_entry sel offset type dpl) = sel"
  "i_dpl (idt_build_entry sel offset type dpl) = ucast dpl"
  "i_type (idt_build_entry sel offset type dpl) = ucast type"
  by (simp_all add: idt_build_entry_def)

lemma length_idt_table [simp]: "length (idt_table isr) = 256"
  by (simp add: idt_table_def Let_def idt_consts)

lemma idt_table_nth: "n < 256 \<Longrightarrow> idt_table isr ! n =
    (if n \<le> 20 then idt_build_entry GDT_KERNEL_CODE_SELECTOR (exception_isr isr n) TYPE_INTERRUPT_GATE DPL_KERNEL
     else if 32 \<le> n \<and> n < 48
     then idt_build_entry GDT_KERNEL_CODE_SELECTOR (irq_isr isr (n - 32)) TYPE_INTERRUPT_GATE DPL_KERNEL
     else if n = 48 then idt_build_entry GDT_KERNEL_CODE_SELECTOR (syscall_isr isr) TYPE_TRAP_GATE DPL_USER
     else idt_unpack 0)"
  by (auto simp: idt_table_def Let_def idt_consts fill_nth nth_list_update)

lemma software_int_idt: "software_int (idt_table isr) cpl n =
    (if n \<le> 20 \<and> cpl = 0 then Some (GDT_KERNEL_CODE_SELECTOR, exception_isr isr n)
     else if 32 \<le> n \<and> n < 48 \<and> cpl = 0 then Some (GDT_KERNEL_CODE_SELECTOR, irq_isr isr (n - 32))
     else if n = 48 \<and> cpl \<le> 3 then Some (GDT_KERNEL_CODE_SELECTOR, syscall_isr isr)
     else None)"
  by (cases "n < 256")
     (auto simp: software_int_def idt_table_nth idt_build_entry_offset descriptor_consts idt_unpack_def)

section \<open>Properties\<close>

text \<open>C23: The remapping of the interrupt controllers and the interrupt table fit together: each of the
  sixteen request lines raises a vector that leads, with kernel code, to the stub of that line.\<close>

theorem irq_lines_routed:
  assumes "line < 16"
  shows "hardware_int (idt_table isr)
      (if line < 8 then pic_vector (fold (pic_write PIC1_CMD PIC1_DATA) pic_init p) line
       else pic_vector (fold (pic_write PIC2_CMD PIC2_DATA) pic_init q) (line - 8))
    = Some (GDT_KERNEL_CODE_SELECTOR, irq_isr isr line)"
  using assms
  by (simp add: hardware_int_def software_int_idt pic_init_master pic_init_slave pic_vector_def)

theorem irq_lines_routed_witness:
  "hardware_int (idt_table \<lparr>exception_isr = \<lambda>i. 0, irq_isr = \<lambda>i. 100 + of_nat i, syscall_isr = 7\<rparr>)
     (pic_vector (fold (pic_write PIC2_CMD PIC2_DATA) pic_init \<lparr>expects = 0, vector = 8, cascade = 0, mode = 0\<rparr>) 6)
   = Some (GDT_KERNEL_CODE_SELECTOR, 114)"
  using irq_lines_routed [of 14 "\<lparr>exception_isr = \<lambda>i. 0, irq_isr = \<lambda>i. 100 + of_nat i, syscall_isr = 7\<rparr>" _
    "\<lparr>expects = 0, vector = 8, cascade = 0, mode = 0\<rparr>"] by simp

text \<open>C24: User code can enter the kernel by \<open>int 48\<close> only, and is sent to the system call stub; every
  other software interrupt is refused.\<close>

theorem user_enters_by_syscall_only:
  "software_int (idt_table isr) 3 n = (if n = 48 then Some (GDT_KERNEL_CODE_SELECTOR, syscall_isr isr) else None)"
  by (simp add: software_int_idt)

end
