(* ===== verification/Layout.thy ===== *)
theory Layout
  imports Prelude
begin

text \<open>
  The layout of C structures on IA-32 (\<^verbatim>\<open>gcc -m32\<close>): sizes, alignments and c_offsets computed
  from the declarations, and the declarations of the structures whose fields the kernel reads by
  address. The models of the operations use the numbers; this is where they come from.
\<close>

section \<open>Types, sizes and c_offsets\<close>

text \<open>
  An integer of \<open>n\<close> bytes, arrays, structures (with \<open>packed\<close> or not) and unions. A field has a
  name and an alignment asked for by an attribute, 1 if there is none. A word of bit-fields and a
  pointer are integers here.
\<close>

datatype ctype = CInt int | CArr int ctype | CStruct bool cfields | CUnion cfields
  and cfields = NoField | Field string int ctype cfields

fun c_fields :: "(string \<times> int \<times> ctype) list \<Rightarrow> cfields" where
  "c_fields [] = NoField"
| "c_fields ((f, a, t) # xs) = Field f a t (c_fields xs)"

definition same_type :: "ctype \<Rightarrow> string list \<Rightarrow> (string \<times> int \<times> ctype) list" where
  "same_type t fs = map (\<lambda>f. (f, 1, t)) fs"

text \<open>No type of at most eight bytes is aligned to more than four in a structure.\<close>

primrec c_align :: "ctype \<Rightarrow> int" and c_aligns :: "cfields \<Rightarrow> int" where
  "c_align (CInt n) = min n 4"
| "c_align (CArr n t) = c_align t"
| "c_align (CStruct packed fs) = (if packed then 1 else c_aligns fs)"
| "c_align (CUnion fs) = c_aligns fs"
| "c_aligns NoField = 1"
| "c_aligns (Field f a t fs) = max (max a (c_align t)) (c_aligns fs)"

definition c_round_up :: "int \<Rightarrow> int \<Rightarrow> int" where
  "c_round_up n a = (n + (a - 1)) div a * a"

text \<open>What the layout needs of a field: its name, the two alignments and its size.\<close>

type_synonym dim = "string \<times> int \<times> int \<times> int"

definition c_place :: "bool \<Rightarrow> int \<Rightarrow> int \<Rightarrow> int \<Rightarrow> int" where
  "c_place packed off a b = c_round_up off (if packed then a else max a b)"

fun c_layout :: "bool \<Rightarrow> int \<Rightarrow> dim list \<Rightarrow> (string \<times> int \<times> int) list" where
  "c_layout packed off [] = []"
| "c_layout packed off ((f, a, b, n) # xs) =
     (f, c_place packed off a b, n) # c_layout packed (c_place packed off a b + n) xs"

definition c_end :: "(string \<times> int \<times> int) list \<Rightarrow> int" where
  "c_end xs = (if xs = [] then 0 else case last xs of (f, off, n) \<Rightarrow> off + n)"

primrec c_size :: "ctype \<Rightarrow> int" and c_dims :: "cfields \<Rightarrow> dim list" where
  "c_size (CInt n) = n"
| "c_size (CArr n t) = n * c_size t"
| "c_size (CStruct packed fs) = c_round_up (c_end (c_layout packed 0 (c_dims fs))) (if packed then 1 else c_aligns fs)"
| "c_size (CUnion fs) = c_round_up (foldr max (map (\<lambda>(f, a, b, n). n) (c_dims fs)) 0) (c_aligns fs)"
| "c_dims NoField = []"
| "c_dims (Field f a t fs) = (f, a, c_align t, c_size t) # c_dims fs"

text \<open>The fields of a structure: name, offset, size.\<close>

primrec c_offsets :: "ctype \<Rightarrow> (string \<times> int \<times> int) list" where
  "c_offsets (CInt n) = []"
| "c_offsets (CArr n t) = []"
| "c_offsets (CStruct packed fs) = c_layout packed 0 (c_dims fs)"
| "c_offsets (CUnion fs) = map (\<lambda>(f, a, b, n). (f, 0, n)) (c_dims fs)"

definition offsetof :: "ctype \<Rightarrow> string \<Rightarrow> int option" where
  "offsetof t f = map_option fst (map_of (c_offsets t) f)"

text \<open>Fields come one after the other, without an overlap, at multiples of their alignment.\<close>

lemma c_round_up_ge: "0 < a \<Longrightarrow> n \<le> c_round_up n a"
proof -
  assume "0 < a"
  then have "(n + (a - 1)) mod a \<le> a - 1" using pos_mod_bound [of a "n + (a - 1)"] by linarith
  then show ?thesis
    unfolding c_round_up_def using div_mult_mod_eq [of "n + (a - 1)" a] by linarith
qed

lemma c_round_up_dvd: "a dvd c_round_up n a"
  by (simp add: c_round_up_def)

lemma layout_from: "\<forall>(f, a, b, n) \<in> set xs. 0 < a \<and> 0 \<le> n \<Longrightarrow> (f, off', n) \<in> set (c_layout packed off xs) \<Longrightarrow> off \<le> off'"
proof (induction xs arbitrary: off)
  case (Cons x xs)
  obtain g a b k where x: "x = (g, a, b, k)" by (cases x)
  have "off \<le> c_place packed off a b" using Cons.prems(1) by (auto simp: x c_place_def intro!: c_round_up_ge)
  moreover have "off' = c_place packed off a b \<or> c_place packed off a b + k \<le> off'"
    using Cons by (auto simp: x)
  moreover have "0 \<le> k" using Cons.prems(1) by (simp add: x)
  ultimately show ?case by auto
qed simp

lemma layout_disjoint: "\<forall>(f, a, b, n) \<in> set xs. 0 < a \<and> 0 \<le> n \<Longrightarrow>
    sorted_wrt (\<lambda>(f, i, n) (g, j, k). i + n \<le> j) (c_layout packed off xs)"
proof (induction xs arbitrary: off)
  case (Cons x xs)
  then show ?case by (cases x) (auto dest: layout_from [rotated])
qed simp

lemma layout_apart:
  assumes "\<forall>(f, a, b, n) \<in> set xs. 0 < a \<and> 0 \<le> n"
    and "(f, i, n) \<in> set (c_layout packed off xs)" and "(g, j, k) \<in> set (c_layout packed off xs)" and "f \<noteq> g"
  shows "i + n \<le> j \<or> j + k \<le> i"
proof -
  let ?L = "c_layout packed off xs"
  obtain x y where "x < length ?L" "?L ! x = (f, i, n)" "y < length ?L" "?L ! y = (g, j, k)"
    using assms(2,3) by (auto simp: in_set_conv_nth)
  moreover from this assms(4) have "x < y \<or> y < x" by (cases "x = y") auto
  ultimately show ?thesis
    using layout_disjoint [OF assms(1), of packed off] by (fastforce simp: sorted_wrt_iff_nth_less)
qed

section \<open>The structures of the program\<close>

definition tss_t :: ctype where
  "tss_t = CStruct True (c_fields (
     same_type (CInt 2) [''previous_task_link'', ''reserved0''] @ [(''esp0'', 1, CInt 4)] @
     same_type (CInt 2) [''ss0'', ''reserved1''] @ [(''esp1'', 1, CInt 4)] @
     same_type (CInt 2) [''ss1'', ''reserved2''] @ [(''esp2'', 1, CInt 4)] @
     same_type (CInt 2) [''ss2'', ''reserved3''] @
     same_type (CInt 4) [''cr3'', ''eip'', ''eflags'', ''eax'', ''ecx'', ''edx'', ''ebx'', ''esp'', ''ebp'', ''esi'', ''edi''] @
     same_type (CInt 2) [''es'', ''reserved4'', ''cs'', ''reserved5'', ''ss'', ''reserved6'', ''ds'', ''reserved7'',
       ''fs'', ''reserved8'', ''gs'', ''reserved9'', ''ldt_selector'', ''reserved10'', ''reserved11'', ''iomap_base_addr''] @
     [(''iomap'', 1, CArr 8192 (CInt 1))]))"

definition task_t :: ctype where
  "task_t = CStruct False (c_fields
    [(''pagedir'', 4096, CArr 1024 (CInt 4)), (''tss'', 4096, tss_t), (''page_tables'', 1, CArr 1024 (CInt 4)),
     (''in_use'', 1, CInt 1), (''id'', 1, CInt 4), (''tss_selector'', 1, CInt 2),
     (''kernel_stack'', 1, CArr 65536 (CInt 1)), (''virt_addr'', 1, CInt 4), (''addr_space_size'', 1, CInt 4)])"

definition regs_t :: ctype where
  "regs_t = CStruct False (c_fields (same_type (CInt 4)
    [''gs'', ''fs'', ''es'', ''ds'', ''ebp'', ''edi'', ''esi'', ''edx'', ''ecx'', ''ebx'', ''eax'', ''number'', ''error_code'',
     ''eip'', ''cs'', ''eflags'', ''esp'', ''ss'']))"

definition vbe_fb_t :: ctype where
  "vbe_fb_t = CStruct False (c_fields (same_type (CInt 4)
    [''addr'', ''size'', ''pitch_in_bytes'', ''pitch_in_pix'', ''width'', ''height''] @ [(''bpp'', 1, CInt 1)]))"

definition handler_t :: ctype where
  "handler_t = CStruct False (c_fields [(''func'', 1, CInt 4), (''name'', 1, CArr 64 (CInt 1))])"

definition gdt_ptr_t :: ctype where
  "gdt_ptr_t = CStruct True (c_fields [(''limit'', 1, CInt 2), (''base'', 1, CInt 4)])"

definition multiboot_aout_symbol_table :: ctype where
  "multiboot_aout_symbol_table = CStruct False (c_fields (same_type (CInt 4) [''tabsize'', ''strsize'', ''addr'', ''reserved'']))"

definition multiboot_elf_section_header_table :: ctype where
  "multiboot_elf_section_header_table = CStruct False (c_fields (same_type (CInt 4) [''num'', ''size'', ''addr'', ''shndx'']))"

text \<open>The union without a name at the end is called \<open>framebuffer_colors\<close> here.\<close>

definition multiboot_info :: ctype where
  "multiboot_info = CStruct False (c_fields (
     same_type (CInt 4) [''flags'', ''mem_lower'', ''mem_upper'', ''boot_device'', ''cmdline'', ''mods_count'', ''mods_addr''] @
     [(''u'', 1, CUnion (c_fields [(''aout_sym'', 1, multiboot_aout_symbol_table),
        (''elf_sec'', 1, multiboot_elf_section_header_table)]))] @
     same_type (CInt 4) [''mmap_length'', ''mmap_addr'', ''drives_length'', ''drives_addr'', ''config_table'',
       ''boot_loader_name'', ''apm_table'', ''vbe_control_info'', ''vbe_mode_info''] @
     same_type (CInt 2) [''vbe_mode'', ''vbe_interface_seg'', ''vbe_interface_off'', ''vbe_interface_len''] @
     [(''framebuffer_addr'', 1, CInt 8)] @
     same_type (CInt 4) [''framebuffer_pitch'', ''framebuffer_width'', ''framebuffer_height''] @
     same_type (CInt 1) [''framebuffer_bpp'', ''framebuffer_type''] @
     [(''framebuffer_colors'', 1, CUnion (c_fields
        [(''palette'', 1, CStruct False (c_fields
            [(''framebuffer_palette_addr'', 1, CInt 4), (''framebuffer_palette_num_colors'', 1, CInt 2)])),
         (''rgb'', 1, CStruct False (c_fields (same_type (CInt 1)
            [''framebuffer_red_field_position'', ''framebuffer_red_mask_size'', ''framebuffer_green_field_position'',
             ''framebuffer_green_mask_size'', ''framebuffer_blue_field_position'', ''framebuffer_blue_mask_size''])))]))]))"

definition multiboot_mod_list :: ctype where
  "multiboot_mod_list = CStruct False (c_fields (same_type (CInt 4) [''mod_start'', ''mod_end'', ''cmdline'', ''pad'']))"

text \<open>\<open>p->f\<close>: the address of a member of the structure at \<open>p\<close>.\<close>

definition member_addr :: "ctype \<Rightarrow> string \<Rightarrow> u32 \<Rightarrow> u32" where
  "member_addr t f p = p + of_int (the (offsetof t f))"

lemmas layout_eval = offsetof_def c_place_def c_round_up_def c_end_def same_type_def

lemma tss_layout: "c_size tss_t = 8296" "c_align tss_t = 1"
  "map (offsetof tss_t) [''esp0'', ''ss0'', ''cr3'', ''eip'', ''cs'', ''iomap_base_addr'', ''iomap''] = map Some [4, 8, 28, 32, 76, 102, 104]"
  by (simp_all add: tss_t_def layout_eval)

lemma task_layout_c: "c_size task_t = 86016"
  "map (offsetof task_t) [''tss'', ''id'', ''kernel_stack'', ''virt_addr''] = map Some [4096, 16492, 16498, 82036]"
  "map_of (c_offsets task_t) ''kernel_stack'' = Some (16498, 65536)"
  by (simp_all add: task_t_def tss_layout(1,2) layout_eval)

lemma task_align: "c_align task_t = 4096"
  by (simp add: task_t_def tss_layout(2) same_type_def)

text \<open>Every field of a task lies inside it, apart from the others.\<close>

lemma task_field_inside: "(f, off, n) \<in> set (c_offsets task_t) \<Longrightarrow> 0 \<le> off \<and> 0 \<le> n \<and> off + n \<le> c_size task_t"
  by (auto simp: task_layout_c(1)) (auto simp: task_t_def tss_layout layout_eval)

lemma task_dims: "\<forall>(f, a, b, n) \<in> set (c_dims (c_fields [(''pagedir'', 4096, CArr 1024 (CInt 4)), (''tss'', 4096, tss_t), (''page_tables'', 1, CArr 1024 (CInt 4)),
     (''in_use'', 1, CInt 1), (''id'', 1, CInt 4), (''tss_selector'', 1, CInt 2),
     (''kernel_stack'', 1, CArr 65536 (CInt 1)), (''virt_addr'', 1, CInt 4), (''addr_space_size'', 1, CInt 4)])). 0 < a \<and> 0 \<le> n"
  by (simp add: tss_layout)
lemma task_fields_apart: "(f, i, n) \<in> set (c_offsets task_t) \<Longrightarrow> (g, j, k) \<in> set (c_offsets task_t) \<Longrightarrow> f \<noteq> g \<Longrightarrow>
    i + n \<le> j \<or> j + k \<le> i"
  unfolding task_t_def c_offsets.simps by (rule layout_apart [OF task_dims])

lemma multiboot_layout: "offsetof multiboot_info ''mem_lower'' = Some 4" "offsetof multiboot_info ''mem_upper'' = Some 8"
  "c_size multiboot_info = 120" "c_size multiboot_mod_list = 16"
  by (simp_all add: multiboot_info_def multiboot_aout_symbol_table_def multiboot_elf_section_header_table_def
      multiboot_mod_list_def layout_eval)

lemma multiboot_members [simp]: "member_addr multiboot_info ''mem_lower'' p = p + 4"
  "member_addr multiboot_info ''mem_upper'' p = p + 8"
  by (simp_all add: member_addr_def multiboot_layout)

lemma regs_layout: "map (\<lambda>(f, off, n). off) (c_offsets regs_t)
    = [0, 4, 8, 12, 16, 20, 24, 28, 32, 36, 40, 44, 48, 52, 56, 60, 64, 68]" "offsetof regs_t ''number'' = Some 44"
  by (simp_all add: regs_t_def layout_eval)

lemma fb_layout: "map (\<lambda>(f, off, n). off) (c_offsets vbe_fb_t) = [0, 4, 8, 12, 16, 20, 24]" "c_size vbe_fb_t = 28"
  by (simp_all add: vbe_fb_t_def layout_eval)

lemma ptr_layout: "map (\<lambda>(f, off, n). (off, n)) (c_offsets gdt_ptr_t) = [(0, 2), (2, 4)]" "c_size handler_t = 68"
  by (simp_all add: gdt_ptr_t_def handler_t_def layout_eval)

end
