(* ===== verification/Module.thy ===== *)
theory Module
  imports CString Layout
begin

text \<open>
  Finding a boot module by name (\<^verbatim>\<open>kernel/boot/module_by_name.c\<close>) and the multiboot
  information (\<^verbatim>\<open>kernel/boot/multiboot.c\<close>). The list of modules itself is kept by
  \<^verbatim>\<open>module.o\<close>; its accessors are a parameter.
\<close>

record modules =
  modules_count :: u32
  module_cmdline :: "u32 \<Rightarrow> u32"        \<comment> \<open>address of the command line\<close>
  module_first_address :: "u32 \<Rightarrow> u32"
  module_size :: "u32 \<Rightarrow> u32"

text \<open>\<open>for (int i = 0; i < (int)modules_count(); i++)\<close>\<close>

function mod_by_name_loop :: "mem \<Rightarrow> modules \<Rightarrow> u32 \<Rightarrow> u32 \<Rightarrow> u32 run" where
  "mod_by_name_loop m md nm i =
     (if sint i < sint (modules_count md)
      then rbind (strcmp m nm (module_cmdline md i)) (\<lambda>r.
        if r = 0 then ret i else mod_by_name_loop m md nm (i + 1))
      else ret (- 1))"
  by pat_completeness auto

lemma sint_Suc: "sint (i :: u32) < sint (j :: u32) \<Longrightarrow> sint (i + 1) = sint i + 1"
proof -
  assume "sint i < sint j"
  then have "sint (of_int (sint i + 1) :: u32) = sint i + 1"
    using sint_u32_bounds [of i] sint_u32_bounds [of j] by (intro sint_u32_small) simp_all
  then show ?thesis by (simp add: of_int_sint)
qed

termination mod_by_name_loop
  by (relation "measure (\<lambda>(m, md, nm, i). nat (sint (modules_count md) - sint i))")
     (auto simp: sint_Suc)

declare mod_by_name_loop.simps [simp del]

definition mod_by_name :: "mem \<Rightarrow> modules \<Rightarrow> u32 \<Rightarrow> u32 run" where
  "mod_by_name m md nm = mod_by_name_loop m md nm 0"

definition module_addr_by_name :: "mem \<Rightarrow> modules \<Rightarrow> u32 \<Rightarrow> u32 run" where
  "module_addr_by_name m md nm = rbind (mod_by_name m md nm) (\<lambda>idx.
     if idx = - 1 then ret 0 else ret (module_first_address md idx))"

definition module_size_by_name :: "mem \<Rightarrow> modules \<Rightarrow> u32 \<Rightarrow> u32 run" where
  "module_size_by_name m md nm = rbind (mod_by_name m md nm) (\<lambda>idx.
     if idx = - 1 then ret (- 1) else ret (module_size md idx))"

text \<open>\<open>mbi->mem_lower + mbi->mem_upper\<close>, read through the pointer at every call.\<close>

definition multiboot_get_RAM_in_KB :: "mem \<Rightarrow> u32 \<Rightarrow> u32 run" where
  "multiboot_get_RAM_in_KB m mbi =
     rbind (load32 m (member_addr multiboot_info ''mem_lower'' mbi)) (\<lambda>mem_lower.
     rbind (load32 m (member_addr multiboot_info ''mem_upper'' mbi)) (\<lambda>mem_upper.
     ret (mem_lower + mem_upper)))"

section \<open>The first module of that name\<close>

text \<open>The modules as the boot loader listed them: a list of names, each a C string in memory.\<close>

definition module_names :: "mem \<Rightarrow> modules \<Rightarrow> u8 list list \<Rightarrow> bool" where
  "module_names m md names \<longleftrightarrow> int (length names) = sint (modules_count md) \<and>
     (\<forall>i < length names. cstr m (module_cmdline md (of_nat i)) (names ! i))"

fun index_of :: "'a \<Rightarrow> 'a list \<Rightarrow> nat option" where
  "index_of x [] = None"
| "index_of x (y # ys) = (if x = y then Some 0 else map_option Suc (index_of x ys))"

lemma index_of_SomeD: "index_of x ys = Some i \<Longrightarrow> i < length ys \<and> ys ! i = x \<and> x \<notin> set (take i ys)"
  by (induction ys arbitrary: i) (auto split: if_splits)

lemma index_of_None: "index_of x ys = None \<longleftrightarrow> x \<notin> set ys"
  by (induction ys) auto

lemma sint_of_nat_less: "int k < 2147483648 \<Longrightarrow> sint (of_nat k :: u32) = int k"
  using sint_u32_small [of "int k"] by simp

lemma mod_by_name_loop_correct:
  assumes "module_names m md names" and "cstr m nm x" and "k \<le> length names"
  shows "mod_by_name_loop m md nm (of_nat k)
    = ret (case index_of x (drop k names) of None \<Rightarrow> - 1 | Some i \<Rightarrow> of_nat (k + i))"
  using assms(3)
proof (induction "length names - k" arbitrary: k)
  case 0
  moreover have "int (length names) < 2147483648"
    using assms(1) sint_u32_bounds [of "modules_count md"] by (simp add: module_names_def)
  ultimately show ?case
    using assms(1) by (subst mod_by_name_loop.simps) (simp add: sint_of_nat_less module_names_def)
next
  case (Suc n)
  then have k: "k < length names" by simp
  have l: "int (length names) < 2147483648" "sint (modules_count md) = int (length names)"
    using assms(1) sint_u32_bounds [of "modules_count md"] by (simp_all add: module_names_def)
  have IH: "mod_by_name_loop m md nm (of_nat k + 1)
      = ret (case index_of x (drop (Suc k) names) of None \<Rightarrow> - 1 | Some i \<Rightarrow> of_nat (Suc k + i))"
    using Suc.hyps(1) [of "Suc k"] Suc.hyps(2) k by (simp add: add.commute)
  obtain r where r: "strcmp m nm (module_cmdline md (of_nat k)) = ret r" "r = 0 \<longleftrightarrow> x = names ! k"
    using assms(1,2) k strcmp_result [of m nm x "module_cmdline md (of_nat k)" "names ! k"]
    by (auto simp: module_names_def)
  have "drop k names = names ! k # drop (Suc k) names"
    using k by (simp add: Cons_nth_drop_Suc)
  with r l k IH show ?case
    by (subst mod_by_name_loop.simps)
       (auto simp: sint_of_nat_less add.assoc split: option.splits)
qed

lemma mod_by_name_correct:
  assumes "module_names m md names" and "cstr m nm x"
  shows "mod_by_name m md nm = ret (case index_of x names of None \<Rightarrow> - 1 | Some i \<Rightarrow> of_nat i)"
  using mod_by_name_loop_correct [OF assms, of 0] by (simp add: mod_by_name_def split: option.splits)

lemma index_not_minus_1:
  assumes "module_names m md names" and "i < length names"
  shows "(of_nat i :: u32) \<noteq> - 1"
proof
  assume "(of_nat i :: u32) = - 1"
  then have "sint (of_nat i :: u32) = - 1" by simp
  moreover have "int i < 2147483648"
    using assms sint_u32_bounds [of "modules_count md"] by (simp add: module_names_def)
  ultimately show False by (simp add: sint_of_nat_less)
qed

lemma module_by_name_correct:
  assumes "module_names m md names" and "cstr m nm x"
  shows "module_addr_by_name m md nm = ret (case index_of x names of None \<Rightarrow> 0
      | Some i \<Rightarrow> module_first_address md (of_nat i))"
    "module_size_by_name m md nm = ret (case index_of x names of None \<Rightarrow> - 1
      | Some i \<Rightarrow> module_size md (of_nat i))"
  using mod_by_name_correct [OF assms] index_of_SomeD [of x names] index_not_minus_1 [OF assms(1)]
  by (auto simp: module_addr_by_name_def module_size_by_name_def split: option.splits)

section \<open>The two lookups\<close>

text \<open>The lookup of a module answers for the first module of that name, with its address and its size;
  a name that is not there gives a null address and the size -1.\<close>

lemma module_lookup_first:
  assumes "module_names m md names" and "cstr m nm x"
  shows "\<exists>a n. module_addr_by_name m md nm = ret a \<and> module_size_by_name m md nm = ret n \<and>
    (if x \<in> set names then \<exists>i < length names. names ! i = x \<and> x \<notin> set (take i names) \<and>
       a = module_first_address md (of_nat i) \<and> n = module_size md (of_nat i)
     else a = 0 \<and> n = - 1)"
proof (cases "index_of x names")
  case None
  then have "x \<notin> set names" by (simp add: index_of_None)
  with None module_by_name_correct [OF assms] show ?thesis by simp
next
  case (Some i)
  then have "x \<in> set names" using index_of_None [of x names] by fastforce
  with Some index_of_SomeD [OF Some] module_by_name_correct [OF assms] show ?thesis by auto
qed

end
