(* ===== verification/Kstate.thy ===== *)
theory Kstate
  imports Machine Idt Module
begin

text \<open>
  The state of the kernel: its global variables, the processor registers the code reads and
  writes, the memory of each address space, and the log of requests to code that is not in
  the repository as source. \<open>env\<close> holds what those pieces answer, and the addresses the
  linker chose.
\<close>

section \<open>Tasks\<close>

text \<open>\<open>tss_t\<close>, without its reserved fields and the port bitmap, which the code never names.\<close>

record tss =
  previous_task_link :: u16
  esp0 :: u32
  ss0 :: u16
  esp1 :: u32
  ss1 :: u16
  esp2 :: u32
  ss2 :: u16
  cr3 :: u32
  eip :: u32
  eflags :: u32
  eax :: u32
  ecx :: u32
  edx :: u32
  ebx :: u32
  esp :: u32
  ebp :: u32
  esi :: u32
  edi :: u32
  es :: u16
  cs :: u16
  ss :: u16
  ds :: u16
  fs :: u16
  gs :: u16
  ldt_selector :: u16
  iomap_base_addr :: u16

definition zero_tss :: tss where
  "zero_tss = \<lparr>previous_task_link = 0, esp0 = 0, ss0 = 0, esp1 = 0, ss1 = 0, esp2 = 0, ss2 = 0,
     cr3 = 0, eip = 0, eflags = 0, eax = 0, ecx = 0, edx = 0, ebx = 0, esp = 0, ebp = 0, esi = 0,
     edi = 0, es = 0, cs = 0, ss = 0, ds = 0, fs = 0, gs = 0, ldt_selector = 0, iomap_base_addr = 0\<rparr>"

text \<open>\<open>task_t\<close>; the contents of \<open>kernel_stack\<close> are never named by the code, only its address.\<close>

record task =
  pagedir :: "pde list"
  t_tss :: tss
  page_tables :: "u32 list"
  in_use :: bool
  t_id :: u32
  tss_selector :: u16
  virt_addr :: u32
  addr_space_size :: u32

definition zero_task :: task where
  "zero_task = \<lparr>pagedir = replicate PAGETABLES_IN_PD (pde_unpack 0), t_tss = zero_tss,
     page_tables = replicate PAGES_IN_PT 0, in_use = False, t_id = 0, tss_selector = 0,
     virt_addr = 0, addr_space_size = 0\<rparr>"

text \<open>
  The layout of \<open>task_t\<close> on IA-32: the TSS is aligned to 4 KB, the stack follows the
  selector, and the whole is padded to a multiple of 4 KB.
\<close>

definition offsetof_tss :: u32 where "offsetof_tss = 4096"
definition offsetof_id :: u32 where "offsetof_id = 16492"
definition offsetof_kernel_stack :: u32 where "offsetof_kernel_stack = 16498"
definition offsetof_virt_addr :: u32 where "offsetof_virt_addr = 82036"
definition sizeof_task :: u32 where "sizeof_task = 86016"
definition sizeof_kernel_stack :: u32 where "sizeof_kernel_stack = 65536"

lemmas task_layout = offsetof_tss_def offsetof_id_def offsetof_kernel_stack_def
  offsetof_virt_addr_def sizeof_task_def sizeof_kernel_stack_def

definition TASK_VIRT_ADDR :: u32 where "TASK_VIRT_ADDR = 0x40000000"
definition TASK_STACK_SIZE_MB :: u32 where "TASK_STACK_SIZE_MB = 2"
definition MAX_ARGS_LENGTH :: u32 where "MAX_ARGS_LENGTH = 50"

section \<open>The environment\<close>

record vbe_fb =
  fb_addr :: u32
  fb_size :: u32
  pitch_in_bytes :: u32
  pitch_in_pix :: u32
  fb_width :: u32
  fb_height :: u32
  fb_bpp :: u8

text \<open>What \<open>paging_alloc\<close> leaves behind, and the new contents of the mapped area.\<close>

record alloc_result =
  ar_pagedir :: "pde list"
  ar_tables :: "u32 list"
  ar_kmem :: mem
  ar_space :: mem
  ar_count :: u32

record env =
  gdt_address :: u32
  idt_address :: u32
  e_isr :: isr_labels
  kernel_start :: u32
  kernel_end :: u32
  shell_name :: u32                \<comment> \<open>the literal \<open>"shell.exe"\<close> of \<open>kernel_main\<close>\<close>
  tasks_addr :: u32
  initial_tss_addr :: u32
  initial_stack_addr :: u32
  tmp_argv_addr :: u32             \<comment> \<open>the local array \<open>tmp_argv\<close> of \<open>task_load\<close>\<close>
  e_modules :: modules
  e_fb :: vbe_fb
  e_getcolors :: "kevent list \<Rightarrow> term_colors"
  e_get_key :: "kevent list \<Rightarrow> u32"
  e_freq :: "kevent list \<Rightarrow> u32"
  e_ticks :: "kevent list \<Rightarrow> u32"
  e_paging_alloc :: "kevent list \<Rightarrow> mem \<Rightarrow> pde list \<Rightarrow> u32 list \<Rightarrow> u32 \<Rightarrow> u32 \<Rightarrow> privilege \<Rightarrow> alloc_result"
  e_paging_mmap :: "kevent list \<Rightarrow> mem \<Rightarrow> pde list \<Rightarrow> u32 \<Rightarrow> u32 \<Rightarrow> u32 \<Rightarrow> privilege \<Rightarrow> access \<Rightarrow> pde list \<times> mem"
  e_paging_init :: "kevent list \<Rightarrow> u32 \<Rightarrow> mem \<Rightarrow> mem \<times> u32" \<comment> \<open>and the page directory it loads\<close>
  e_frame_total_free :: "kevent list \<Rightarrow> u32"
  e_keyb_init :: "handler list \<Rightarrow> handler list"
  e_timer_init :: "handler list \<Rightarrow> handler list"
  e_setpix_result :: "kevent list \<Rightarrow> u32" \<comment> \<open>what \<open>eax\<close> holds after \<open>vbe_setpixel\<close>\<close>

definition task_addr :: "env \<Rightarrow> nat \<Rightarrow> u32" where
  "task_addr e i = tasks_addr e + of_nat i * sizeof_task"

definition pagedir_addr :: "env \<Rightarrow> nat \<Rightarrow> u32" where
  "pagedir_addr e i = task_addr e i"

definition tss_addr :: "env \<Rightarrow> nat \<Rightarrow> u32" where
  "tss_addr e i = task_addr e i + offsetof_tss"

section \<open>The kernel state\<close>

text \<open>
  The objects that have a field of their own here (the tables, the tasks, the counters) are not
  bytes of \<open>kmem\<close> as well: their addresses are outside its domain, so that a store through a
  stray pointer into one of them stops the run instead of going unnoticed.
\<close>

record kstate =
  kmem :: mem                      \<comment> \<open>the identity-mapped memory, in every address space\<close>
  uspace :: "nat \<Rightarrow> mem"            \<comment> \<open>the private area of each task slot\<close>
  cr3_reg :: u32
  tr_reg :: u16
  k_gdt :: "gdt_entry list"
  k_idt :: "idt_entry list"
  k_handlers :: "handler list"
  k_tasks :: "task list"
  task_id :: u32
  initial_tss :: tss
  pagedir_templ :: "pde list"
  k_mbi :: u32                     \<comment> \<open>the pointer \<open>mbi\<close> of \<^verbatim>\<open>multiboot.c\<close>\<close>
  klog :: "kevent list"

definition event :: "kevent \<Rightarrow> kstate \<Rightarrow> kstate" where
  "event ev s = s\<lparr>klog := klog s @ [ev]\<rparr>"

text \<open>The accessors of the boot information's address.\<close>

definition multiboot_set_info :: "u32 \<Rightarrow> kstate \<Rightarrow> kstate" where
  "multiboot_set_info mbi s = s\<lparr>k_mbi := mbi\<rparr>"

definition multiboot_get_info :: "kstate \<Rightarrow> u32" where
  "multiboot_get_info s = k_mbi s"

definition events :: "kevent list \<Rightarrow> kstate \<Rightarrow> kstate" where
  "events evs s = s\<lparr>klog := klog s @ evs\<rparr>"

text \<open>
  The address space in effect: that of the task whose page directory is loaded, its private
  area over the identity-mapped memory, or the identity mapping alone.
\<close>

definition active_space :: "env \<Rightarrow> kstate \<Rightarrow> nat option" where
  "active_space e s = find (\<lambda>i. pagedir_addr e i = cr3_reg s) [0..<MAX_TASK_COUNT]"

definition view :: "env \<Rightarrow> kstate \<Rightarrow> mem" where
  "view e s = (case active_space e s of None \<Rightarrow> kmem s | Some i \<Rightarrow> kmem s ++ uspace s i)"

definition set_view :: "env \<Rightarrow> mem \<Rightarrow> kstate \<Rightarrow> kstate" where
  "set_view e m s = (case active_space e s of
     None \<Rightarrow> s\<lparr>kmem := m\<rparr>
   | Some i \<Rightarrow> s\<lparr>kmem := (\<lambda>a. if a \<in> dom (uspace s i) then kmem s a else m a),
                 uspace := (uspace s)(i := m |` dom (uspace s i))\<rparr>)"

lemma active_space_set_view [simp]: "active_space e (set_view e m s) = active_space e s"
  by (simp add: active_space_def set_view_def split: option.splits)

lemma view_set_view: "dom m = dom (view e s) \<Longrightarrow> view e (set_view e m s) = m"
proof (cases "active_space e s")
  case (Some i)
  assume d: "dom m = dom (view e s)"
  have "view e (set_view e m s) a = m a" for a
  proof (cases "a \<in> dom (uspace s i)")
    case True
    then have "a \<in> dom (view e s)" by (simp add: view_def Some)
    with d have "a \<in> dom m" by simp
    with True Some show ?thesis by (auto simp: view_def set_view_def active_space_def map_add_def)
  next
    case False
    with Some show ?thesis
      by (auto simp: view_def set_view_def active_space_def map_add_def restrict_map_def)
  qed
  then show ?thesis by (rule ext)
qed (simp add: view_def set_view_def active_space_def)

lemma set_view_simps [simp]:
  "cr3_reg (set_view e m s) = cr3_reg s" "tr_reg (set_view e m s) = tr_reg s"
  "k_gdt (set_view e m s) = k_gdt s" "k_tasks (set_view e m s) = k_tasks s"
  "task_id (set_view e m s) = task_id s" "initial_tss (set_view e m s) = initial_tss s"
  "pagedir_templ (set_view e m s) = pagedir_templ s" "k_mbi (set_view e m s) = k_mbi s"
  "klog (set_view e m s) = klog s" "k_idt (set_view e m s) = k_idt s" "k_handlers (set_view e m s) = k_handlers s"
  by (simp_all add: set_view_def split: option.splits)

lemma event_simps [simp]:
  "kmem (event ev s) = kmem s" "uspace (event ev s) = uspace s" "cr3_reg (event ev s) = cr3_reg s"
  "tr_reg (event ev s) = tr_reg s" "k_gdt (event ev s) = k_gdt s" "k_tasks (event ev s) = k_tasks s"
  "task_id (event ev s) = task_id s" "initial_tss (event ev s) = initial_tss s"
  "pagedir_templ (event ev s) = pagedir_templ s" "k_mbi (event ev s) = k_mbi s"
  "klog (event ev s) = klog s @ [ev]" "k_idt (event ev s) = k_idt s" "k_handlers (event ev s) = k_handlers s"
  by (simp_all add: event_def)

lemma events_simps [simp]:
  "kmem (events evs s) = kmem s" "uspace (events evs s) = uspace s" "cr3_reg (events evs s) = cr3_reg s"
  "tr_reg (events evs s) = tr_reg s" "k_gdt (events evs s) = k_gdt s" "k_tasks (events evs s) = k_tasks s"
  "task_id (events evs s) = task_id s" "initial_tss (events evs s) = initial_tss s"
  "pagedir_templ (events evs s) = pagedir_templ s" "k_mbi (events evs s) = k_mbi s"
  "klog (events evs s) = klog s @ evs" "k_idt (events evs s) = k_idt s" "k_handlers (events evs s) = k_handlers s"
  by (simp_all add: events_def)

lemma view_events [simp]:
  "active_space e (event ev s) = active_space e s" "active_space e (events evs s) = active_space e s"
  "view e (event ev s) = view e s" "view e (events evs s) = view e s"
proof -
  show "active_space e (event ev s) = active_space e s" "active_space e (events evs s) = active_space e s"
    by (simp_all add: active_space_def)
  then show "view e (event ev s) = view e s" "view e (events evs s) = view e s"
    by (simp_all add: view_def split: option.split)
qed

section \<open>The places inside the tasks\<close>

text \<open>The numbers of the model are those of the structures as they are declared.\<close>

lemma task_structures_laid_out:
  "map (\<lambda>f. member_addr task_t f p) [''tss'', ''id'', ''kernel_stack'', ''virt_addr'']
     = map ((+) p) [offsetof_tss, offsetof_id, offsetof_kernel_stack, offsetof_virt_addr]"
  "of_int (c_size task_t) = sizeof_task" "of_int (c_size tss_t) = sizeof_tss"
  "map_of (c_offsets task_t) ''kernel_stack'' = Some (uint offsetof_kernel_stack, uint sizeof_kernel_stack)"
  using task_layout_c tss_layout(1)
  by (simp_all add: member_addr_def task_layout sizeof_tss_def)

end
