(* ===== verification/Task.thy ===== *)
theory Task
  imports Kstate CMem CStdio
begin

text \<open>
  Tasks (\<^verbatim>\<open>kernel/task/task.c\<close>): the pool of task slots, the creation and release of a
  task, loading a binary with its arguments, and executing it. A task is named by the index of
  its slot in \<open>tasks\<close>; a null pointer is \<open>None\<close>. The GDT entry of slot \<open>i\<close> is
  \<open>gdt_first_task_entry + i\<close>.
\<close>

definition gdt_initial_tss :: nat where "gdt_initial_tss = KERNEL_TSS_INDEX"
definition gdt_first_task_entry :: nat where "gdt_first_task_entry = KERNEL_TSS_INDEX + 1"

lemmas gdt_slots = gdt_initial_tss_def gdt_first_task_entry_def KERNEL_TSS_INDEX_def MAX_TASK_COUNT_def

text \<open>Running a memory operation in the address space in effect.\<close>

definition on_view :: "env \<Rightarrow> (mem \<Rightarrow> mem run) \<Rightarrow> kstate \<Rightarrow> kstate run" where
  "on_view e f s = rbind (f (view e s)) (\<lambda>m. ret (set_view e m s))"

text \<open>\<open>paging_load_pagedir\<close>\<close>

definition load_pagedir :: "u32 \<Rightarrow> kstate \<Rightarrow> kstate" where
  "load_pagedir a s = event (LoadPagedir a) (s\<lparr>cr3_reg := a\<rparr>)"

section \<open>Creating a task\<close>

text \<open>The loop that looks for a free slot, with its \<open>break\<close>.\<close>

definition first_free :: "kstate \<Rightarrow> nat option" where
  "first_free s = find (\<lambda>i. \<not> in_use (k_tasks s ! i)) [0..<MAX_TASK_COUNT]"

definition task_tss :: "env \<Rightarrow> nat \<Rightarrow> u32 \<Rightarrow> tss" where
  "task_tss e i total_mem_size = zero_tss\<lparr>
     cs := GDT_USER_CODE_SELECTOR,
     ds := GDT_USER_DATA_SELECTOR, es := GDT_USER_DATA_SELECTOR,
     gs := GDT_USER_DATA_SELECTOR, ss := GDT_USER_DATA_SELECTOR,
     cr3 := pagedir_addr e i,
     eflags := push_bit 9 1,
     ss0 := GDT_KERNEL_DATA_SELECTOR,
     esp0 := task_addr e i + offsetof_kernel_stack + sizeof_kernel_stack,
     eip := TASK_VIRT_ADDR,
     esp := TASK_VIRT_ADDR + total_mem_size, ebp := TASK_VIRT_ADDR + total_mem_size\<rparr>"

definition task_create :: "env \<Rightarrow> u32 \<Rightarrow> u32 \<Rightarrow> u32 \<Rightarrow> kstate \<Rightarrow> nat option \<times> kstate" where
  "task_create e filename mem_size args_size s = (case first_free s of
     None \<Rightarrow> (None, s)
   | Some i \<Rightarrow>
       let total_mem_size = TASK_STACK_SIZE_MB * 1024 * 1024 + args_size + mem_size;
           entry = gdt_first_task_entry + i;
           t = zero_task\<lparr>in_use := True, t_id := of_nat i,
                 tss_selector := ucast (gdt_entry_to_selector entry),
                 virt_addr := TASK_VIRT_ADDR,
                 addr_space_size := mem_size + args_size,
                 pagedir := fill 0 PAGETABLES_IN_PD (\<lambda>j. pagedir_templ s ! j) (pagedir zero_task),
                 t_tss := task_tss e i total_mem_size\<rparr>;
           size' = addr_space_size t + TASK_STACK_SIZE_MB * 1024 * 1024 + args_size;
           r = e_paging_alloc e (klog s) (kmem s) (pagedir t) (page_tables t) (virt_addr t) size' PRIVILEGE_USER
       in (Some i, events
            [PagingAlloc (virt_addr t) size' PRIVILEGE_USER,
             TermPrintf ''Allocated %dKB of RAM for task %d (\"%s\")\<newline>''
               [PInt (ar_count r * PAGE_SIZE div 1024), PInt (t_id t), PStr filename]]
            (s\<lparr>k_tasks := (k_tasks s)[i := t\<lparr>pagedir := ar_pagedir r, page_tables := ar_tables r\<rparr>],
               k_gdt := (k_gdt s)[entry := gdt_make_tss (tss_addr e i) DPL_KERNEL],
               task_id := task_id s + 1,
               kmem := ar_kmem r,
               uspace := (uspace s)(i := ar_space r)\<rparr>)))"

definition get_task_by_selector :: "u16 \<Rightarrow> nat option" where
  "get_task_by_selector sel =
     find (\<lambda>i. ucast sel = gdt_entry_to_selector (gdt_first_task_entry + i)) [0..<MAX_TASK_COUNT]"

section \<open>Releasing a task\<close>

text \<open>The inner loop: one \<open>frame_free\<close> per present entry of a page table.\<close>

primrec free_pages :: "mem \<Rightarrow> u32 \<Rightarrow> nat list \<Rightarrow> (kevent list) run" where
  "free_pages m p [] = ret []"
| "free_pages m p (i # is) = rbind (load32 m (p + 4 * of_nat i)) (\<lambda>w.
     rbind (free_pages m p is) (\<lambda>evs.
       ret (if present (pte_unpack w) = 1
            then FrameFree (FRAME_NB_TO_ADDR (ucast (frame_number (pte_unpack w)))) # evs else evs)))"

text \<open>The body of the outer loop for a page table whose first entry is present.\<close>

definition free_table :: "env \<Rightarrow> u32 \<Rightarrow> kstate \<Rightarrow> kstate run" where
  "free_table e p s = rbind (free_pages (view e s) p [0..<PAGES_IN_PT]) (\<lambda>evs.
     rbind (load32 (view e s) p) (\<lambda>w.
     rbind (on_view e (\<lambda>m. store32 m p (pte_pack (pte_unpack w\<lparr>present := 0\<rparr>))) (events evs s)) (\<lambda>s.
     rbind (load32 (view e s) p) (\<lambda>w.
     ret (event (FrameFree (FRAME_NB_TO_ADDR (ucast (frame_number (pte_unpack w))))) s)))))"

text \<open>The outer loop stops at a null pointer, not at the end of the array.\<close>

function task_free_loop :: "env \<Rightarrow> nat \<Rightarrow> nat \<Rightarrow> u32 \<Rightarrow> u32 \<Rightarrow> kstate \<Rightarrow> (u32 \<times> u32 \<times> kstate) run" where
  "task_free_loop e i pt frames pts s =
     (if PAGES_IN_PT \<le> pt then fail BadIndex
      else if page_tables (k_tasks s ! i) ! pt = 0 then ret (frames, pts, s)
      else rbind (load32 (view e s) (page_tables (k_tasks s ! i) ! pt)) (\<lambda>w.
        if present (pte_unpack w) = 1
        then rbind (free_table e (page_tables (k_tasks s ! i) ! pt) s)
               (task_free_loop e i (pt + 1) (frames + of_nat PAGES_IN_PT) (pts + 1))
        else task_free_loop e i (pt + 1) frames pts s))"
  by pat_completeness auto

termination task_free_loop
  by (relation "measure (\<lambda>(e, i, pt, frames, pts, s). PAGES_IN_PT - pt)") auto

declare task_free_loop.simps [simp del]

definition task_free :: "env \<Rightarrow> nat \<Rightarrow> kstate \<Rightarrow> kstate run" where
  "task_free e i s = rbind (task_free_loop e i 0 0 0 s) (\<lambda>(frames, pts, s).
     ret (event (TermPrintf ''Freed %dKB of RAM (%d page table(s), %d frames)\<newline>''
                   [PInt (frames * PAGE_SIZE div 1024), PInt pts, PInt frames])
            (s\<lparr>task_id := task_id s - 1,
               k_tasks := (k_tasks s)[i := (k_tasks s ! i)\<lparr>in_use := False\<rparr>]\<rparr>)))"

section \<open>Initialization\<close>

definition tasks_init :: "env \<Rightarrow> kstate \<Rightarrow> kstate run" where
  "tasks_init e s =
     (let s = s\<lparr>k_tasks := replicate MAX_TASK_COUNT zero_task,
                k_gdt := (k_gdt s)[gdt_initial_tss := gdt_make_tss (initial_tss_addr e) DPL_KERNEL],
                initial_tss := zero_tss\<lparr>ss0 := GDT_KERNEL_DATA_SELECTOR,
                  esp0 := initial_stack_addr e + sizeof_kernel_stack, cr3 := cr3_reg s\<rparr>\<rparr>
      in rbind (multiboot_get_RAM_in_KB (view e s) (multiboot_get_info s)) (\<lambda>kb.
      let ram = kb * 1024;
          (pd, m) = e_paging_mmap e (klog s) (kmem s) (pagedir_templ s) 0 0 ram PRIVILEGE_KERNEL ACCESS_READWRITE;
          s = events [PagingMmap 0 0 ram PRIVILEGE_KERNEL ACCESS_READWRITE, VbeGetFb]
                (s\<lparr>pagedir_templ := pd, kmem := m\<rparr>);
          fb = e_fb e;
          (pd, m) = e_paging_mmap e (klog s) (kmem s) (pagedir_templ s) (fb_addr fb) (fb_addr fb) (fb_size fb)
                      PRIVILEGE_USER ACCESS_READWRITE;
          sel = ucast (gdt_entry_to_selector gdt_initial_tss)
      in ret (events [PagingMmap (fb_addr fb) (fb_addr fb) (fb_size fb) PRIVILEGE_USER ACCESS_READWRITE,
                      Ltr sel, TermPutsLit ''Tasks initialized.\<newline>'']
                (s\<lparr>pagedir_templ := pd, kmem := m, tr_reg := sel\<rparr>))))"

section \<open>Loading and executing\<close>

definition MAX_ARGS :: nat where "MAX_ARGS = 5"

definition sizeof_tmp_argv :: nat where "sizeof_tmp_argv = MAX_ARGS * unat MAX_ARGS_LENGTH"

definition tmp_argv :: "env \<Rightarrow> nat \<Rightarrow> u32" where
  "tmp_argv e i = tmp_argv_addr e + of_nat i * MAX_ARGS_LENGTH"

text \<open>The indices \<open>for (int i = 0; i < argc; i++)\<close> runs through.\<close>

definition arg_indices :: "u32 \<Rightarrow> nat list" where
  "arg_indices argc = [0..<nat (sint argc)]"

text \<open>\<open>args_size += (strlen(argv[i]) * sizeof(char)) + 1\<close>\<close>

primrec args_size_loop :: "mem \<Rightarrow> u32 \<Rightarrow> nat list \<Rightarrow> u32 \<Rightarrow> u32 run" where
  "args_size_loop m argv [] args_size = ret args_size"
| "args_size_loop m argv (i # is) args_size =
     rbind (load32 m (argv + 4 * of_nat i)) (\<lambda>p. rbind (strlen m p) (\<lambda>len.
       args_size_loop m argv is (args_size + (len + 1))))"

text \<open>
  The copies into the local array \<open>tmp_argv\<close>. The stack around the array is not modelled: the
  run stops when the last byte written, \<open>tmp_argv[i][len]\<close>, is outside it.
\<close>

primrec copy_args :: "env \<Rightarrow> u32 \<Rightarrow> nat list \<Rightarrow> mem \<Rightarrow> mem run" where
  "copy_args e argv [] m = ret m"
| "copy_args e argv (i # is) m =
     rbind (load32 m (argv + 4 * of_nat i)) (\<lambda>p. rbind (strlen m p) (\<lambda>n.
       let len = n + 1 in
       if i * unat MAX_ARGS_LENGTH + unat len < sizeof_tmp_argv then
         rbind (strncpy m (tmp_argv e i) p len) (\<lambda>(_, m).
         rbind (store8 m (tmp_argv e i + len) 0) (copy_args e argv is))
       else fail BadIndex))"

text \<open>The copies behind \<open>argc\<close>, one after the other.\<close>

primrec place_args :: "env \<Rightarrow> u32 \<Rightarrow> nat list \<Rightarrow> u32 \<Rightarrow> mem \<Rightarrow> mem run" where
  "place_args e base [] offset m = ret m"
| "place_args e base (i # is) offset m =
     rbind (strlen m (tmp_argv e i)) (\<lambda>n.
       let args_len = n + 1 in
       rbind (memcpy m (base + offset) (tmp_argv e i) args_len)
         (place_args e base is (offset + args_len)))"

text \<open>The part of \<open>task_load\<close> between the two changes of page directory.\<close>

definition load_image :: "env \<Rightarrow> u32 \<Rightarrow> u32 \<Rightarrow> u32 \<Rightarrow> nat \<Rightarrow> kstate \<Rightarrow> kstate run" where
  "load_image e argc module_addr mod_size i s =
     (let pd = cr3_reg s;
          va = virt_addr (k_tasks s ! i);
          s = load_pagedir (pagedir_addr e i) s
      in rbind (on_view e (\<lambda>m. memcpy m va module_addr mod_size) s) (\<lambda>s.
         rbind (on_view e (\<lambda>m. store32 m (va + mod_size) argc) s) (\<lambda>s.
         rbind (on_view e (place_args e (va + mod_size + 4) (arg_indices argc) 0) s) (\<lambda>s.
         ret (load_pagedir pd s)))))"

text \<open>The part once the arguments are copied, with its two messages.\<close>

definition load_module :: "env \<Rightarrow> u32 \<Rightarrow> u32 \<Rightarrow> u32 \<Rightarrow> u32 \<Rightarrow> kstate \<Rightarrow> (nat option \<times> kstate) run" where
  "load_module e filename argc module_addr args_size s =
     (if module_addr = 0 then
        ret (None, event (TermPrintf ''Failed to load binary \"%s\".\<newline>'' [PStr filename]) s)
      else rbind (module_size_by_name (view e s) (e_modules e) filename) (\<lambda>mod_size.
        if mod_size = - 1 then
          ret (None, event (TermPrintf ''Empty binary \"%s\".\<newline>'' [PStr filename]) s)
        else case task_create e filename mod_size args_size s of
          (None, s) \<Rightarrow> ret (None, s)
        | (Some i, s) \<Rightarrow> rbind (load_image e argc module_addr mod_size i s) (\<lambda>s. ret (Some i, s))))"

definition task_load :: "env \<Rightarrow> u32 \<Rightarrow> u32 \<Rightarrow> u32 \<Rightarrow> kstate \<Rightarrow> (nat option \<times> kstate) run" where
  "task_load e filename argc argv s =
     rbind (module_addr_by_name (view e s) (e_modules e) filename) (\<lambda>module_addr.
     rbind (args_size_loop (view e s) argv (arg_indices argc) 4) (\<lambda>args_size.
     rbind (on_view e (copy_args e argv (arg_indices argc)) s)
       (load_module e filename argc module_addr args_size)))"

text \<open>
  \<open>task_switch\<close> leaves the kernel for the task and comes back when the task gives up the
  processor; what happens in between is the argument \<open>switch\<close>.
\<close>

definition task_exec :: "(u16 \<Rightarrow> kstate \<Rightarrow> kstate run) \<Rightarrow> env \<Rightarrow> u32 \<Rightarrow> u32 \<Rightarrow> u32 \<Rightarrow> kstate \<Rightarrow> (bool \<times> kstate) run" where
  "task_exec switch e filename argc argv s = rbind (task_load e filename argc argv s) (\<lambda>(t, s).
     case t of
       None \<Rightarrow> ret (False, s)
     | Some i \<Rightarrow>
         let cols = e_getcolors e (klog s);
             s = event TermGetColors s;
             sel = tss_selector (k_tasks s ! i)
         in rbind (switch sel (event (TaskSwitch sel) s)) (\<lambda>s.
            rbind (task_free e i (event (TermSetColors cols) s)) (\<lambda>s. ret (True, s))))"

definition get_task_args :: "kstate \<Rightarrow> nat \<Rightarrow> u32 \<Rightarrow> u32" where
  "get_task_args s i mod_size = virt_addr (k_tasks s ! i) + mod_size"

text \<open>The address of the field \<open>virt_addr\<close> of the task, or a null pointer.\<close>

definition get_task_addr_by_id :: "env \<Rightarrow> u32 \<Rightarrow> kstate \<Rightarrow> u32" where
  "get_task_addr_by_id e tid s =
     (case find (\<lambda>i. in_use (k_tasks s ! i) \<and> t_id (k_tasks s ! i) = tid) [0..<MAX_TASK_COUNT] of
        None \<Rightarrow> 0 | Some i \<Rightarrow> task_addr e i + offsetof_virt_addr)"


section \<open>A pool of slots\<close>

text \<open>
  What \<open>task_exec\<close> relies on: an acquisition takes the first free slot, or answers that there
  is none and changes nothing; a release gives back one slot and keeps the others.
\<close>

locale slot_pool =
  fixes used :: "'s \<Rightarrow> nat set"
    and ok :: "'s \<Rightarrow> bool"
    and cap :: nat
    and acquire :: "'a \<Rightarrow> 's \<Rightarrow> nat option \<times> 's"
    and release :: "nat \<Rightarrow> 's \<Rightarrow> 's run"
  assumes used_cap: "ok s \<Longrightarrow> used s \<subseteq> {..<cap}"
    and acquire_full: "ok s \<Longrightarrow> used s = {..<cap} \<Longrightarrow> acquire a s = (None, s)"
    and acquire_free: "ok s \<Longrightarrow> used s \<noteq> {..<cap} \<Longrightarrow>
      \<exists>s'. acquire a s = (Some (LEAST i. i \<notin> used s), s') \<and> ok s' \<and>
        used s' = insert (LEAST i. i \<notin> used s) (used s)"
    and release: "ok s \<Longrightarrow> i \<in> used s \<Longrightarrow> release i s = ret s' \<Longrightarrow> ok s' \<and> used s' = used s - {i}"
begin

lemma used_finite: "ok s \<Longrightarrow> finite (used s)"
  using used_cap finite_subset by blast

lemma used_card: "ok s \<Longrightarrow> card (used s) \<le> cap"
  using card_mono [OF finite_lessThan used_cap] by simp

lemma full_iff: "ok s \<Longrightarrow> used s = {..<cap} \<longleftrightarrow> card (used s) = cap"
  using used_cap [of s] card_subset_eq [of "{..<cap}" "used s"] by fastforce

lemma least_free: "ok s \<Longrightarrow> (LEAST i. i \<notin> used s) \<notin> used s"
  using ex_new_if_finite [OF infinite_UNIV_nat used_finite] by (rule LeastI_ex)

lemma acquire_SomeD:
  assumes "ok s" and "acquire a s = (Some i, s')"
  shows "i \<notin> used s \<and> i < cap \<and> ok s' \<and> used s' = insert i (used s)"
proof -
  have "used s \<noteq> {..<cap}" using assms acquire_full [of s a] by auto
  with assms acquire_free [of s a] have "i = (LEAST i. i \<notin> used s)" "ok s'" "used s' = insert i (used s)"
    by auto
  then show ?thesis
    using least_free [OF assms(1)] used_cap [of s'] by auto
qed

lemma acquire_NoneD: "ok s \<Longrightarrow> acquire a s = (None, s') \<Longrightarrow> used s = {..<cap} \<and> s' = s"
  using acquire_full [of s a] acquire_free [of s a] by (cases "used s = {..<cap}") auto

text \<open>Work done between an acquisition and its release leaves the pool as it was.\<close>

lemma bracket:
  assumes "ok s" and "acquire a s = (Some i, s1)"
    and "used s2 = used s1" and "ok s2" and "release i s2 = ret s3"
  shows "ok s3 \<and> used s3 = used s"
  using acquire_SomeD [OF assms(1,2)] release [OF assms(4) _ assms(5)] assms(3) by auto

text \<open>Acquisitions in a row take the slots in order, until none is left.\<close>

primrec acquires :: "'a list \<Rightarrow> 's \<Rightarrow> nat option list \<times> 's" where
  "acquires [] s = ([], s)"
| "acquires (a # as) s = (let (r, s) = acquire a s; (rs, s) = acquires as s in (r # rs, s))"

lemma acquires_in_order: "ok s \<Longrightarrow> used s = {..<k} \<Longrightarrow> k \<le> cap \<Longrightarrow>
    fst (acquires as s) = map (\<lambda>j. if k + j < cap then Some (k + j) else None) [0..<length as]"
proof (induction as arbitrary: s k)
  case (Cons a as)
  show ?case
  proof (cases "k = cap")
    case True
    with Cons.prems Cons.IH [of s k] acquire_full [of s a] show ?thesis
      by (intro nth_equalityI) (auto simp: split_beta nth_Cons' simp del: upt_Suc)
  next
    case False
    have least: "(LEAST i. i \<notin> used s) = k"
      using Cons.prems(2) by (intro Least_equality) auto
    have "used s \<noteq> {..<cap}" using False Cons.prems(2) by auto
    with acquire_free [OF Cons.prems(1)] least obtain s' where
      "acquire a s = (Some k, s')" "ok s'" "used s' = insert k (used s)"
      by metis
    with Cons.prems False Cons.IH [of s' "Suc k"] have
      "fst (acquires (a # as) s) = Some k # map (\<lambda>j. if Suc k + j < cap then Some (Suc k + j) else None) [0..<length as]"
      by (auto simp: split_beta lessThan_Suc)
    also have "\<dots> = map (\<lambda>j. if k + j < cap then Some (k + j) else None) [0..<length (a # as)]"
      using False Cons.prems(3) by (intro nth_equalityI) (auto simp: nth_Cons' simp del: upt_Suc)
    finally show ?thesis .
  qed
qed simp

end

section \<open>The invariant of the task subsystem\<close>

text \<open>
  A slot in use is numbered by its index, and its selector, GDT entry and page directory are
  its own. \<open>task_id\<close> counts the tasks alive, from 1.
\<close>

definition slot_ok :: "env \<Rightarrow> kstate \<Rightarrow> nat \<Rightarrow> bool" where
  "slot_ok e s i \<longleftrightarrow> (let t = k_tasks s ! i in in_use t \<longrightarrow>
     t_id t = of_nat i \<and>
     tss_selector t = ucast (gdt_entry_to_selector (gdt_first_task_entry + i)) \<and>
     k_gdt s ! (gdt_first_task_entry + i) = gdt_make_tss (tss_addr e i) DPL_KERNEL \<and>
     virt_addr t = TASK_VIRT_ADDR \<and>
     cr3 (t_tss t) = pagedir_addr e i)"

definition used_slots :: "kstate \<Rightarrow> nat set" where
  "used_slots s = Set.filter (\<lambda>i. in_use (k_tasks s ! i)) {..<MAX_TASK_COUNT}"

definition tasks_ok :: "env \<Rightarrow> kstate \<Rightarrow> bool" where
  "tasks_ok e s \<longleftrightarrow> length (k_tasks s) = MAX_TASK_COUNT \<and> length (k_gdt s) = gdt_len \<and>
     task_id s = of_nat (1 + card (used_slots s)) \<and> (\<forall>i < MAX_TASK_COUNT. slot_ok e s i)"

lemma used_slots_iff: "i \<in> used_slots s \<longleftrightarrow> i < MAX_TASK_COUNT \<and> in_use (k_tasks s ! i)"
  by (auto simp: used_slots_def)

lemma finite_used_slots [simp]: "finite (used_slots s)"
  by (simp add: used_slots_def)

text \<open>The parts of the state the invariant reads, and the operations that keep them.\<close>

definition same_tasks :: "kstate \<Rightarrow> kstate \<Rightarrow> bool" where
  "same_tasks s s' \<longleftrightarrow> k_tasks s' = k_tasks s \<and> k_gdt s' = k_gdt s \<and> task_id s' = task_id s"

lemma same_tasks_refl [simp]: "same_tasks s s"
  by (simp add: same_tasks_def)

lemma same_tasks_trans [trans]: "same_tasks s s' \<Longrightarrow> same_tasks s' s'' \<Longrightarrow> same_tasks s s''"
  by (simp add: same_tasks_def)

lemma same_tasks_ok: "same_tasks s s' \<Longrightarrow> tasks_ok e s' = tasks_ok e s"
  by (simp add: same_tasks_def tasks_ok_def slot_ok_def used_slots_def)

lemma same_tasks_used: "same_tasks s s' \<Longrightarrow> used_slots s' = used_slots s"
  by (simp add: same_tasks_def used_slots_def)

lemma same_tasks_on_view: "on_view e f s = ret s' \<Longrightarrow> same_tasks s s'"
  by (auto simp: on_view_def same_tasks_def rbind_eq_ret)

lemma same_tasks_simps [simp]:
  "same_tasks s (event ev s') = same_tasks s s'" "same_tasks s (events evs s') = same_tasks s s'"
  "same_tasks s (load_pagedir a s') = same_tasks s s'" "same_tasks s (set_view e m s') = same_tasks s s'"
  "same_tasks s (s'\<lparr>tr_reg := tr\<rparr>) = same_tasks s s'" "same_tasks (event ev s) s' = same_tasks s s'"
  by (simp_all add: same_tasks_def load_pagedir_def)

section \<open>The free slot\<close>

lemma find_upt_Some: "find P [0..<n] = Some i \<longleftrightarrow> i < n \<and> P i \<and> (\<forall>j < i. \<not> P j)"
  by (auto simp: find_Some_iff)

lemma find_upt_None: "find P [0..<n] = None \<longleftrightarrow> (\<forall>j < n. \<not> P j)"
  by (auto simp: find_None_iff)

lemma first_free_None: "first_free s = None \<longleftrightarrow> used_slots s = {..<MAX_TASK_COUNT}"
  by (auto simp: first_free_def find_upt_None used_slots_def)

lemma first_free_Some: "first_free s = Some i \<longleftrightarrow>
    i < MAX_TASK_COUNT \<and> i \<notin> used_slots s \<and> {..<i} \<subseteq> used_slots s"
  by (auto simp: first_free_def find_upt_Some used_slots_def)

lemma first_free_least: "first_free s = Some i \<Longrightarrow> i = (LEAST i. i \<notin> used_slots s)"
  unfolding first_free_Some by (rule Least_equality [symmetric]) (auto simp: subset_eq not_less [symmetric])

section \<open>Selectors of tasks\<close>

lemma task_selector_nat:
  "i < MAX_TASK_COUNT \<Longrightarrow> unat (gdt_entry_to_selector (gdt_first_task_entry + i)) = 8 * (6 + i)"
  by (subst selector_nat) (simp_all add: gdt_slots)

lemma task_selector_ucast:
  assumes "i < MAX_TASK_COUNT"
  shows "(ucast (ucast (gdt_entry_to_selector (gdt_first_task_entry + i)) :: u16) :: u32)
    = gdt_entry_to_selector (gdt_first_task_entry + i)"
proof (rule word_unat_eq_iff [THEN iffD2])
  show "unat (ucast (ucast (gdt_entry_to_selector (gdt_first_task_entry + i)) :: u16) :: u32)
      = unat (gdt_entry_to_selector (gdt_first_task_entry + i))"
    using assms task_selector_nat [OF assms]
    by (simp add: unsigned_ucast_eq take_bit_eq_mod unat_mod MAX_TASK_COUNT_def)
qed

lemma get_task_by_selector_iff: "get_task_by_selector sel = Some i \<longleftrightarrow>
    i < MAX_TASK_COUNT \<and> ucast sel = gdt_entry_to_selector (gdt_first_task_entry + i)"
proof -
  have "j = i" if "j < MAX_TASK_COUNT" "i < MAX_TASK_COUNT"
    "gdt_entry_to_selector (gdt_first_task_entry + j) = gdt_entry_to_selector (gdt_first_task_entry + i)" for j
    using that task_selector_nat [of i] task_selector_nat [of j] by simp
  then show ?thesis
    unfolding get_task_by_selector_def find_upt_Some by (metis nat_neq_iff less_trans)
qed

lemma get_task_of_task: "tasks_ok e s \<Longrightarrow> i \<in> used_slots s \<Longrightarrow>
    get_task_by_selector (tss_selector (k_tasks s ! i)) = Some i"
  by (auto simp: get_task_by_selector_iff tasks_ok_def slot_ok_def Let_def used_slots_iff task_selector_ucast)

section \<open>Every operation keeps the invariant\<close>

lemma slot_ok_same: "k_tasks s' ! i = k_tasks s ! i \<Longrightarrow>
    k_gdt s' ! (gdt_first_task_entry + i) = k_gdt s ! (gdt_first_task_entry + i) \<Longrightarrow> slot_ok e s' i = slot_ok e s i"
  by (simp add: slot_ok_def)

lemma task_create_none: "first_free s = None \<Longrightarrow> task_create e f n a s = (None, s)"
  by (simp add: task_create_def)

lemma task_create_some:
  assumes "tasks_ok e s" and "first_free s = Some i" and "task_create e f n a s = (r, s')"
  shows "r = Some i \<and> tasks_ok e s' \<and> used_slots s' = insert i (used_slots s)"
proof -
  have len: "length (k_tasks s) = MAX_TASK_COUNT" "length (k_gdt s) = gdt_len"
    and i: "i < MAX_TASK_COUNT" "i \<notin> used_slots s"
    using assms by (simp_all add: tasks_ok_def first_free_Some)
  have r: "r = Some i" and len': "length (k_tasks s') = MAX_TASK_COUNT" "length (k_gdt s') = gdt_len"
    and id: "task_id s' = task_id s + 1"
    and other: "j \<noteq> i \<Longrightarrow> k_tasks s' ! j = k_tasks s ! j"
      "j \<noteq> i \<Longrightarrow> k_gdt s' ! (gdt_first_task_entry + j) = k_gdt s ! (gdt_first_task_entry + j)"
    and new: "in_use (k_tasks s' ! i)" "slot_ok e s' i" for j
    using assms(2,3) len i
    by (auto simp: task_create_def Let_def slot_ok_def task_tss_def gdt_len_def gdt_slots)
  have used: "used_slots s' = insert i (used_slots s)"
  proof (rule set_eqI)
    show "j \<in> used_slots s' \<longleftrightarrow> j \<in> insert i (used_slots s)" for j
      using new(1) i other(1) [of j] by (cases "j = i") (simp_all add: used_slots_iff)
  qed
  have "slot_ok e s' j" if "j < MAX_TASK_COUNT" for j
    using new(2) that assms(1) slot_ok_same [OF other, of j] by (cases "j = i") (simp_all add: tasks_ok_def)
  then have "tasks_ok e s'"
    using assms(1) len' id i by (simp add: tasks_ok_def used)
  with r used show ?thesis by simp
qed

lemma same_tasks_free_table: "free_table e p s = ret s' \<Longrightarrow> same_tasks s s'"
proof -
  assume "free_table e p s = ret s'"
  then obtain evs f s1 where "on_view e f (events evs s) = ret s1" "same_tasks s1 s'"
    by (auto simp: free_table_def rbind_eq_ret)
  moreover have "same_tasks s (events evs s)" by simp
  ultimately show ?thesis using same_tasks_on_view same_tasks_trans by blast
qed

text \<open>What every page table's release keeps, the loop over them keeps.\<close>

lemma task_free_loop_rel:
  assumes "\<And>s. R s s" and "\<And>s s' s''. R s s' \<Longrightarrow> R s' s'' \<Longrightarrow> R s s''"
    and "\<And>p s s'. free_table e p s = ret s' \<Longrightarrow> R s s'"
  shows "task_free_loop e i pt n k s = ret (n', k', s') \<Longrightarrow> R s s'"
proof (induction "PAGES_IN_PT - pt" arbitrary: pt n k s)
  case 0
  then show ?case by (subst (asm) task_free_loop.simps) simp
next
  case (Suc d)
  let ?p = "page_tables (k_tasks s ! i) ! pt"
  note run = Suc.prems [unfolded task_free_loop.simps [of e i pt]]
  note IH = Suc.hyps(1) [of "pt + 1"]
  have d: "d = PAGES_IN_PT - (pt + 1)" using Suc.hyps(2) by simp
  show ?case
  proof (cases "PAGES_IN_PT \<le> pt \<or> ?p = 0")
    case True
    with run assms(1) show ?thesis by (auto split: if_splits)
  next
    case False
    with run obtain w where w: "load32 (view e s) ?p = ret w" by (auto simp: rbind_eq_ret)
    show ?thesis
    proof (cases "present (pte_unpack w) = 1")
      case True
      with run w False obtain s1 where s1: "free_table e ?p s = ret s1"
        "task_free_loop e i (pt + 1) (n + of_nat PAGES_IN_PT) (k + 1) s1 = ret (n', k', s')"
        by (auto simp: rbind_eq_ret)
      show ?thesis by (rule assms(2) [OF assms(3) [OF s1(1)] IH [OF d s1(2)]])
    next
      case absent: False
      with run w False have "task_free_loop e i (pt + 1) n k s = ret (n', k', s')" by auto
      then show ?thesis by (rule IH [OF d])
    qed
  qed
qed

lemma same_tasks_free_loop: "task_free_loop e i pt n k s = ret (n', k', s') \<Longrightarrow> same_tasks s s'"
  by (rule task_free_loop_rel [of same_tasks])
     (auto intro: same_tasks_trans same_tasks_free_table)

lemma task_free_keeps:
  assumes "tasks_ok e s" and "i \<in> used_slots s" and "task_free e i s = ret s'"
  shows "tasks_ok e s' \<and> used_slots s' = used_slots s - {i}"
proof -
  obtain n k s1 ev where s1: "task_free_loop e i 0 0 0 s = ret (n, k, s1)"
    and s': "s' = event ev (s1\<lparr>task_id := task_id s1 - 1,
      k_tasks := (k_tasks s1)[i := (k_tasks s1 ! i)\<lparr>in_use := False\<rparr>]\<rparr>)"
    using assms(3) by (auto simp: task_free_def rbind_eq_ret)
  have keep: "same_tasks s s1" by (rule same_tasks_free_loop [OF s1])
  with assms have ok: "tasks_ok e s1" and i: "i \<in> used_slots s1" and u: "used_slots s1 = used_slots s"
    by (simp_all add: same_tasks_ok same_tasks_used)
  have len: "length (k_tasks s1) = MAX_TASK_COUNT" using ok by (simp add: tasks_ok_def)
  have lt: "i < MAX_TASK_COUNT" using i by (simp add: used_slots_iff)
  have used: "used_slots s' = used_slots s1 - {i}"
  proof (rule set_eqI)
    show "j \<in> used_slots s' \<longleftrightarrow> j \<in> used_slots s1 - {i}" for j
      using len lt by (cases "j = i") (simp_all add: s' used_slots_iff)
  qed
  have "slot_ok e s' j" if "j < MAX_TASK_COUNT" for j
    using that ok len lt by (cases "j = i") (simp_all add: s' slot_ok_def tasks_ok_def)
  moreover have "card (used_slots s1) = Suc (card (used_slots s'))"
    using card_Suc_Diff1 [OF finite_used_slots i] by (simp add: used)
  ultimately have "tasks_ok e s'"
    using ok len by (simp add: tasks_ok_def s')
  with used u show ?thesis by simp
qed

interpretation pool: slot_pool used_slots "tasks_ok e" MAX_TASK_COUNT
    "\<lambda>(name, n, a) s. task_create e name n a s" "task_free e"
proof unfold_locales
  fix s s' :: kstate and a :: "u32 \<times> u32 \<times> u32" and i
  obtain f n x where a: "a = (f, n, x)" by (cases a)
  show "tasks_ok e s \<Longrightarrow> used_slots s \<subseteq> {..<MAX_TASK_COUNT}"
    by (auto simp: used_slots_iff)
  show "tasks_ok e s \<Longrightarrow> used_slots s = {..<MAX_TASK_COUNT} \<Longrightarrow>
      (case a of (f, n, x) \<Rightarrow> task_create e f n x) s = (None, s)"
    by (simp add: a task_create_none first_free_None)
  show "tasks_ok e s \<Longrightarrow> i \<in> used_slots s \<Longrightarrow> task_free e i s = ret s' \<Longrightarrow>
      tasks_ok e s' \<and> used_slots s' = used_slots s - {i}"
    by (rule task_free_keeps)
  assume "tasks_ok e s" "used_slots s \<noteq> {..<MAX_TASK_COUNT}"
  then obtain j where j: "first_free s = Some j" using first_free_None by fastforce
  obtain r s' where r: "task_create e f n x s = (r, s')" by force
  from task_create_some [OF \<open>tasks_ok e s\<close> j r] first_free_least [OF j] r
  show "\<exists>s'. (case a of (f, n, x) \<Rightarrow> task_create e f n x) s = (Some (LEAST i. i \<notin> used_slots s), s') \<and>
      tasks_ok e s' \<and> used_slots s' = insert (LEAST i. i \<notin> used_slots s) (used_slots s)"
    by (auto simp: a)
qed

section \<open>Loading and executing keep the invariant\<close>

lemma task_create_cases:
  assumes "tasks_ok e s" and "task_create e f n a s = (r, s')"
  obtains (Full) "r = None" "s' = s" "used_slots s = {..<MAX_TASK_COUNT}"
  | (Slot) i where "r = Some i" "i \<notin> used_slots s" "tasks_ok e s'" "used_slots s' = insert i (used_slots s)"
proof (cases r)
  case None
  with assms pool.acquire_NoneD [of e s "(f, n, a)"] Full show ?thesis by simp
next
  case (Some i)
  with assms pool.acquire_SomeD [of e s "(f, n, a)" i s'] Slot show ?thesis by simp
qed

lemma same_tasks_load_image: "load_image e argc ma sz i s = ret s' \<Longrightarrow> same_tasks s s'"
  by (auto simp: load_image_def Let_def rbind_eq_ret same_tasks_def load_pagedir_def dest!: same_tasks_on_view)

lemma task_load_cases:
  assumes "tasks_ok e s" and "task_load e f argc argv s = ret (r, s')"
  obtains (Fails) "r = None" "same_tasks s s'"
  | (Loads) i where "r = Some i" "i \<notin> used_slots s" "tasks_ok e s'" "used_slots s' = insert i (used_slots s)"
proof -
  obtain ma n s1 where s1: "on_view e (copy_args e argv (arg_indices argc)) s = ret s1"
    and rest: "load_module e f argc ma n s1 = ret (r, s')"
    using assms(2) by (auto simp: task_load_def rbind_eq_ret)
  note k1 = same_tasks_on_view [OF s1]
  show ?thesis
  proof (cases "r = None \<and> same_tasks s s'")
    case True
    with Fails show ?thesis by simp
  next
    case False
    with rest k1 obtain sz where sz: "ma \<noteq> 0" "sz \<noteq> - 1"
      "module_size_by_name (view e s1) (e_modules e) f = ret sz"
      by (auto simp: load_module_def rbind_eq_ret split: if_splits)
    obtain q s2 where q: "task_create e f sz n s1 = (q, s2)" by force
    have "tasks_ok e s1" using assms(1) k1 by (simp add: same_tasks_ok)
    from this q show ?thesis
    proof (cases rule: task_create_cases)
      case Full
      with rest sz q k1 Fails show ?thesis by (auto simp: load_module_def)
    next
      case (Slot i)
      with rest sz q have "r = Some i" "same_tasks s2 s'"
        by (auto simp: load_module_def rbind_eq_ret dest: same_tasks_load_image)
      with Slot Loads k1 show ?thesis
        by (simp add: same_tasks_ok same_tasks_used)
    qed
  qed
qed

text \<open>
  If what runs in between keeps the invariant and the tasks alive, so does \<open>task_exec\<close>: the
  slot it took is free again, and \<open>task_id\<close> is back to its value.
\<close>

lemma task_exec_keeps:
  assumes "tasks_ok e s" and "task_exec sw e f argc argv s = ret (b, s')"
    and "\<And>sel t t'. tasks_ok e t \<Longrightarrow> sw sel t = ret t' \<Longrightarrow> tasks_ok e t' \<and> used_slots t' = used_slots t"
  shows "tasks_ok e s' \<and> used_slots s' = used_slots s"
proof -
  obtain r s1 where l: "task_load e f argc argv s = ret (r, s1)"
    and rest: "(case r of None \<Rightarrow> ret (False, s1)
       | Some i \<Rightarrow> let cols = e_getcolors e (klog s1);
             s = event TermGetColors s1;
             sel = tss_selector (k_tasks s ! i)
         in rbind (sw sel (event (TaskSwitch sel) s)) (\<lambda>s.
            rbind (task_free e i (event (TermSetColors cols) s)) (\<lambda>s. ret (True, s)))) = ret (b, s')"
    using assms(2) by (auto simp: task_exec_def rbind_eq_ret)
  from assms(1) l show ?thesis
  proof (cases rule: task_load_cases)
    case Fails
    with rest assms(1) show ?thesis by (simp add: same_tasks_ok same_tasks_used)
  next
    case (Loads i)
    have ev: "tasks_ok e (event ev t) = tasks_ok e t" "used_slots (event ev t) = used_slots t" for ev t
      using same_tasks_ok [of t "event ev t"] same_tasks_used [of t "event ev t"] by simp_all
    from Loads rest obtain sel cols s2 where
      "sw sel (event (TaskSwitch sel) (event TermGetColors s1)) = ret s2"
      "task_free e i (event (TermSetColors cols) s2) = ret s'"
      by (auto simp: Let_def rbind_eq_ret)
    with Loads assms(3) [of "event (TaskSwitch sel) (event TermGetColors s1)" sel s2]
      task_free_keeps [of e "event (TermSetColors cols) s2" i s'] show ?thesis
      by (auto simp: ev)
  qed
qed

section \<open>The machine is given back\<close>

text \<open>
  The registers that select the address space and the task, the interrupt tables, and the
  descriptors below those of the tasks.
\<close>

definition same_machine :: "kstate \<Rightarrow> kstate \<Rightarrow> bool" where
  "same_machine s s' \<longleftrightarrow> cr3_reg s' = cr3_reg s \<and> tr_reg s' = tr_reg s \<and> k_idt s' = k_idt s \<and>
     k_handlers s' = k_handlers s \<and> (\<forall>j < gdt_first_task_entry. k_gdt s' ! j = k_gdt s ! j)"

lemma same_machine_refl [simp]: "same_machine s s"
  by (simp add: same_machine_def)

lemma same_machine_trans: "same_machine s s' \<Longrightarrow> same_machine s' s'' \<Longrightarrow> same_machine s s''"
  by (simp add: same_machine_def)

lemma same_machine_on_view: "on_view e f s = ret s' \<Longrightarrow> same_machine s s'"
  by (auto simp: on_view_def rbind_eq_ret same_machine_def)

lemma same_machine_simps [simp]:
  "same_machine s (event ev s') = same_machine s s'" "same_machine s (events evs s') = same_machine s s'"
  "same_machine (event ev s) s' = same_machine s s'" "same_machine (events evs s) s' = same_machine s s'"
  by (simp_all add: same_machine_def)

lemma same_machine_create: "task_create e f n a s = (r, s') \<Longrightarrow> same_machine s s'"
  by (auto simp: task_create_def Let_def same_machine_def split: option.splits)

lemma same_machine_free: "task_free e i s = ret s' \<Longrightarrow> same_machine s s'"
proof -
  have table: "free_table e p s = ret s' \<Longrightarrow> same_machine s s'" for p s s'
    by (auto simp: free_table_def rbind_eq_ret dest!: same_machine_on_view)
  assume "task_free e i s = ret s'"
  then obtain n k s1 where "task_free_loop e i 0 0 0 s = ret (n, k, s1)" "same_machine s1 s'"
    by (auto simp: task_free_def rbind_eq_ret same_machine_def)
  moreover have "same_machine s s1"
    by (rule task_free_loop_rel [of same_machine, OF _ _ table \<open>task_free_loop e i 0 0 0 s = ret (n, k, s1)\<close>])
       (auto intro: same_machine_trans)
  ultimately show ?thesis by (blast intro: same_machine_trans)
qed

text \<open>\<open>task_load\<close> puts back the page directory it found.\<close>

lemma same_machine_load_image: "load_image e argc ma sz i s = ret s' \<Longrightarrow> same_machine s s'"
  by (auto simp: load_image_def Let_def rbind_eq_ret same_machine_def load_pagedir_def dest!: same_machine_on_view)

lemma same_machine_load_module: "load_module e f argc ma n s = ret (r, s') \<Longrightarrow> same_machine s s'"
proof (cases "ma = 0")
  case False
  assume run: "load_module e f argc ma n s = ret (r, s')"
  with False obtain sz where sz: "module_size_by_name (view e s) (e_modules e) f = ret sz"
    by (auto simp: load_module_def rbind_eq_ret)
  obtain q s2 where q: "task_create e f sz n s = (q, s2)" by force
  have "same_machine s2 s'" if "sz \<noteq> - 1"
    using run False sz q that
    by (cases q) (auto simp: load_module_def rbind_eq_ret dest: same_machine_load_image)
  with run False sz same_machine_create [OF q] show ?thesis
    by (cases "sz = - 1") (auto simp: load_module_def intro: same_machine_trans)
qed (simp add: load_module_def, auto)

lemma same_machine_load: "task_load e f argc argv s = ret (r, s') \<Longrightarrow> same_machine s s'"
  by (auto simp: task_load_def rbind_eq_ret dest!: same_machine_on_view same_machine_load_module intro: same_machine_trans)

lemma same_machine_exec:
  assumes "task_exec sw e f argc argv s = ret (b, s')" and "\<And>sel t t'. sw sel t = ret t' \<Longrightarrow> same_machine t t'"
  shows "same_machine s s'"
proof -
  obtain r s1 where l: "task_load e f argc argv s = ret (r, s1)"
    and rest: "(case r of None \<Rightarrow> ret (False, s1)
       | Some i \<Rightarrow> let cols = e_getcolors e (klog s1);
             s = event TermGetColors s1;
             sel = tss_selector (k_tasks s ! i)
         in rbind (sw sel (event (TaskSwitch sel) s)) (\<lambda>s.
            rbind (task_free e i (event (TermSetColors cols) s)) (\<lambda>s. ret (True, s)))) = ret (b, s')"
    using assms(1) by (auto simp: task_exec_def rbind_eq_ret)
  from rest have "same_machine s1 s'"
    by (auto simp: Let_def rbind_eq_ret split: option.splits dest!: assms(2) same_machine_free intro: same_machine_trans)
  with same_machine_load [OF l] show ?thesis by (rule same_machine_trans)
qed

text \<open>The task a load answers with is the one \<open>task_create\<close> made.\<close>

lemma task_load_created:
  assumes "task_load e f argc argv s = ret (Some i, s')"
  shows "\<exists>s1 n a s2. same_tasks s s1 \<and> task_create e f n a s1 = (Some i, s2) \<and> k_tasks s' = k_tasks s2"
proof -
  obtain ma a s1 where s1: "on_view e (copy_args e argv (arg_indices argc)) s = ret s1"
    and rest: "load_module e f argc ma a s1 = ret (Some i, s')"
    using assms by (auto simp: task_load_def rbind_eq_ret)
  from rest obtain sz where sz: "ma \<noteq> 0" "sz \<noteq> - 1" "module_size_by_name (view e s1) (e_modules e) f = ret sz"
    by (auto simp: load_module_def rbind_eq_ret split: if_splits)
  obtain q s2 where q: "task_create e f sz a s1 = (q, s2)" by force
  from rest sz q have "q = Some i" "same_tasks s2 s'"
    by (auto simp: load_module_def rbind_eq_ret dest: same_tasks_load_image split: option.splits)
  with q same_tasks_on_view [OF s1] show ?thesis unfolding same_tasks_def by metis
qed

lemma selector_of_slot: "tasks_ok e s \<Longrightarrow> i \<in> used_slots s \<Longrightarrow>
    tss_selector (k_tasks s ! i) = ucast (gdt_entry_to_selector (gdt_first_task_entry + i))"
  by (simp add: tasks_ok_def slot_ok_def Let_def used_slots_iff)

text \<open>A row of creations.\<close>

fun task_creates :: "env \<Rightarrow> (u32 \<times> u32 \<times> u32) list \<Rightarrow> kstate \<Rightarrow> nat option list \<times> kstate" where
  "task_creates e [] s = ([], s)"
| "task_creates e ((f, n, a) # xs) s =
     (let (r, s) = task_create e f n a s; (rs, s) = task_creates e xs s in (r # rs, s))"

lemma task_creates_acquires: "task_creates e xs s = pool.acquires e xs s"
  by (induction e xs s rule: task_creates.induct) (auto simp: pool.acquires.simps split: prod.split)

section \<open>Properties\<close>

text \<open>C17: Creations in a row take the slots in order, from the first; the ninth is refused, and a
  refused creation changes nothing.\<close>

theorem task_creates_in_order:
  assumes "tasks_ok e s" and "used_slots s = {}"
  shows "fst (task_creates e xs s) = map (\<lambda>j. if j < 8 then Some j else None) [0..<length xs]"
  using pool.acquires_in_order [OF assms(1), of 0 xs] assms(2)
  by (simp add: task_creates_acquires MAX_TASK_COUNT_def)

text \<open>C16: A created task is wired up consistently: its selector leads to a descriptor of its own TSS and
  back to its slot, the TSS starts it at its entry point with the stack at the top of its memory,
  in user segments, on its own page directory, and what the allocator is asked for covers that
  memory.\<close>

theorem task_create_wires:
  assumes "tasks_ok e s" and "first_free s = Some i"
  shows "case task_create e f n a s of (r, s') \<Rightarrow> r = Some i \<and>
    (let t = k_tasks s' ! i; d = k_gdt s' ! sel_index (tss_selector t) in
     sel_index (tss_selector t) = 6 + i \<and> get_task_by_selector (tss_selector t) = Some i \<and>
     desc_base d = tss_addr e i \<and> desc_limit d = sizeof_tss - 1 \<and> g_dpl d = 0 \<and>
     eip (t_tss t) = virt_addr t \<and> esp (t_tss t) = virt_addr t + (n + a + 0x200000) \<and>
     cr3 (t_tss t) = pagedir_addr e i \<and> sel_rpl (cs (t_tss t)) = 3 \<and> sel_rpl (ss (t_tss t)) = 3 \<and>
     PagingAlloc (virt_addr t) (n + a + 0x200000 + a) PRIVILEGE_USER \<in> set (klog s'))"
proof -
  obtain r s' where c: "task_create e f n a s = (r, s')" by force
  have k: "r = Some i" "tasks_ok e s'" "i \<in> used_slots s'"
    using task_create_some [OF assms c] by simp_all
  have i: "i < MAX_TASK_COUNT" using assms(2) by (simp add: first_free_Some)
  have sel: "tss_selector (k_tasks s' ! i) = ucast (gdt_entry_to_selector (6 + i))"
    using selector_of_slot [OF k(2,3)] by (simp add: gdt_slots)
  have idx: "sel_index (tss_selector (k_tasks s' ! i)) = 6 + i"
    using i by (simp only: sel selector_index MAX_TASK_COUNT_def)
  have d: "k_gdt s' ! (6 + i) = gdt_make_tss (tss_addr e i) DPL_KERNEL"
    using k(2,3) by (simp add: tasks_ok_def slot_ok_def Let_def used_slots_iff gdt_slots)
  have len: "length (k_tasks s) = MAX_TASK_COUNT" using assms(1) by (simp add: tasks_ok_def)
  have t: "t_tss (k_tasks s' ! i) = task_tss e i (TASK_STACK_SIZE_MB * 1024 * 1024 + a + n)"
    "virt_addr (k_tasks s' ! i) = TASK_VIRT_ADDR"
    "PagingAlloc TASK_VIRT_ADDR (n + a + TASK_STACK_SIZE_MB * 1024 * 1024 + a) PRIVILEGE_USER \<in> set (klog s')"
    using c assms(2) i len by (auto simp: task_create_def Let_def)
  have w: "esp (task_tss e i x) = TASK_VIRT_ADDR + x" "eip (task_tss e i x) = TASK_VIRT_ADDR"
    "cr3 (task_tss e i x) = pagedir_addr e i" "sel_rpl (cs (task_tss e i x)) = 3" "sel_rpl (ss (task_tss e i x)) = 3" for x
    by (simp_all add: task_tss_def descriptor_consts sel_rpl_def)
  have m: "TASK_STACK_SIZE_MB * 1024 * 1024 = 0x200000" by (simp add: TASK_STACK_SIZE_MB_def)
  have "ucast DPL_KERNEL = (0 :: 2 word)" by (simp add: descriptor_consts)
  moreover have "0x200000 + a + n = n + a + 0x200000" by (simp add: ac_simps)
  ultimately show ?thesis
    using get_task_of_task [OF k(2,3)] t(3) k(1)
    unfolding c prod.case Let_def idx d gdt_make_tss_desc t(1,2) w m by simp
qed

end
