(* ===== verification/TaskLoad.thy ===== *)
theory TaskLoad
  imports Task
begin

text \<open>
  What \<open>task_load\<close> leaves in the address space of the new task: the image of the module, the
  number of arguments behind it, and the arguments one after the other.
\<close>

section \<open>The arguments of a program\<close>

text \<open>The strings \<open>args\<close> behind the pointers \<open>ps\<close> of the array at \<open>argv\<close>.\<close>

definition args_at :: "mem \<Rightarrow> u32 \<Rightarrow> u32 list \<Rightarrow> u8 list list \<Rightarrow> bool" where
  "args_at m argv ps args \<longleftrightarrow> length ps = length args \<and>
     (\<forall>j < length args. block m (argv + 4 * of_nat j) (split32 (ps ! j)) \<and> cstr m (ps ! j) (args ! j))"

definition args_region :: "u32 \<Rightarrow> u32 list \<Rightarrow> u8 list list \<Rightarrow> u32 set" where
  "args_region argv ps args = (\<Union>j < length args.
     addrs (argv + 4 * of_nat j) 4 \<union> addrs (ps ! j) (Suc (length (args ! j))))"

text \<open>What the task finds behind its image: the strings with their terminators.\<close>

definition packed :: "u8 list list \<Rightarrow> u8 list" where
  "packed args = concat (map (\<lambda>x. x @ [0]) args)"

lemma packed_simps [simp]: "packed [] = []" "packed (x # xs) = x @ 0 # packed xs"
  "packed (xs @ ys) = packed xs @ packed ys"
  by (simp_all add: packed_def)

lemma args_at_agree: "\<forall>a \<in> args_region argv ps args. m' a = m a \<Longrightarrow>
    args_at m argv ps args \<Longrightarrow> args_at m' argv ps args"
  unfolding args_at_def args_region_def
  using block_agree [of _ "split32 _" m' m] cstr_agree [of _ _ m' m] by (fastforce simp del: addrs_Suc)

lemma arg_load: "args_at m argv ps args \<Longrightarrow> j < length args \<Longrightarrow>
    load32 m (argv + 4 * of_nat j) = ret (ps ! j) \<and> strlen m (ps ! j) = ret (of_nat (length (args ! j)))"
  by (simp add: args_at_def load32_split strlen_cstr)

lemma drop_nth: "k < length xs \<Longrightarrow> drop k xs = xs ! k # drop (Suc k) xs"
  by (simp add: Cons_nth_drop_Suc)

lemma args_size_loop_packed:
  assumes "args_at m argv ps args" and "k \<le> length args"
  shows "args_size_loop m argv [k..<length args] n = ret (n + of_nat (length (packed (drop k args))))"
  using assms(2)
proof (induction "length args - k" arbitrary: k n)
  case (Suc d)
  then have k: "k < length args" by simp
  with Suc.hyps(1) [of "Suc k"] Suc.hyps(2) arg_load [OF assms(1) k] show ?case
    by (simp add: upt_conv_Cons drop_nth algebra_simps)
qed simp

subsection \<open>The local copies\<close>

definition scratch :: "env \<Rightarrow> u32 set" where
  "scratch e = addrs (tmp_argv_addr e) sizeof_tmp_argv"

lemma sizeof_tmp_argv [simp]: "sizeof_tmp_argv = 250"
  by (simp add: sizeof_tmp_argv_def MAX_ARGS_def MAX_ARGS_LENGTH_def)

lemma row_addr: "tmp_argv e j + of_nat a = tmp_argv_addr e + of_nat (50 * j + a)"
  by (simp add: tmp_argv_def MAX_ARGS_LENGTH_def algebra_simps)

lemma row_scratch: "j < 5 \<Longrightarrow> n \<le> 50 \<Longrightarrow> addrs (tmp_argv e j) n \<subseteq> scratch e"
  unfolding addrs_def scratch_def sizeof_tmp_argv row_addr by (intro image_subsetI imageI) simp

lemma rows_disjoint: "j < 5 \<Longrightarrow> k < 5 \<Longrightarrow> j \<noteq> k \<Longrightarrow>
    addrs (tmp_argv e j) 50 \<inter> addrs (tmp_argv e k) 50 = {}"
proof -
  assume jk: "j < 5" "k < 5" "j \<noteq> k"
  have "50 * j + a \<noteq> 50 * k + b" if "a < 50" "b < 50" for a b
    using jk that by arith
  then have "tmp_argv e j + of_nat a \<noteq> tmp_argv e k + of_nat b" if "a < 50" "b < 50" for a b
    using that jk by (simp add: row_addr del: of_nat_add of_nat_mult) (subst of_nat_u32_inj; auto)
  then show ?thesis by (auto simp: addrs_def)
qed

lemma copy_step:
  assumes "cstr m p xs" and "length xs \<le> 48" and "k < 5"
    and "scratch e \<subseteq> dom m" and "scratch e \<inter> addrs p (Suc (length xs)) = {}"
  obtains m1 m2 where "strncpy m (tmp_argv e k) p (of_nat (length xs) + 1) = ret (tmp_argv e k, m1)"
    "store8 m1 (tmp_argv e k + (of_nat (length xs) + 1)) 0 = ret m2"
    "cstr m2 (tmp_argv e k) xs" "dom m2 = dom m" "\<forall>a. a \<notin> addrs (tmp_argv e k) 50 \<longrightarrow> m2 a = m a"
proof -
  let ?t = "tmp_argv e k" and ?n = "of_nat (length xs) + 1 :: u32"
  have n: "unat ?n = Suc (length xs)"
    using assms(2) by (simp add: unat_word_ariths unat_of_nat)
  have sub: "addrs ?t j \<subseteq> scratch e" if "j \<le> 50" for j
    using that assms(3) row_scratch by simp
  define m1 where "m1 = upd m ?t (xs @ [0])"
  have d1: "dom m1 = dom m"
    using sub [of "Suc (length xs)"] assms(2,4) by (auto simp: m1_def dom_upd simp del: addrs_Suc)
  have e1: "strncpy m ?t p ?n = ret (?t, m1)"
    unfolding strncpy_def m1_def using assms n sub [of "Suc (length xs)"]
    by (subst strncpy_loop_correct [OF assms(1)]) (auto simp: mapped_def simp del: addrs_Suc)
  have c1: "cstr m1 ?t xs"
    using assms(1,2) upd_cstr [of xs m ?t] by (simp add: m1_def cstr_block)
  have last: "?t + ?n \<in> addrs ?t 50"
    using mem_addrs [of "Suc (length xs)" 50 ?t] assms(2) by (simp add: add.commute)
  with sub [of 50] assms(4) d1 have e2: "store8 m1 (?t + ?n) 0 = ret (m1(?t + ?n \<mapsto> 0))"
    by (intro store8_dom) auto
  have "?t + of_nat (Suc (length xs)) \<notin> addrs ?t (Suc (length xs))"
    using assms(2) by (intro end_notin_addrs) simp
  then have "cstr (m1(?t + ?n \<mapsto> 0)) ?t xs"
    using c1 by (subst cstr_agree) (auto simp: add.commute simp del: addrs_Suc)
  moreover have "addrs ?t (Suc (length xs)) \<subseteq> addrs ?t 50"
    using assms(2) by (intro addrs_mono) simp
  then have "a \<notin> addrs ?t 50 \<longrightarrow> (m1(?t + ?n \<mapsto> 0)) a = m a" for a
    using last upd_outside [of a ?t "xs @ [0]" m] by (auto simp: m1_def simp del: addrs_Suc)
  moreover have "dom (m1(?t + ?n \<mapsto> 0)) = dom m"
    using e2 sub [of 50] last assms(4) d1 by auto
  ultimately show ?thesis using that e1 e2 by blast
qed
lemma copy_args_correct:
  assumes "args_at m argv ps args" and "length args \<le> 5" and "\<forall>x \<in> set args. length x \<le> 48"
    and "scratch e \<subseteq> dom m" and "scratch e \<inter> args_region argv ps args = {}"
    and "k \<le> length args" and "\<forall>j < k. cstr m (tmp_argv e j) (args ! j)"
  shows "\<exists>m'. copy_args e argv [k..<length args] m = ret m' \<and>
    (\<forall>j < length args. cstr m' (tmp_argv e j) (args ! j)) \<and>
    dom m' = dom m \<and> (\<forall>a. a \<notin> scratch e \<longrightarrow> m' a = m a)"
  using assms(1,4,6,7)
proof (induction "length args - k" arbitrary: k m)
  case 0
  then show ?case by auto
next
  case (Suc d)
  then have k: "k < length args" "k < 5" using assms(2) by simp_all
  let ?t = "tmp_argv e k" and ?xs = "args ! k"
  have len: "length ?xs \<le> 48" using assms(3) k by simp
  have c: "cstr m (ps ! k) ?xs" using Suc.prems(1) k by (simp add: args_at_def)
  have dis: "scratch e \<inter> addrs (ps ! k) (Suc (length ?xs)) = {}"
    using assms(5) k by (auto simp: args_region_def simp del: addrs_Suc)
  obtain m1 m2 where m2: "strncpy m ?t (ps ! k) (of_nat (length ?xs) + 1) = ret (?t, m1)"
    "store8 m1 (?t + (of_nat (length ?xs) + 1)) 0 = ret m2"
    "cstr m2 ?t ?xs" "dom m2 = dom m" "\<forall>a. a \<notin> addrs ?t 50 \<longrightarrow> m2 a = m a"
    by (rule copy_step [OF c len k(2) Suc.prems(2) dis])
  have n: "unat (of_nat (length ?xs) + 1 :: u32) = Suc (length ?xs)"
    using len by (simp add: unat_word_ariths unat_of_nat)
  have step: "copy_args e argv [k..<length args] m = copy_args e argv [Suc k..<length args] m2"
    using m2 n len k arg_load [OF Suc.prems(1) k(1)]
    by (simp add: upt_conv_Cons MAX_ARGS_LENGTH_def)
  have out: "a \<notin> scratch e \<Longrightarrow> m2 a = m a" for a
    using m2(5) row_scratch [OF k(2), of 50 e] by auto
  have "args_at m2 argv ps args"
    using out assms(5) by (intro args_at_agree [OF _ Suc.prems(1)]) auto
  moreover have "cstr m2 (tmp_argv e j) (args ! j)" if "j < Suc k" for j
  proof (cases "j = k")
    case False
    then have j: "j < k" "j < 5" "length (args ! j) \<le> 48" using that k assms(3) by simp_all
    then have "addrs (tmp_argv e j) (Suc (length (args ! j))) \<inter> addrs ?t 50 = {}"
      using rows_disjoint [of j k e] addrs_mono [of "Suc (length (args ! j))" 50 "tmp_argv e j"] k by fastforce
    with m2(5) have "cstr m2 (tmp_argv e j) (args ! j) = cstr m (tmp_argv e j) (args ! j)"
      by (intro cstr_agree) auto
    with j Suc.prems(4) show ?thesis by simp
  qed (use m2 in simp)
  ultimately have "\<exists>m'. copy_args e argv [Suc k..<length args] m2 = ret m' \<and>
    (\<forall>j < length args. cstr m' (tmp_argv e j) (args ! j)) \<and>
    dom m' = dom m2 \<and> (\<forall>a. a \<notin> scratch e \<longrightarrow> m' a = m2 a)"
    using Suc.hyps(2) Suc.prems(2) m2(4) k by (intro Suc.hyps(1)) auto
  then show ?case
    using step m2(4) out by auto
qed

subsection \<open>The copies in the task\<close>

lemma place_args_correct:
  assumes "\<forall>j < length args. cstr m (tmp_argv e j) (args ! j) \<and>
      addrs (tmp_argv e j) (Suc (length (args ! j))) \<inter> addrs base (length (packed args)) = {}"
    and "mapped m base (length (packed args))" and "length (packed args) < 2 ^ 32"
  shows "place_args e base [0..<length args] 0 m = ret (upd m base (packed args))"
proof -
  have "place_args e base [k..<length args] (of_nat (length (packed (take k args)))) (upd m base (packed (take k args)))
      = ret (upd m base (packed args))" if "k \<le> length args" for k
    using that
  proof (induction "length args - k" arbitrary: k)
    case (Suc d)
    then have k: "k < length args" by simp
    let ?done = "packed (take k args)" and ?xs = "args ! k"
    let ?m = "upd m base ?done" and ?d = "base + of_nat (length ?done)"
    have split: "packed args = ?done @ ?xs @ 0 # packed (drop (Suc k) args)"
      using k by (metis append_take_drop_id drop_nth packed_simps(2,3))
    have tk: "packed (take (Suc k) args) = ?done @ ?xs @ [0]"
      using k by (simp add: take_Suc_conv_app_nth)
    have sub: "addrs base (length ?done) \<subseteq> addrs base (length (packed args))"
      "addrs ?d (Suc (length ?xs)) \<subseteq> addrs base (length (packed args))"
      using addrs_split [of base "length ?done" "Suc (length ?xs)"]
        addrs_mono [of "length ?done + Suc (length ?xs)" "length (packed args)" base]
      by (auto simp: split simp del: addrs_Suc)
    have c: "cstr ?m (tmp_argv e k) ?xs"
    proof -
      have "?m a = m a" if "a \<in> addrs (tmp_argv e k) (Suc (length ?xs))" for a
        using that assms(1) k sub(1) by (intro upd_outside) blast
      with assms(1) k show ?thesis using cstr_agree [of "tmp_argv e k" ?xs ?m m] by simp
    qed
    have "length ?xs < 2 ^ 32 - 1" using assms(3) by (simp add: split)
    then have n: "unat (of_nat (length ?xs) + 1 :: u32) = Suc (length ?xs)"
      by (simp add: unat_word_ariths unat_of_nat)
    have "memcpy ?m ?d (tmp_argv e k) (of_nat (length ?xs) + 1) = ret (upd ?m ?d (?xs @ [0]))"
      using c n assms(1,2) k sub(2)
      by (intro memcpy_upd no_clobber_disjoint)
         (auto simp: cstr_block mapped_def dom_upd simp del: addrs_Suc)
    with c strlen_cstr [OF c] Suc.hyps(1) [of "Suc k"] Suc.hyps(2) k show ?case
      by (simp add: upt_conv_Cons tk upd_append ac_simps)
  qed simp
  from this [of 0] show ?thesis by simp
qed

section \<open>What \<open>task_load\<close> leaves in the new address space\<close>

lemma sizeof_task_nat: "i < MAX_TASK_COUNT \<Longrightarrow> of_nat i * sizeof_task = (of_nat (i * 86016) :: u32)"
  by (simp add: sizeof_task_def)

lemma task_addr_inject: "i < MAX_TASK_COUNT \<Longrightarrow> j < MAX_TASK_COUNT \<Longrightarrow>
    task_addr e i = task_addr e j \<longleftrightarrow> i = j"
proof
  assume i: "i < MAX_TASK_COUNT" "j < MAX_TASK_COUNT" and "task_addr e i = task_addr e j"
  then have "(of_nat (i * 86016) :: u32) = of_nat (j * 86016)"
    by (simp add: task_addr_def sizeof_task_nat del: of_nat_mult)
  with i show "i = j"
    by (subst (asm) of_nat_u32_inj) (simp_all add: MAX_TASK_COUNT_def)
qed simp

lemma active_load_pagedir:
  assumes "i < MAX_TASK_COUNT"
  shows "active_space e (load_pagedir (pagedir_addr e i) s) = Some i"
proof -
  have "pagedir_addr e j = pagedir_addr e i \<longleftrightarrow> j = i" if "j < MAX_TASK_COUNT" for j
    using task_addr_inject [OF that assms] by (simp add: pagedir_addr_def)
  with assms show ?thesis
    by (auto simp: active_space_def load_pagedir_def find_upt_Some)
qed

lemma restrict_upd: "x \<in> A \<Longrightarrow> (m(x \<mapsto> y)) |` A = (m |` A)(x \<mapsto> y)"
  by (auto simp: restrict_map_def fun_eq_iff)

lemma set_view_upd:
  assumes "active_space e s = Some i" and "addrs p (length xs) \<subseteq> dom (uspace s i)"
  shows "set_view e (upd (view e s) p xs) s = s\<lparr>uspace := (uspace s)(i := upd (uspace s i) p xs)\<rparr>"
proof -
  let ?u = "uspace s i" and ?m = "upd (view e s) p xs"
  have v: "view e s = kmem s ++ ?u" by (simp add: view_def assms(1))
  have "?m a = kmem s a" if "a \<notin> dom ?u" for a
    using that assms(2) upd_outside [of a p xs "view e s"] by (auto simp: v map_add_dom_app_simps)
  then have km: "(\<lambda>a. if a \<in> dom ?u then kmem s a else ?m a) = kmem s" by auto
  have "(upd m p xs |` A) = upd (m |` A) p xs" if "addrs p (length xs) \<subseteq> A" for m :: mem and A
    using that by (induction xs arbitrary: m p) (simp_all add: restrict_upd)
  moreover have "(kmem s ++ ?u) |` dom ?u = ?u"
    by (auto simp: fun_eq_iff restrict_map_def map_add_def split: option.splits)
  ultimately have "?m |` dom ?u = upd ?u p xs" using assms(2) by (simp add: v)
  with km assms(1) show ?thesis by (simp add: set_view_def)
qed

lemma on_view_upd:
  assumes "active_space e s = Some i" and "addrs p (length xs) \<subseteq> dom (uspace s i)"
    and "f (view e s) = ret (upd (view e s) p xs)"
  shows "on_view e f s = ret (s\<lparr>uspace := (uspace s)(i := upd (uspace s i) p xs)\<rparr>)"
  by (simp add: on_view_def assms(3) set_view_upd [OF assms(1,2)])

text \<open>Memory that no task area hides, and an allocation that keeps its hands off it.\<close>

definition kernel_region :: "kstate \<Rightarrow> u32 set \<Rightarrow> bool" where
  "kernel_region s A \<longleftrightarrow> (\<forall>i < MAX_TASK_COUNT. A \<inter> dom (uspace s i) = {})"

definition alloc_ok :: "env \<Rightarrow> u32 set \<Rightarrow> u32 \<Rightarrow> bool" where
  "alloc_ok e K sz \<longleftrightarrow> (\<forall>log km pd tb.
     let r = e_paging_alloc e log km pd tb TASK_VIRT_ADDR sz PRIVILEGE_USER
     in addrs TASK_VIRT_ADDR (unat sz) \<subseteq> dom (ar_space r) \<and>
        (\<forall>a \<in> K. ar_kmem r a = km a \<and> a \<notin> dom (ar_space r)))"

lemma view_kernel_region: "kernel_region s A \<Longrightarrow> a \<in> A \<Longrightarrow> view e s a = kmem s a"
  by (force simp: kernel_region_def view_def active_space_def find_upt_Some map_add_def
      split: option.splits)

lemma kmem_set_view: "kernel_region s A \<Longrightarrow> a \<in> A \<Longrightarrow> kmem (set_view e m s) a = m a"
  by (force simp: kernel_region_def set_view_def active_space_def find_upt_Some split: option.splits)

text \<open>The size \<open>task_create\<close> asks for counts the arguments twice.\<close>

definition alloc_size :: "u32 \<Rightarrow> u32 \<Rightarrow> u32" where
  "alloc_size sz args_size = sz + args_size + TASK_STACK_SIZE_MB * 1024 * 1024 + args_size"

lemma task_create_alloc:
  assumes "first_free s = Some i" and "length (k_tasks s) = MAX_TASK_COUNT"
    and "alloc_ok e K (alloc_size sz n)" and "task_create e f sz n s = (r, s')"
  shows "r = Some i \<and> virt_addr (k_tasks s' ! i) = TASK_VIRT_ADDR \<and> cr3_reg s' = cr3_reg s \<and>
    addrs TASK_VIRT_ADDR (unat (alloc_size sz n)) \<subseteq> dom (uspace s' i) \<and>
    (\<forall>a \<in> K. kmem s' a = kmem s a \<and> a \<notin> dom (uspace s' i)) \<and>
    (\<forall>j. j \<noteq> i \<longrightarrow> uspace s' j = uspace s j)"
proof -
  have i: "i < length (k_tasks s)" using assms(1,2) by (simp add: first_free_Some)
  let ?pd = "fill 0 PAGETABLES_IN_PD (\<lambda>j. pagedir_templ s ! j) (pagedir zero_task)"
  define r' where "r' = e_paging_alloc e (klog s) (kmem s) ?pd (page_tables zero_task) TASK_VIRT_ADDR
    (alloc_size sz n) PRIVILEGE_USER"
  have "addrs TASK_VIRT_ADDR (unat (alloc_size sz n)) \<subseteq> dom (ar_space r')"
    "\<forall>a \<in> K. ar_kmem r' a = kmem s a \<and> a \<notin> dom (ar_space r')"
    using assms(3) unfolding alloc_ok_def Let_def r'_def by blast+
  moreover have "r = Some i" "kmem s' = ar_kmem r'" "uspace s' = (uspace s)(i := ar_space r')"
    "cr3_reg s' = cr3_reg s" "virt_addr (k_tasks s' ! i) = TASK_VIRT_ADDR"
    using assms(4) i unfolding task_create_def assms(1) by (auto simp: Let_def r'_def alloc_size_def)
  ultimately show ?thesis by simp
qed

lemma kernel_region_keeps:
  "kernel_region s A \<Longrightarrow> A \<inter> dom (uspace s' i) = {} \<Longrightarrow> \<forall>j. j \<noteq> i \<longrightarrow> uspace s' j = uspace s j \<Longrightarrow>
    kernel_region s' A"
  unfolding kernel_region_def by (metis (full_types))

text \<open>The three copies of \<open>task_load\<close>, once the address space of slot \<open>i\<close> is in effect.\<close>

lemma view_active: "active_space e s = Some i \<Longrightarrow> view e s = kmem s ++ uspace s i"
  by (simp add: view_def)

lemma active_uspace: "active_space e (s\<lparr>uspace := u\<rparr>) = active_space e s"
  by (simp add: active_space_def)

lemma dom_upd_within: "addrs p (length xs) \<subseteq> dom m \<Longrightarrow> dom (upd m p xs) = dom m"
  by (auto simp: dom_upd)

lemma place_code:
  assumes "active_space e s = Some i" and "addrs ma (length code) \<inter> dom (uspace s i) = {}"
    and "block (kmem s) ma code" and "length code = unat sz" and "addrs va (length code) \<subseteq> dom (uspace s i)"
  shows "on_view e (\<lambda>m. memcpy m va ma sz) s = ret (s\<lparr>uspace := (uspace s)(i := upd (uspace s i) va code)\<rparr>)"
proof -
  have "\<forall>a \<in> addrs ma (length code). view e s a = kmem s a"
    unfolding view_active [OF assms(1)] using assms(2) by (intro ballI map_add_dom_app_simps(3)) auto
  with assms(3) have "block (view e s) ma code" by (subst block_agree)
  moreover have "mapped (view e s) va (length code)" "addrs va (length code) \<inter> addrs ma (length code) = {}"
    using assms(2,5) unfolding mapped_def view_active [OF assms(1)] dom_map_add by blast+
  ultimately have "memcpy (view e s) va ma sz = ret (upd (view e s) va code)"
    using assms(4) by (intro memcpy_upd no_clobber_disjoint) simp_all
  then show ?thesis using assms(5) by (intro on_view_upd [OF assms(1)])
qed

lemma place_rows:
  assumes "active_space e s = Some i" and "length args \<le> 5" and "\<forall>x \<in> set args. length x \<le> 48"
    and "scratch e \<inter> dom (uspace s i) = {}" and "\<forall>j < length args. cstr (kmem s) (tmp_argv e j) (args ! j)"
    and "addrs base (length (packed args)) \<subseteq> dom (uspace s i)" and "length (packed args) < 2 ^ 32"
  shows "on_view e (place_args e base [0..<length args] 0) s
    = ret (s\<lparr>uspace := (uspace s)(i := upd (uspace s i) base (packed args))\<rparr>)"
proof -
  have rows: "cstr (view e s) (tmp_argv e j) (args ! j) \<and>
      addrs (tmp_argv e j) (Suc (length (args ! j))) \<inter> addrs base (length (packed args)) = {}"
    if "j < length args" for j
  proof -
    have r: "addrs (tmp_argv e j) (Suc (length (args ! j))) \<subseteq> scratch e"
      using that assms(2) bspec [OF assms(3) nth_mem [OF that]] by (intro row_scratch) simp_all
    then have "cstr (view e s) (tmp_argv e j) (args ! j) = cstr (kmem s) (tmp_argv e j) (args ! j)"
      unfolding view_active [OF assms(1)] using assms(4) by (intro cstr_agree ballI map_add_dom_app_simps(3)) blast+
    moreover have "addrs (tmp_argv e j) (Suc (length (args ! j))) \<inter> addrs base (length (packed args)) = {}"
      using assms(4,6) r by blast
    ultimately show ?thesis using assms(5) that by simp
  qed
  have "mapped (view e s) base (length (packed args))"
    unfolding mapped_def view_active [OF assms(1)] using assms(6) by auto
  with rows assms(7) have "place_args e base [0..<length args] 0 (view e s) = ret (upd (view e s) base (packed args))"
    by (intro place_args_correct) simp_all
  then show ?thesis using assms(6) by (intro on_view_upd [OF assms(1)])
qed

lemma place_image:
  assumes "active_space e s = Some i" and "length args \<le> 5" and "\<forall>x \<in> set args. length x \<le> 48"
    and "scratch e \<union> addrs ma (length code) \<subseteq> - dom (uspace s i)"
    and "block (kmem s) ma code" and "length code = unat sz"
    and "\<forall>j < length args. cstr (kmem s) (tmp_argv e j) (args ! j)"
    and "addrs va (length (code @ split32 argc @ packed args)) \<subseteq> dom (uspace s i)"
    and "length (code @ split32 argc @ packed args) < 2 ^ 32"
  shows "rbind (on_view e (\<lambda>m. memcpy m va ma sz) s) (\<lambda>s.
      rbind (on_view e (\<lambda>m. store32 m (va + sz) argc) s) (\<lambda>s.
      on_view e (place_args e (va + sz + 4) [0..<length args] 0) s))
    = ret (s\<lparr>uspace := (uspace s)(i := upd (uspace s i) va (code @ split32 argc @ packed args))\<rparr>)"
proof -
  let ?all = "code @ split32 argc @ packed args"
  let ?s1 = "s\<lparr>uspace := (uspace s)(i := upd (uspace s i) va code)\<rparr>"
  let ?s2 = "s\<lparr>uspace := (uspace s)(i := upd (uspace s i) va (code @ split32 argc))\<rparr>"
  have sub: "addrs va (length code) \<subseteq> dom (uspace s i)" "addrs (va + sz) 4 \<subseteq> dom (uspace s i)"
    "addrs (va + sz + 4) (length (packed args)) \<subseteq> dom (uspace s i)"
    "addrs va (length (code @ split32 argc)) \<subseteq> dom (uspace s i)"
    using assms(8) addrs_split [of va "length code" "4 + length (packed args)"]
      addrs_split [of "va + sz" 4 "length (packed args)"] assms(6)
      addrs_mono [of "length (code @ split32 argc)" "length ?all" va] by auto
  have code: "of_nat (length code) = sz" using assms(6) by simp
  have 1: "on_view e (\<lambda>m. memcpy m va ma sz) s = ret ?s1"
    using assms(4) sub(1) by (intro place_code assms) auto
  have "mapped (view e ?s1) (va + sz) 4"
    using assms(1) sub dom_upd_within [OF sub(1)] by (simp add: mapped_def view_def active_uspace) blast
  then have 2: "on_view e (\<lambda>m. store32 m (va + sz) argc) ?s1 = ret ?s2"
    using assms(1) sub dom_upd_within [OF sub(1)]
      on_view_upd [of e ?s1 i "va + sz" "split32 argc" "\<lambda>m. store32 m (va + sz) argc"]
    by (simp add: active_uspace store32_upd upd_append code)
  have 3: "on_view e (place_args e (va + sz + 4) [0..<length args] 0) ?s2 =
      ret (s\<lparr>uspace := (uspace s)(i := upd (uspace s i) va ?all)\<rparr>)"
    using assms sub(3) dom_upd_within [OF sub(4)] place_rows [of e ?s2 i args "va + sz + 4"]
    by (simp add: active_uspace upd_append code add.assoc) blast
  from 1 2 3 show ?thesis by simp
qed

lemma packed_length: "\<forall>x \<in> set args. length x \<le> 48 \<Longrightarrow> length (packed args) \<le> 49 * length args"
  by (induction args) auto

lemma alloc_size_nat:
  assumes "length code < 2 ^ 31" and "unat sz = length code" and "length ps \<le> 245"
  shows "unat (alloc_size sz (4 + of_nat (length ps))) = length code + 2 * (4 + length ps) + 2097152"
proof -
  have "sz = of_nat (length code)" using arg_cong [OF assms(2), of "of_nat :: nat \<Rightarrow> u32"] by simp
  then have "alloc_size sz (4 + of_nat (length ps)) = of_nat (length code + 2 * (4 + length ps) + 2097152)"
    by (simp add: alloc_size_def TASK_STACK_SIZE_MB_def algebra_simps)
  with assms show ?thesis by (simp add: unat_of_nat del: of_nat_add of_nat_mult)
qed

text \<open>The memory the lookup of a module reads: the name and every command line.\<close>

definition lookup_region :: "modules \<Rightarrow> u8 list list \<Rightarrow> u32 \<Rightarrow> u8 list \<Rightarrow> u32 set" where
  "lookup_region md names f fn = addrs f (Suc (length fn)) \<union>
     (\<Union>k < length names. addrs (module_cmdline md (of_nat k)) (Suc (length (names ! k))))"

lemma lookup_agree:
  assumes "\<forall>a \<in> lookup_region md names f fn. m' a = m a" and "module_names m md names" and "cstr m f fn"
  shows "module_names m' md names \<and> cstr m' f fn"
proof -
  have "cstr m' f fn = cstr m f fn"
    using assms(1) unfolding lookup_region_def by (intro cstr_agree) blast
  moreover have "cstr m' (module_cmdline md (of_nat k)) (names ! k) = cstr m (module_cmdline md (of_nat k)) (names ! k)"
    if "k < length names" for k
    using assms(1) that unfolding lookup_region_def by (intro cstr_agree) blast
  ultimately show ?thesis
    using assms(2,3) by (simp add: module_names_def)
qed

text \<open>
  The conditions of a load: the module is among the boot modules, the arguments fit the local
  array, and neither the array, the image nor the lookup overlap what is written.
\<close>

definition load_ready :: "env \<Rightarrow> kstate \<Rightarrow> u32 \<Rightarrow> u8 list \<Rightarrow> u8 list list \<Rightarrow> nat \<Rightarrow> u8 list \<Rightarrow>
    u32 \<Rightarrow> u32 list \<Rightarrow> u8 list list \<Rightarrow> bool" where
  "load_ready e s f fn names k code argv ps args \<longleftrightarrow>
     (let v = view e s; md = e_modules e; ma = module_first_address md (of_nat k);
          K = scratch e \<union> addrs ma (length code) in
      module_names v md names \<and> cstr v f fn \<and> index_of fn names = Some k \<and>
      ma \<noteq> 0 \<and> unat (module_size md (of_nat k)) = length code \<and> length code < 2 ^ 31 \<and>
      block (kmem s) ma code \<and>
      args_at v argv ps args \<and> length args \<le> MAX_ARGS \<and> (\<forall>x \<in> set args. length x \<le> 48) \<and>
      scratch e \<subseteq> dom (kmem s) \<and> kernel_region s K \<and>
      scratch e \<inter> (addrs ma (length code) \<union> args_region argv ps args \<union> lookup_region md names f fn) = {} \<and>
      alloc_ok e K (alloc_size (module_size md (of_nat k)) (4 + of_nat (length (packed args)))))"

text \<open>The arguments in the local array, which lies in kernel memory outside every task.\<close>

lemma copies_arguments:
  assumes "args_at (view e s) argv ps args" and "length args \<le> 5" and "\<forall>x \<in> set args. length x \<le> 48"
    and "scratch e \<subseteq> dom (kmem s)" and "kernel_region s K" and "scratch e \<subseteq> K"
    and "scratch e \<inter> args_region argv ps args = {}"
  shows "\<exists>s1. on_view e (copy_args e argv [0..<length args]) s = ret s1 \<and>
    (\<forall>j < length args. cstr (kmem s1) (tmp_argv e j) (args ! j)) \<and>
    (\<forall>a. a \<notin> scratch e \<longrightarrow> view e s1 a = view e s a) \<and> (\<forall>a \<in> K. kmem s1 a = view e s1 a) \<and>
    k_tasks s1 = k_tasks s \<and> cr3_reg s1 = cr3_reg s"
proof -
  have "scratch e \<subseteq> dom (view e s)" using assms(4,6) view_kernel_region [OF assms(5), of _ e] by fastforce
  with copy_args_correct [OF assms(1-3) _ assms(7), of 0] obtain m' where
    m': "copy_args e argv [0..<length args] (view e s) = ret m'"
    "\<forall>j < length args. cstr m' (tmp_argv e j) (args ! j)"
    "dom m' = dom (view e s)" "\<forall>a. a \<notin> scratch e \<longrightarrow> m' a = view e s a"
    by auto
  let ?s1 = "set_view e m' s"
  have v: "view e ?s1 = m'" using m'(3) by (rule view_set_view)
  have k: "\<forall>a \<in> K. kmem ?s1 a = m' a" using kmem_set_view [OF assms(5)] by simp
  have "cstr (kmem ?s1) (tmp_argv e j) (args ! j)" if j: "j < length args" for j
  proof -
    have "addrs (tmp_argv e j) (Suc (length (args ! j))) \<subseteq> scratch e"
      using j assms(2) bspec [OF assms(3) nth_mem [OF j]] by (intro row_scratch) simp_all
    then have "cstr (kmem ?s1) (tmp_argv e j) (args ! j) = cstr m' (tmp_argv e j) (args ! j)"
      using k assms(6) by (intro cstr_agree) blast
    with m'(2) j show ?thesis by simp
  qed
  with m'(1,4) v k show ?thesis by (intro exI [of _ ?s1]) (simp add: on_view_def)
qed

text \<open>\<open>task_load\<close> as the sequence of its steps, each with what it gave.\<close>

lemma task_load_steps:
  assumes "module_addr_by_name (view e s) (e_modules e) f = ret ma" and "ma \<noteq> 0"
    and "args_size_loop (view e s) argv (arg_indices argc) 4 = ret n"
    and "on_view e (copy_args e argv (arg_indices argc)) s = ret s1"
    and "module_size_by_name (view e s1) (e_modules e) f = ret sz" and "sz \<noteq> - 1"
    and "task_create e f sz n s1 = (Some i, s2)" and "virt_addr (k_tasks s2 ! i) = va"
    and "rbind (on_view e (\<lambda>m. memcpy m va ma sz) (load_pagedir (pagedir_addr e i) s2)) (\<lambda>s.
        rbind (on_view e (\<lambda>m. store32 m (va + sz) argc) s) (\<lambda>s.
        on_view e (place_args e (va + sz + 4) (arg_indices argc) 0) s)) = ret s3"
  shows "task_load e f argc argv s = ret (Some i, load_pagedir (cr3_reg s2) s3)"
  using assms
  by (auto simp: task_load_def load_module_def load_image_def Let_def rbind_assoc [symmetric] load_pagedir_def)

lemma task_load_image:
  assumes ok: "tasks_ok e s" and free: "first_free s = Some i"
    and ready: "load_ready e s f fn names k code argv ps args"
    and argc: "sint argc = int (length args)"
  shows "\<exists>s'. task_load e f argc argv s = ret (Some i, s') \<and>
    block (uspace s' i) TASK_VIRT_ADDR (code @ split32 argc @ packed args) \<and> cr3_reg s' = cr3_reg s"
proof -
  define ma where "ma = module_first_address (e_modules e) (of_nat k)"
  define sz where "sz = module_size (e_modules e) (of_nat k)"
  define n where "n = (4 + of_nat (length (packed args)) :: u32)"
  let ?K = "scratch e \<union> addrs ma (length code)" and ?all = "code @ split32 argc @ packed args"
  have names: "module_names (view e s) (e_modules e) names" "cstr (view e s) f fn" "index_of fn names = Some k"
    and code: "ma \<noteq> 0" "unat sz = length code" "length code < 2 ^ 31" "block (kmem s) ma code"
    and args: "args_at (view e s) argv ps args" "length args \<le> 5" "\<forall>x \<in> set args. length x \<le> 48"
    and mem: "scratch e \<subseteq> dom (kmem s)" "kernel_region s ?K"
    and dis: "scratch e \<inter> addrs ma (length code) = {}" "scratch e \<inter> args_region argv ps args = {}"
      "scratch e \<inter> lookup_region (e_modules e) names f fn = {}"
    and alloc: "alloc_ok e ?K (alloc_size sz n)"
    using ready unfolding load_ready_def Let_def ma_def sz_def n_def MAX_ARGS_def by (simp_all add: Int_Un_distrib)
  have idx: "arg_indices argc = [0..<length args]" using argc by (simp add: arg_indices_def)
  have a1: "module_addr_by_name (view e s) (e_modules e) f = ret ma"
    using module_by_name_correct(1) [OF names(1,2)] names(3) by (simp add: ma_def)
  have a2: "args_size_loop (view e s) argv (arg_indices argc) 4 = ret n"
    using args_size_loop_packed [OF args(1), of 0 4] by (simp add: idx n_def)
  from copies_arguments [OF args mem Un_upper1 dis(2)] obtain s1 where
    a3: "on_view e (copy_args e argv (arg_indices argc)) s = ret s1"
    and s1: "\<forall>j < length args. cstr (kmem s1) (tmp_argv e j) (args ! j)"
      "\<forall>a. a \<notin> scratch e \<longrightarrow> view e s1 a = view e s a" "\<forall>a \<in> ?K. kmem s1 a = view e s1 a"
      "k_tasks s1 = k_tasks s" "cr3_reg s1 = cr3_reg s"
    unfolding idx by blast
  have "module_names (view e s1) (e_modules e) names \<and> cstr (view e s1) f fn"
    using s1(2) dis(3) by (intro lookup_agree [OF _ names(1,2)]) auto
  then have a4: "module_size_by_name (view e s1) (e_modules e) f = ret sz"
    using module_by_name_correct(2) [of "view e s1" "e_modules e" names f fn] names(3) by (simp add: sz_def)
  have sz: "sz \<noteq> - 1" using code(2,3) by (auto simp: unsigned_minus_1_eq_mask mask_eq_exp_minus_1)
  have t1: "first_free s1 = Some i" "length (k_tasks s1) = MAX_TASK_COUNT"
    using free ok s1(4) by (simp_all add: first_free_def tasks_ok_def)
  obtain r s2 where r: "task_create e f sz n s1 = (r, s2)" by force
  note c = task_create_alloc [OF t1 alloc r]
  let ?s2 = "load_pagedir (pagedir_addr e i) s2"
  have act: "active_space e ?s2 = Some i"
    using free by (intro active_load_pagedir) (simp add: first_free_Some)
  note len = packed_length [OF args(3)]
  have "unat (alloc_size sz n) = length code + 2 * (4 + length (packed args)) + 2097152"
    unfolding n_def using len args(2) by (intro alloc_size_nat code) simp
  then have d: "addrs TASK_VIRT_ADDR (length ?all) \<subseteq> dom (uspace s2 i)"
    using c addrs_mono [of "length ?all" "unat (alloc_size sz n)" TASK_VIRT_ADDR] by auto
  have "block (kmem s2) ma code = block (kmem s) ma code"
    using c s1(2,3) dis(1) view_kernel_region [OF mem(2), of _ e] by (intro block_agree) auto
  moreover have "cstr (kmem s2) (tmp_argv e j) (args ! j)" if j: "j < length args" for j
  proof -
    have "addrs (tmp_argv e j) (Suc (length (args ! j))) \<subseteq> scratch e"
      using j args(2) bspec [OF args(3) nth_mem [OF j]] by (intro row_scratch) simp_all
    then have "cstr (kmem s2) (tmp_argv e j) (args ! j) = cstr (kmem s1) (tmp_argv e j) (args ! j)"
      using c by (intro cstr_agree) blast
    with s1(1) j show ?thesis by simp
  qed
  ultimately have p: "rbind (on_view e (\<lambda>m. memcpy m TASK_VIRT_ADDR ma sz) ?s2) (\<lambda>s.
      rbind (on_view e (\<lambda>m. store32 m (TASK_VIRT_ADDR + sz) argc) s) (\<lambda>s.
      on_view e (place_args e (TASK_VIRT_ADDR + sz + 4) (arg_indices argc) 0) s))
    = ret (?s2\<lparr>uspace := (uspace ?s2)(i := upd (uspace ?s2 i) TASK_VIRT_ADDR ?all)\<rparr>)"
    using args code d c len unfolding idx
    by (intro place_image [OF act]) (auto simp: load_pagedir_def)
  have "block (upd (uspace s2 i) TASK_VIRT_ADDR ?all) TASK_VIRT_ADDR ?all"
    using len args(2) code(3) by (intro upd_block) simp
  moreover have "task_load e f argc argv s = ret (Some i, load_pagedir (cr3_reg s2)
      (?s2\<lparr>uspace := (uspace ?s2)(i := upd (uspace ?s2 i) TASK_VIRT_ADDR ?all)\<rparr>))"
    using c r by (intro task_load_steps [OF a1 code(1) a2 a3 a4 sz _ _ p]) simp_all
  ultimately show ?thesis using c s1(5) by (auto simp: load_pagedir_def)
qed

section \<open>A small machine\<close>

text \<open>
  One boot module with a byte of code, all memory below 512 KB, an allocator that gives each
  task 4 MB, and the arguments \<open>hi\<close> and \<open>yo\<close> of a caller.
\<close>

definition sample_mem :: mem where
  "sample_mem = upd (upd (upd (upd (\<lambda>a. if a < 0x80000 then Some 0 else None)
     256 (chars ''shell.exe'' @ [0])) 512 (chars ''shell.exe'' @ [0])) 4096 [0xCF])
     1024 (split32 1032 @ split32 1035 @ chars ''hi'' @ 0 # chars ''yo'' @ [0])"

definition sample_modules :: modules where
  "sample_modules = \<lparr>modules_count = 1, module_cmdline = (\<lambda>i. 256), module_first_address = (\<lambda>i. 4096),
     module_size = (\<lambda>i. 1)\<rparr>"

definition sample_env :: env where
  "sample_env = \<lparr>gdt_address = 0x200000, idt_address = 0x201000,
     e_isr = \<lparr>exception_isr = (\<lambda>i. 64 + of_nat i), irq_isr = (\<lambda>i. 128 + of_nat i), syscall_isr = 192\<rparr>,
     kernel_start = 0x100000,
     kernel_end = 0x300000, shell_name = 512, tasks_addr = 0x210000, initial_tss_addr = 0x202000,
     initial_stack_addr = 0x203000, tmp_argv_addr = 8192, e_modules = sample_modules,
     e_fb = \<lparr>fb_addr = 0xE0000000, fb_size = 0x180000, pitch_in_bytes = 2048, pitch_in_pix = 1024,
       fb_width = 1024, fb_height = 768, fb_bpp = 16\<rparr>,
     e_getcolors = (\<lambda>log. \<lparr>fg = 0, bg = 0\<rparr>), e_get_key = (\<lambda>log. 65), e_freq = (\<lambda>log. 1000),
     e_ticks = (\<lambda>log. 0),
     e_paging_alloc = (\<lambda>log km pd tb va sz pr. \<lparr>ar_pagedir = pd, ar_tables = tb, ar_kmem = km,
       ar_space = (\<lambda>a. if 0x40000000 \<le> a \<and> a < 0x40400000 then Some 0 else None), ar_count = 1024\<rparr>),
     e_paging_mmap = (\<lambda>log km pd va pa sz pr ac. (pd, km)), e_paging_init = (\<lambda>log ram km. (km, 0x204000)),
     e_frame_total_free = (\<lambda>log. 0), e_keyb_init = (\<lambda>hs. hs), e_timer_init = (\<lambda>hs. hs),
     e_setpix_result = (\<lambda>log. 0)\<rparr>"


lemma sample_bytes: "block sample_mem 256 (chars ''shell.exe'' @ [0])"
  "block sample_mem 512 (chars ''shell.exe'' @ [0])" "block sample_mem 4096 [0xCF]"
  "block sample_mem 1024 (split32 1032 @ split32 1035 @ chars ''hi'' @ 0 # chars ''yo'' @ [0])"
  by (simp_all add: sample_mem_def chars_def split32_def)

lemma sample_dom: "dom sample_mem = {a. a < 0x80000}"
  by (auto simp: sample_mem_def chars_def split32_def split: if_splits)

lemma sample_alloc: "unat sz \<le> 0x400000 \<Longrightarrow> K \<subseteq> {a. a < 0x80000} \<Longrightarrow> alloc_ok sample_env K sz"
  by (auto simp: alloc_ok_def sample_env_def Let_def addrs_range TASK_VIRT_ADDR_def word_less_nat_alt word_le_nat_alt)

lemma sample_args: "args_at sample_mem 1024 [1032, 1035] [chars ''hi'', chars ''yo'']"
  using sample_bytes(4)
  by (auto simp: args_at_def less_Suc_eq chars_def split32_def)

lemma sample_lookup: "module_names sample_mem sample_modules [chars ''shell.exe'']" "cstr sample_mem 512 (chars ''shell.exe'')"
  using sample_bytes
  by (simp_all add: module_names_def cstr_block sample_modules_def chars_def)

lemma sample_ready:
  assumes "kmem s = sample_mem" and "\<forall>i. uspace s i = Map.empty"
    and "args_at sample_mem argv ps args" and "length args \<le> 5" "\<forall>x \<in> set args. length x \<le> 48"
    and "scratch sample_env \<inter> args_region argv ps args = {}"
  shows "load_ready sample_env s 512 (chars ''shell.exe'') [chars ''shell.exe''] 0 [0xCF] argv ps args"
proof -
  have v: "view sample_env s = sample_mem"
    using assms(1,2) by (simp add: view_def split: option.split)
  have K: "scratch sample_env = addrs 8192 250" by (simp add: scratch_def sample_env_def)
  have md: "e_modules sample_env = sample_modules" by (simp add: sample_env_def)
  have sz: "unat (alloc_size 1 (4 + of_nat (length (packed args)))) \<le> 0x400000"
    using alloc_size_nat [of "[0xCF]" 1 "packed args"] packed_length [OF assms(5)] assms(4) by simp
  have "alloc_ok sample_env (addrs 8192 250 \<union> addrs 4096 1) (alloc_size 1 (4 + of_nat (length (packed args))))"
    using sz by (rule sample_alloc) (auto simp: addrs_range word_less_nat_alt)
  moreover have "addrs 8192 250 \<inter> lookup_region sample_modules [chars ''shell.exe''] 512 (chars ''shell.exe'') = {}"
    by (auto simp: lookup_region_def addrs_range sample_modules_def chars_def simp del: addrs_Suc)
  moreover have "addrs 8192 250 \<inter> addrs 4096 1 = {}" "addrs 8192 250 \<subseteq> dom sample_mem"
    by (auto simp: addrs_range sample_dom word_less_nat_alt simp del: addrs_Suc)
  ultimately show ?thesis
    unfolding load_ready_def Let_def v K md
    using assms sample_lookup sample_bytes(3)
    by (auto simp: kernel_region_def K Int_Un_distrib MAX_ARGS_def sample_modules_def simp del: addrs_Suc)
qed


section \<open>Properties\<close>

text \<open>C14: A load takes the first free slot and leaves in the address space of the new task, from its
  entry point on, the image of the module, the number of arguments where \<open>get_task_args\<close> points,
  and the arguments one after the other; the caller's page directory is back.\<close>

theorem task_load_places:
  assumes "tasks_ok e s" and "first_free s = Some i"
    and "load_ready e s f fn names k code argv ps args" and "sint argc = int (length args)"
  shows "\<exists>s'. task_load e f argc argv s = ret (Some i, s') \<and> cr3_reg s' = cr3_reg s \<and>
    (let v = view e (load_pagedir (pagedir_addr e i) s');
         a = get_task_args s' i (module_size (e_modules e) (of_nat k)) in
     block v TASK_VIRT_ADDR code \<and> load32 v a = ret argc \<and> block v (a + 4) (packed args))"
proof -
  obtain s' where s': "task_load e f argc argv s = ret (Some i, s')"
    "block (uspace s' i) TASK_VIRT_ADDR (code @ split32 argc @ packed args)" "cr3_reg s' = cr3_reg s"
    using task_load_image [OF assms] by blast
  have "tasks_ok e s'" "i \<in> used_slots s'"
    using task_load_cases [OF assms(1) s'(1)] by auto
  then have va: "virt_addr (k_tasks s' ! i) = TASK_VIRT_ADDR"
    by (auto simp: tasks_ok_def slot_ok_def Let_def used_slots_iff)
  have sz: "of_nat (length code) = module_size (e_modules e) (of_nat k)"
    using assms(3) unfolding load_ready_def Let_def by (metis of_nat_unat ucast_id)
  have "active_space e (load_pagedir (pagedir_addr e i) s') = Some i"
    using assms(2) by (intro active_load_pagedir) (simp add: first_free_Some)
  then have v: "view e (load_pagedir (pagedir_addr e i) s') = kmem s' ++ uspace s' i"
    by (simp add: view_def load_pagedir_def)
  have "block (kmem s' ++ uspace s' i) TASK_VIRT_ADDR (code @ split32 argc @ packed args)"
    using block_mapped [OF s'(2)] s'(2)
    by (subst block_agree [of _ _ _ "uspace s' i"]) (auto simp: mapped_def map_add_dom_app_simps)
  with s'(1,3) show ?thesis
    by (simp add: v va get_task_args_def Let_def block_append load32_split sz)
qed

definition sample_state :: kstate where
  "sample_state = \<lparr>kmem = sample_mem, uspace = (\<lambda>i. Map.empty), cr3_reg = 0, tr_reg = 40,
     k_gdt = gdt_static, k_idt = [], k_handlers = irq_init, k_tasks = replicate MAX_TASK_COUNT zero_task,
     task_id = 1, initial_tss = zero_tss, pagedir_templ = replicate PAGETABLES_IN_PD (pde_unpack 0),
     k_mbi = 0, klog = []\<rparr>"

lemma sample_ok: "tasks_ok sample_env sample_state" "used_slots sample_state = {}"
proof -
  show u: "used_slots sample_state = {}"
    by (auto simp: used_slots_iff sample_state_def zero_task_def)
  show "tasks_ok sample_env sample_state"
    by (simp add: tasks_ok_def u) (simp add: sample_state_def slot_ok_def zero_task_def gdt_static_def)
qed

theorem task_load_places_witness:
  "\<exists>s'. task_load sample_env 512 2 1024 sample_state = ret (Some 0, s') \<and>
    (let v = view sample_env (load_pagedir 0x210000 s') in
     block v 0x40000000 [0xCF] \<and> load32 v 0x40000001 = ret 2 \<and>
     block v 0x40000005 (chars ''hi'' @ 0 # chars ''yo'' @ [0]))"
proof -
  have r: "load_ready sample_env sample_state 512 (chars ''shell.exe'') [chars ''shell.exe''] 0 [0xCF]
      1024 [1032, 1035] [chars ''hi'', chars ''yo'']"
  proof (rule sample_ready)
    show "scratch sample_env \<inter> args_region 1024 [1032, 1035] [chars ''hi'', chars ''yo''] = {}"
      by (auto simp: scratch_def sample_env_def args_region_def addrs_range less_Suc_eq simp del: addrs_Suc)
  qed (use sample_args in \<open>simp_all add: sample_state_def\<close>)
  have f: "first_free sample_state = Some 0"
    by (simp add: first_free_Some sample_ok MAX_TASK_COUNT_def)
  have n: "sint (2 :: u32) = int (length [chars ''hi'', chars ''yo''])" by simp
  obtain s' where s': "task_load sample_env 512 2 1024 sample_state = ret (Some 0, s')"
    "let v = view sample_env (load_pagedir (pagedir_addr sample_env 0) s');
         a = get_task_args s' 0 (module_size (e_modules sample_env) (of_nat 0)) in
     block v TASK_VIRT_ADDR [0xCF] \<and> load32 v a = ret 2 \<and>
     block v (a + 4) (packed [chars ''hi'', chars ''yo''])"
    using task_load_places [OF sample_ok(1) f r n] by blast
  have "tasks_ok sample_env s'" "0 \<in> used_slots s'"
    using task_load_cases [OF sample_ok(1) s'(1)] by blast+
  then have "virt_addr (k_tasks s' ! 0) = TASK_VIRT_ADDR"
    by (auto simp: tasks_ok_def slot_ok_def Let_def used_slots_iff)
  then have a: "get_task_args s' 0 (module_size (e_modules sample_env) (of_nat 0)) = 0x40000001"
    by (simp add: get_task_args_def sample_env_def sample_modules_def TASK_VIRT_ADDR_def)
  have c: "pagedir_addr sample_env 0 = 0x210000" "(0x40000001 :: u32) + 4 = 0x40000005"
    by (simp_all add: sample_env_def pagedir_addr_def task_addr_def)
  have p: "packed [chars ''hi'', chars ''yo''] = chars ''hi'' @ 0 # chars ''yo'' @ [0]" by simp
  from s' show ?thesis unfolding a c p Let_def TASK_VIRT_ADDR_def by blast
qed

theorem task_creates_in_order_witness:
  "fst (task_creates sample_env (replicate 9 (512, 1, 4)) sample_state)
     = map Some [0, 1, 2, 3, 4, 5, 6, 7] @ [None]"
  using task_creates_in_order [OF sample_ok, of "replicate 9 (512, 1, 4)"] by (simp add: upt_rec)

theorem task_create_wires_witness:
  "case task_create sample_env 512 1 4 sample_state of (r, s') \<Rightarrow>
     desc_base (k_gdt s' ! 6) = 0x211000 \<and> esp (t_tss (k_tasks s' ! 0)) = 0x40200005"
proof -
  have "first_free sample_state = Some 0"
    by (simp add: first_free_Some sample_ok MAX_TASK_COUNT_def)
  note w = task_create_wires [OF sample_ok(1) this, where f = 512 and n = 1 and a = 4]
  obtain r s' where c: "task_create sample_env 512 1 4 sample_state = (r, s')" by fastforce
  have "tasks_ok sample_env s'" "0 \<in> used_slots s'"
    using task_create_some [OF sample_ok(1) \<open>first_free sample_state = Some 0\<close> c] by simp_all
  then have "virt_addr (k_tasks s' ! 0) = 0x40000000"
    by (simp add: tasks_ok_def slot_ok_def Let_def used_slots_iff TASK_VIRT_ADDR_def)
  moreover have "tss_addr sample_env 0 = 0x211000"
    by (simp add: sample_env_def tss_addr_def task_addr_def offsetof_tss_def)
  ultimately show ?thesis using w by (clarsimp simp: c Let_def)
qed

end
