(* ===== verification/TaskFree.thy ===== *)
theory TaskFree
  imports TaskLoad
begin

text \<open>
  Which frames \<open>task_free\<close> gives back: the frames of the present entries of each page table,
  in order, then the frame of the first entry once more. The frames of the page tables
  themselves are not among them.
\<close>

section \<open>One page table\<close>

definition frame_of :: "pte \<Rightarrow> u32" where
  "frame_of t = FRAME_NB_TO_ADDR (ucast (frame_number t))"

definition page_frees :: "pte list \<Rightarrow> kevent list" where
  "page_frees ts = concat (map (\<lambda>t. if present t = 1 then [FrameFree (frame_of t)] else []) ts)"

lemma page_frees_simps [simp]: "page_frees [] = []"
  "page_frees (t # ts) = (if present t = 1 then FrameFree (frame_of t) # page_frees ts else page_frees ts)"
  by (simp_all add: page_frees_def)

lemma free_pages_frees: "\<forall>j \<in> set js. load32 m (p + 4 * of_nat j) = ret (pte_pack (ts ! j)) \<Longrightarrow>
    free_pages m p js = ret (page_frees (map (\<lambda>j. ts ! j) js))"
  by (induction js) (simp_all add: pte_codec.dec_enc frame_of_def)

text \<open>A page table in memory, its entries as the processor reads them.\<close>

definition table_at :: "mem \<Rightarrow> u32 \<Rightarrow> pte list \<Rightarrow> bool" where
  "table_at m p ts \<longleftrightarrow> length ts = PAGES_IN_PT \<and>
     (\<forall>j < PAGES_IN_PT. load32 m (p + 4 * of_nat j) = ret (pte_pack (ts ! j)))"

lemma load32_dom: "load32 m a = ret w \<Longrightarrow> mapped m a 4"
  by (auto simp: load32_def rbind_eq_ret load8_eq_ret numeral_eq_Suc add.assoc)

lemma table_at_other:
  assumes "table_at m p ts" and "addrs q (length xs) \<inter> addrs p 4096 = {}"
  shows "table_at (upd m q xs) p ts"
proof -
  have "load32 (upd m q xs) (p + 4 * of_nat j) = load32 m (p + 4 * of_nat j)" if "j < PAGES_IN_PT" for j
  proof (rule load32_upd_other)
    have "4 * j + 4 \<le> 4096" using that by (simp add: PAGES_IN_PT_def)
    then have "addrs (p + of_nat (4 * j)) 4 \<subseteq> addrs p 4096"
      using addrs_split [of p "4 * j" 4] addrs_mono [of "4 * j + 4" 4096 p] by blast
    with assms(2) show "addrs (p + 4 * of_nat j) 4 \<inter> addrs q (length xs) = {}" by auto
  qed
  with assms(1) show ?thesis by (simp add: table_at_def)
qed

lemma free_table_at:
  assumes "table_at (view e s) p (t # ts)"
  shows "\<exists>s'. free_table e p s = ret s' \<and>
    klog s' = klog s @ page_frees (t # ts) @ [FrameFree (frame_of t)] \<and> same_tasks s s' \<and>
    view e s' = upd (view e s) p (split32 (pte_pack (t\<lparr>present := 0\<rparr>)))"
proof -
  let ?w = "pte_pack (t\<lparr>present := 0\<rparr>)" and ?m = "view e s"
  let ?evs = "page_frees (t # ts)"
  have "free_pages ?m p [0..<PAGES_IN_PT] = ret (page_frees (map ((!) (t # ts)) [0..<PAGES_IN_PT]))"
    using assms by (intro free_pages_frees) (simp add: table_at_def)
  then have 1: "free_pages ?m p [0..<PAGES_IN_PT] = ret ?evs"
    using assms map_nth [of "t # ts"] by (simp add: table_at_def del: page_frees_simps)
  have 2: "load32 ?m p = ret (pte_pack t)"
    using assms by (auto simp: table_at_def PAGES_IN_PT_def dest: spec [of _ 0])
  then have m4: "mapped ?m p 4" by (rule load32_dom)
  define s1 where "s1 = set_view e (upd ?m p (split32 ?w)) (events ?evs s)"
  have 3: "on_view e (\<lambda>m. store32 m p ?w) (events ?evs s) = ret s1"
    using m4 by (simp add: on_view_def store32_upd s1_def)
  have v1: "view e s1 = upd ?m p (split32 ?w)"
    unfolding s1_def using m4 by (intro view_set_view) (auto simp: dom_upd mapped_def)
  have 4: "load32 (view e s1) p = ret ?w"
    unfolding v1 by (intro load32_split upd_block) simp
  with 1 2 3 4 v1 show ?thesis
    by (simp add: free_table_def pte_codec.dec_enc frame_of_def s1_def)
qed
section \<open>All of them\<close>

text \<open>
  The page tables of a task: the non-null pointers at the start of \<open>page_tables\<close>, each with
  its first entry present, no first entry inside another table.
\<close>

definition tables_at :: "mem \<Rightarrow> (u32 \<times> pte list) list \<Rightarrow> bool" where
  "tables_at m ts \<longleftrightarrow> (\<forall>(p, es) \<in> set ts. p \<noteq> 0 \<and> table_at m p es \<and> present (hd es) = 1) \<and>
     sorted_wrt (\<lambda>(p, es) (q, fs). addrs p 4 \<inter> addrs q 4096 = {}) ts"

definition tables_frees :: "(u32 \<times> pte list) list \<Rightarrow> kevent list" where
  "tables_frees ts = concat (map (\<lambda>(p, es). page_frees es @ [FrameFree (frame_of (hd es))]) ts)"

lemma task_free_loop_tables:
  assumes "pt + length ts < PAGES_IN_PT" and "tables_at (view e s) ts"
    and "\<forall>j < length ts. page_tables (k_tasks s ! i) ! (pt + j) = fst (ts ! j)"
    and "page_tables (k_tasks s ! i) ! (pt + length ts) = 0"
  shows "\<exists>s'. task_free_loop e i pt n k s
      = ret (n + of_nat (PAGES_IN_PT * length ts), k + of_nat (length ts), s') \<and>
    klog s' = klog s @ tables_frees ts \<and> same_tasks s s'"
  using assms
proof (induction ts arbitrary: pt n k s)
  case Nil
  then show ?case by (subst task_free_loop.simps) (simp add: tables_frees_def)
next
  case (Cons t ts)
  obtain p x xs where t: "t = (p, x # xs)"
    using Cons.prems(2) by (cases t; cases "snd t") (auto simp: tables_at_def table_at_def PAGES_IN_PT_def)
  then have p: "p \<noteq> 0" "table_at (view e s) p (x # xs)" "present x = 1"
    using Cons.prems(2) by (auto simp: tables_at_def)
  have ptr: "page_tables (k_tasks s ! i) ! pt = p"
    using Cons.prems(3) by (auto simp: t dest: spec [of _ 0])
  have w: "load32 (view e s) p = ret (pte_pack x)"
    using p(2) by (auto simp: table_at_def PAGES_IN_PT_def dest: spec [of _ 0])
  obtain s1 where s1: "free_table e p s = ret s1" "same_tasks s s1"
    "klog s1 = klog s @ page_frees (x # xs) @ [FrameFree (frame_of x)]"
    "view e s1 = upd (view e s) p (split32 (pte_pack (x\<lparr>present := 0\<rparr>)))"
    using free_table_at [OF p(2)] by blast
  have "table_at (view e s1) q es" if "(q, es) \<in> set ts" for q es
    using that Cons.prems(2) unfolding s1(4) tables_at_def t by (intro table_at_other) fastforce+
  then have "tables_at (view e s1) ts"
    using Cons.prems(2) by (fastforce simp: tables_at_def)
  then obtain s' where "task_free_loop e i (pt + 1) (n + of_nat PAGES_IN_PT) (k + 1) s1
      = ret (n + of_nat PAGES_IN_PT + of_nat (PAGES_IN_PT * length ts), k + 1 + of_nat (length ts), s') \<and>
    klog s' = klog s1 @ tables_frees ts \<and> same_tasks s1 s'"
    using Cons.IH [of "pt + 1" s1] Cons.prems(1,3,4) s1(2) by (fastforce simp: same_tasks_def)
  with s1 ptr w p Cons.prems(1) show ?case
    by (subst task_free_loop.simps)
       (auto simp: t pte_codec.dec_enc tables_frees_def algebra_simps intro: same_tasks_trans)
qed

lemma task_free_log:
  assumes "length ts < PAGES_IN_PT" and "tables_at (view e s) ts"
    and "\<forall>j < length ts. page_tables (k_tasks s ! i) ! j = fst (ts ! j)"
    and "page_tables (k_tasks s ! i) ! length ts = 0"
  shows "\<exists>s'. task_free e i s = ret s' \<and> (\<exists>ev. klog s' = klog s @ tables_frees ts @ [ev])"
  using task_free_loop_tables [of 0 ts e s i 0 0] assms by (fastforce simp: task_free_def)

lemma page_frees_set: "FrameFree a \<in> set (page_frees xs) \<longleftrightarrow> (\<exists>t \<in> set xs. present t = 1 \<and> a = frame_of t)"
  by (induction xs) auto

lemma page_frees_count: "present (hd xs) = 1 \<Longrightarrow> xs \<noteq> [] \<Longrightarrow> 1 \<le> count_list (page_frees xs) (FrameFree (frame_of (hd xs)))"
  by (cases xs) auto

lemma tables_frees_count:
  assumes "(p, xs) \<in> set ts" and "present (hd xs) = 1" and "xs \<noteq> []"
  shows "2 \<le> count_list (tables_frees ts) (FrameFree (frame_of (hd xs)))"
proof -
  from assms(1) obtain us vs where "ts = us @ (p, xs) # vs" by (auto simp: in_set_conv_decomp)
  with page_frees_count [OF assms(2,3)] show ?thesis by (simp add: tables_frees_def)
qed

lemma tables_frees_set: "FrameFree a \<in> set (tables_frees ts) \<Longrightarrow> tables_at m ts \<Longrightarrow>
    \<exists>(p, xs) \<in> set ts. \<exists>t \<in> set xs. present t = 1 \<and> a = frame_of t"
  by (fastforce simp: tables_frees_def tables_at_def table_at_def page_frees_set PAGES_IN_PT_def
      intro: hd_in_set)

section \<open>Properties\<close>


text \<open>C27: One frame of every page table is given back twice: the frame of its first page, which the code
  takes for the frame of the table itself.\<close>

theorem task_free_frees_twice:
  assumes "length ts < PAGES_IN_PT" and "tables_at (view e s) ts"
    and "\<forall>j < length ts. page_tables (k_tasks s ! i) ! j = fst (ts ! j)"
    and "page_tables (k_tasks s ! i) ! length ts = 0" and "(p, xs) \<in> set ts"
  shows "\<exists>s'. task_free e i s = ret s' \<and>
    count_list (klog s) (FrameFree (frame_of (hd xs))) + 2 \<le> count_list (klog s') (FrameFree (frame_of (hd xs)))"
proof -
  have "xs \<noteq> []" "present (hd xs) = 1"
    using assms(2,5) by (auto simp: tables_at_def table_at_def PAGES_IN_PT_def)
  then have "2 \<le> count_list (tables_frees ts) (FrameFree (frame_of (hd xs)))"
    using tables_frees_count [OF assms(5)] by simp
  with task_free_log [OF assms(1-4)] show ?thesis by fastforce
qed

text \<open>A page table of 1024 entries that are all alike, in a memory of ones.\<close>

definition ones_state :: kstate where
  "ones_state = \<lparr>kmem = (\<lambda>a. Some 1), uspace = (\<lambda>i. Map.empty), cr3_reg = 0, tr_reg = 40,
     k_gdt = gdt_static, k_idt = [], k_handlers = irq_init,
     k_tasks = [zero_task\<lparr>page_tables := 4096 # replicate 1023 0\<rparr>],
     task_id = 2, initial_tss = zero_tss, pagedir_templ = [],
     k_mbi = 0, klog = []\<rparr>"

lemma ones_tables: "tables_at (view e ones_state) [(4096, replicate 1024 (pte_unpack 0x01010101))]"
  "length [(4096, replicate 1024 (pte_unpack 0x01010101))] < PAGES_IN_PT"
  "\<forall>j < length [(4096, replicate 1024 (pte_unpack 0x01010101))]. page_tables (k_tasks ones_state ! 0) ! j
     = fst ([(4096 :: u32, replicate 1024 (pte_unpack 0x01010101))] ! j)"
  "page_tables (k_tasks ones_state ! 0) ! length [(4096, replicate 1024 (pte_unpack 0x01010101))] = 0"
proof -
  have v: "view e ones_state = (\<lambda>a. Some 1)" by (simp add: view_def ones_state_def split: option.split)
  have "load32 (\<lambda>a. Some 1) a = ret 0x01010101" for a
    by (rule load32_split) (simp add: split32_def)
  then have "table_at (view e ones_state) 4096 (replicate 1024 (pte_unpack 0x01010101))"
    by (simp add: table_at_def v PAGES_IN_PT_def pte_pack_unpack)
  then show "tables_at (view e ones_state) [(4096, replicate 1024 (pte_unpack 0x01010101))]"
    by (simp add: tables_at_def pte_unpack_def)
qed (simp_all add: ones_state_def PAGES_IN_PT_def)

lemma ones_log: "klog ones_state = []"
  by (simp add: ones_state_def)

lemma ones_frame: "frame_of (pte_unpack 0x01010101) = 0x01010000" "present (pte_unpack 0x01010101) = 1"
  by (simp_all add: frame_of_def pte_unpack_def FRAME_NB_TO_ADDR_def page_consts)


theorem task_free_frees_twice_witness:
  "\<exists>s'. task_free sample_env 0 ones_state = ret s' \<and> 2 \<le> count_list (klog s') (FrameFree 0x01010000)"
  using task_free_frees_twice [OF ones_tables(2) ones_tables(1) ones_tables(3,4), of 4096 "replicate 1024 (pte_unpack 0x01010101)" sample_env]
  by (simp add: ones_frame ones_log numeral_2_eq_2)

end
