(* ===== verification/Exception.thy ===== *)
theory Exception
  imports TaskLoad
begin

text \<open>
  The high-level exception handler of \<^verbatim>\<open>kernel/interrupt/idt.c\<close>: the task whose
  selector is in the task register is made to return from its code by an \<open>iret\<close> written over
  the faulting instruction; an exception of the kernel halts the machine.
\<close>

text \<open>The saved context, \<open>regs_t\<close>.\<close>

record regs =
  r_gs :: u32
  r_fs :: u32
  r_es :: u32
  r_ds :: u32
  r_ebp :: u32
  r_edi :: u32
  r_esi :: u32
  r_edx :: u32
  r_ecx :: u32
  r_ebx :: u32
  r_eax :: u32
  r_number :: u32
  r_error_code :: u32
  r_eip :: u32
  r_cs :: u32
  r_eflags :: u32
  r_esp :: u32
  r_ss :: u32

definition exception_names :: "string list" where
  "exception_names =
    [''Divide Error'', ''Reserved'', ''NMI Interrupt'', ''Breakpoint'', ''Overflow'',
     ''Bound Range Exceeded'', ''Invalid Opcode'', ''Device Not Available (No Math Coprocessor)'',
     ''Double Fault'', ''Coprocessor Segment Overrun'', ''Invalid TSS'', ''Segment Not Present'',
     ''Stack Segment Fault'', ''General Protection Fault'', ''Page Fault'', ''Intel Reserved1'',
     ''x87 FPU Error'', ''Alignment Check'', ''Machine Check'', ''SIMD Exception'',
     ''Virtualization Exception'']"

text \<open>The handler returns to the interrupted code, or halts.\<close>

datatype after = Resumes kstate | Halts kstate

text \<open>\<open>task->id\<close>; through a null pointer it is the word at the field's offset in low memory.\<close>

definition read_task_id :: "env \<Rightarrow> nat option \<Rightarrow> kstate \<Rightarrow> u32 run" where
  "read_task_id e t s = (case t of
     Some i \<Rightarrow> ret (t_id (k_tasks s ! i)) | None \<Rightarrow> load32 (view e s) offsetof_id)"

definition exception_handler :: "env \<Rightarrow> regs \<Rightarrow> kstate \<Rightarrow> after run" where
  "exception_handler e r s =
     (let t = get_task_by_selector (tr_reg s) in
      rbind (read_task_id e t s) (\<lambda>n.
      if unat n < MAX_TASK_COUNT then
        rbind (on_view e (\<lambda>m. store8 m (r_eip r) 0xCF) s) (\<lambda>s.
        rbind (read_task_id e t s) (\<lambda>n.
        ret (Resumes (event (TermPrintf ''Task %d terminated\<newline>'' [PInt n]) s))))
      else if unat (r_number r) < length exception_names then
        ret (Halts (events
          [TermSetFg (ucast YELLOW), TermSetBg (ucast RED),
           TermPrintf ''Exception %d triggered by kernel code: %s (error code 0x%x)!\<newline>''
             [PInt (r_number r), PLit (exception_names ! unat (r_number r)), PInt (r_error_code r)],
           TermPrintf ''Kernel PANIC.\<newline>'' [], Halt] s))
      else fail BadIndex))"

section \<open>Exceptions of tasks and of the kernel\<close>

lemma length_exception_names [simp]: "length exception_names = 21"
  by (simp add: exception_names_def)

text \<open>Every exception \<open>idt_init\<close> installs has a name.\<close>

lemma exception_names_cover: "n \<le> LAST_EXCEPTION \<Longrightarrow> n < length exception_names"
  by (simp add: LAST_EXCEPTION_def)

lemma kernel_selector_no_task: "get_task_by_selector (ucast (gdt_entry_to_selector gdt_initial_tss)) = None"
proof (rule ccontr)
  assume "get_task_by_selector (ucast (gdt_entry_to_selector gdt_initial_tss)) \<noteq> None"
  then obtain i where i: "i < MAX_TASK_COUNT"
    "ucast (ucast (gdt_entry_to_selector gdt_initial_tss) :: u16) = gdt_entry_to_selector (gdt_first_task_entry + i)"
    by (auto simp: get_task_by_selector_iff)
  have "unat (ucast (ucast (gdt_entry_to_selector gdt_initial_tss) :: u16) :: u32) = 40"
    by (simp add: gdt_entry_to_selector_def gdt_slots)
  with i task_selector_nat [OF i(1)] show False by simp
qed

lemma exception_of_task:
  assumes "tasks_ok e s" and "i \<in> used_slots s" and "tr_reg s = tss_selector (k_tasks s ! i)"
    and "r_eip r \<in> dom (view e s)"
  shows "exception_handler e r s = ret (Resumes (event (TermPrintf ''Task %d terminated\<newline>'' [PInt (of_nat i)])
    (set_view e ((view e s)(r_eip r \<mapsto> 0xCF)) s)))"
proof -
  have n: "t_id (k_tasks s ! i) = of_nat i" and i: "i < MAX_TASK_COUNT"
    using assms(1,2) by (auto simp: tasks_ok_def slot_ok_def Let_def used_slots_iff)
  have "get_task_by_selector (tr_reg s) = Some i"
    using get_task_of_task [OF assms(1,2)] assms(3) by simp
  with n i assms(4) show ?thesis
    by (simp add: exception_handler_def read_task_id_def on_view_def unat_of_nat MAX_TASK_COUNT_def)
qed

text \<open>
  Under the initial TSS the outcome rests on a word of low memory, 16492 bytes from address 0.
\<close>

lemma exception_of_kernel:
  assumes "tr_reg s = ucast (gdt_entry_to_selector gdt_initial_tss)"
    and "load32 (view e s) offsetof_id = ret w" and "r_number r \<le> 20"
  shows "exception_handler e r s =
    (if unat w < MAX_TASK_COUNT then
       rbind (on_view e (\<lambda>m. store8 m (r_eip r) 0xCF) s) (\<lambda>s. rbind (load32 (view e s) offsetof_id) (\<lambda>n.
         ret (Resumes (event (TermPrintf ''Task %d terminated\<newline>'' [PInt n]) s))))
     else ret (Halts (events
       [TermSetFg (ucast YELLOW), TermSetBg (ucast RED),
        TermPrintf ''Exception %d triggered by kernel code: %s (error code 0x%x)!\<newline>''
          [PInt (r_number r), PLit (exception_names ! unat (r_number r)), PInt (r_error_code r)],
        TermPrintf ''Kernel PANIC.\<newline>'' [], Halt] s)))"
  using assms by (simp add: exception_handler_def kernel_selector_no_task read_task_id_def
      word_le_nat_alt Let_def)

lemma exception_keeps_tasks:
  assumes "exception_handler e r s = ret (Resumes s')"
  shows "same_tasks s s'"
proof -
  obtain s1 ev where "on_view e (\<lambda>m. store8 m (r_eip r) 0xCF) s = ret s1" "s' = event ev s1"
    using assms by (auto simp: exception_handler_def Let_def rbind_eq_ret split: if_splits)
  then show ?thesis using same_tasks_on_view [of e _ s s1] by simp
qed

section \<open>Properties\<close>

text \<open>C28: A fault of the kernel itself, under the initial TSS, does not always halt the machine: the task
  pointer is null then, and the word at address 16492 decides. Below 8 it makes the handler write
  an \<open>iret\<close> over the kernel's code and report the end of a task.\<close>

theorem kernel_fault_depends_on_low_memory:
  assumes "tr_reg s = ucast (gdt_entry_to_selector gdt_initial_tss)"
    and "load32 (view e s) 16492 = ret w" and "r_number r \<le> 20" and "r_eip r \<in> dom (view e s)"
  shows "(8 \<le> unat w \<and> exception_handler e r s = ret (Halts (events
      [TermSetFg (ucast YELLOW), TermSetBg (ucast RED),
       TermPrintf ''Exception %d triggered by kernel code: %s (error code 0x%x)!\<newline>''
         [PInt (r_number r), PLit (exception_names ! unat (r_number r)), PInt (r_error_code r)],
       TermPrintf ''Kernel PANIC.\<newline>'' [], Halt] s))) \<or>
    (unat w < 8 \<and> (\<exists>s' n. exception_handler e r s = ret (Resumes s') \<and> view e s' = (view e s)(r_eip r \<mapsto> 0xCF) \<and>
      klog s' = klog s @ [TermPrintf ''Task %d terminated\<newline>'' [PInt n]]))"
proof (cases "unat w < 8")
  case True
  let ?m = "(view e s)(r_eip r \<mapsto> 0xCF)"
  have v: "view e (set_view e ?m s) = ?m" using assms(4) by (intro view_set_view) auto
  have "mapped (view e s) 16492 4" using assms(2) by (auto simp: load32_def rbind_eq_ret load8_eq_ret numeral_eq_Suc add.assoc)
  then have "mapped ?m 16492 4" by simp
  then obtain n where "load32 ?m 16492 = ret n" using load32_mapped by blast
  with exception_of_kernel [OF assms(1) assms(2) [folded offsetof_id_def] assms(3)] True assms(4) v show ?thesis
    by (auto simp: on_view_def MAX_TASK_COUNT_def offsetof_id_def)
next
  case False
  with exception_of_kernel [OF assms(1) assms(2) [folded offsetof_id_def] assms(3)] show ?thesis
    by (simp add: MAX_TASK_COUNT_def)
qed

theorem kernel_fault_depends_on_low_memory_witness:
  "\<exists>s' n. exception_handler sample_env \<lparr>r_gs = 0, r_fs = 0, r_es = 0, r_ds = 0, r_ebp = 0, r_edi = 0, r_esi = 0,
     r_edx = 0, r_ecx = 0, r_ebx = 0, r_eax = 0, r_number = 13, r_error_code = 0, r_eip = 4096,
     r_cs = 8, r_eflags = 0, r_esp = 0, r_ss = 0\<rparr> sample_state = ret (Resumes s') \<and>
   klog s' = [TermPrintf ''Task %d terminated\<newline>'' [PInt n]]"
proof -
  have v: "view sample_env sample_state = sample_mem"
    by (simp add: view_def sample_state_def split: option.split)
  have "load32 sample_mem 16492 = ret 0"
    by (rule load32_split) (simp add: split32_def sample_mem_def chars_def)
  moreover have "4096 \<in> dom sample_mem" by (simp add: sample_dom)
  ultimately show ?thesis
    using kernel_fault_depends_on_low_memory [of sample_state sample_env 0 "\<lparr>r_gs = 0, r_fs = 0, r_es = 0, r_ds = 0,
      r_ebp = 0, r_edi = 0, r_esi = 0, r_edx = 0, r_ecx = 0, r_ebx = 0, r_eax = 0, r_number = 13, r_error_code = 0,
      r_eip = 4096, r_cs = 8, r_eflags = 0, r_esp = 0, r_ss = 0\<rparr>"]
    by (simp add: v) (auto simp: sample_state_def gdt_entry_to_selector_def gdt_slots)
qed

end
