(* ===== verification/Syscall.thy ===== *)
theory Syscall
  imports TaskLoad
begin

text \<open>
  The system calls of \<^verbatim>\<open>kernel/syscall/syscall.c\<close>. A handler runs in the address
  space of the calling task, gets four words and returns the word that ends up in \<open>eax\<close>. The
  pointers among its arguments are used as they are.
\<close>

unbundle bit_operations_syntax

type_synonym task_switcher = "u16 \<Rightarrow> kstate \<Rightarrow> kstate run"
type_synonym syscall_fun = "u32 \<Rightarrow> u32 \<Rightarrow> u32 \<Rightarrow> u32 \<Rightarrow> kstate \<Rightarrow> (u32 \<times> kstate) run"

section \<open>The handlers\<close>

definition syscall_term_puts :: syscall_fun where
  "syscall_term_puts arg1 arg2 arg3 arg4 s = ret (0, event (TermPuts arg1) s)"

definition syscall_term_set_colors :: syscall_fun where
  "syscall_term_set_colors arg1 arg2 arg3 arg4 s =
     ret (0, event (TermSetColors \<lparr>fg = ucast arg1, bg = ucast arg2\<rparr>) s)"

definition syscall_keyb_get_key :: "env \<Rightarrow> syscall_fun" where
  "syscall_keyb_get_key e arg1 arg2 arg3 arg4 s =
     (let val = e_get_key e (klog s) in
      rbind (on_view e (\<lambda>m. store32 m arg1 val) (event KeybGetKey s)) (\<lambda>s. ret (0, s)))"

definition syscall_timer_info :: "env \<Rightarrow> syscall_fun" where
  "syscall_timer_info e arg1 arg2 arg3 arg4 s =
     rbind (on_view e (\<lambda>m. store32 m arg1 (e_freq e (klog s))) (event TimerGetFreq s)) (\<lambda>s.
     rbind (on_view e (\<lambda>m. store32 m arg2 (e_ticks e (klog s))) (event TimerGetTicks s)) (\<lambda>s.
     ret (0, s)))"

definition syscall_timer_sleep :: syscall_fun where
  "syscall_timer_sleep arg1 arg2 arg3 arg4 s = ret (0, event (TimerSleep arg1) s)"

text \<open>The copy of a \<open>vbe_fb_t\<close>, field by field; its three bytes of padding have no value.\<close>

definition store_fb :: "mem \<Rightarrow> u32 \<Rightarrow> vbe_fb \<Rightarrow> mem run" where
  "store_fb m a fb =
     rbind (store32 m a (fb_addr fb)) (\<lambda>m. rbind (store32 m (a + 4) (fb_size fb)) (\<lambda>m.
     rbind (store32 m (a + 8) (pitch_in_bytes fb)) (\<lambda>m. rbind (store32 m (a + 12) (pitch_in_pix fb)) (\<lambda>m.
     rbind (store32 m (a + 16) (fb_width fb)) (\<lambda>m. rbind (store32 m (a + 20) (fb_height fb)) (\<lambda>m.
     store8 m (a + 24) (fb_bpp fb)))))))"

definition syscall_vbe_fb_info :: "env \<Rightarrow> syscall_fun" where
  "syscall_vbe_fb_info e arg1 arg2 arg3 arg4 s =
     rbind (on_view e (\<lambda>m. store_fb m arg1 (e_fb e)) (event VbeGetFb s)) (\<lambda>s. ret (0, s))"

text \<open>There is no \<open>return\<close>: the caller gets what \<open>vbe_setpixel\<close> left in \<open>eax\<close>.\<close>

definition syscall_vbe_setpix :: "env \<Rightarrow> syscall_fun" where
  "syscall_vbe_setpix e arg1 arg2 arg3 arg4 s =
     ret (e_setpix_result e (klog s), event (VbeSetPixel arg1 arg2 (ucast arg3)) s)"

text \<open>The result of \<open>task_exec\<close> is dropped.\<close>

definition syscall_task_exec :: "task_switcher \<Rightarrow> env \<Rightarrow> syscall_fun" where
  "syscall_task_exec switch e arg1 arg2 arg3 arg4 s =
     rbind (task_exec switch e arg1 arg2 arg3 s) (\<lambda>(b, s). ret (0, s))"

definition syscall_putc :: syscall_fun where
  "syscall_putc arg1 arg2 arg3 arg4 s = ret (0, event (TermPutc (ucast arg1)) s)"

text \<open>The size is stored through a \<open>char *\<close>: its low byte.\<close>

definition syscall_mod_size :: "env \<Rightarrow> syscall_fun" where
  "syscall_mod_size e arg1 arg2 arg3 arg4 s =
     rbind (module_size_by_name (view e s) (e_modules e) arg1) (\<lambda>sz.
     rbind (on_view e (\<lambda>m. store8 m arg2 (ucast sz)) s) (\<lambda>s. ret (0, s)))"

text \<open>The address goes to a local variable and is lost.\<close>

definition syscall_task_addr_by_id :: "env \<Rightarrow> syscall_fun" where
  "syscall_task_addr_by_id e arg1 arg2 arg3 arg4 s =
     (let t = get_task_addr_by_id e arg1 s in ret (0, s))"

section \<open>The dispatcher\<close>

definition syscall_func :: "task_switcher \<Rightarrow> env \<Rightarrow> syscall_fun list" where
  "syscall_func switch e =
    [syscall_term_puts,
     syscall_term_set_colors,
     syscall_keyb_get_key e,
     syscall_timer_info e,
     syscall_timer_sleep,
     syscall_vbe_fb_info e,
     syscall_vbe_setpix e,
     syscall_task_exec switch e,
     syscall_putc,
     syscall_mod_size e,
     syscall_task_addr_by_id e]"

definition syscall_handler :: "task_switcher \<Rightarrow> env \<Rightarrow> u32 \<Rightarrow> syscall_fun" where
  "syscall_handler switch e nb arg1 arg2 arg3 arg4 s =
     (if 0 \<le> sint nb \<and> sint nb < 9
      then (syscall_func switch e ! nat (sint nb)) arg1 arg2 arg3 arg4 s
      else ret (- 1, s))"

section \<open>What each call does\<close>

lemma syscall_numbers:
  "syscall_handler sw e 0 = syscall_term_puts"
  "syscall_handler sw e 1 = syscall_term_set_colors"
  "syscall_handler sw e 2 = syscall_keyb_get_key e"
  "syscall_handler sw e 3 = syscall_timer_info e"
  "syscall_handler sw e 4 = syscall_timer_sleep"
  "syscall_handler sw e 5 = syscall_vbe_fb_info e"
  "syscall_handler sw e 6 = syscall_vbe_setpix e"
  "syscall_handler sw e 7 = syscall_task_exec sw e"
  "syscall_handler sw e 8 = syscall_putc"
  by (simp_all add: fun_eq_iff syscall_handler_def syscall_func_def)

lemma syscall_beyond: "9 \<le> unat nb \<Longrightarrow> syscall_handler sw e nb a b c d s = ret (- 1, s)"
proof -
  assume "9 \<le> unat nb"
  then have "9 \<le> uint nb" by (subst uint_nat) linarith
  then have "\<not> (0 \<le> sint nb \<and> sint nb < 9)"
    using uint_u32_bounds [of nb] by (auto simp: sint_u32)
  then show ?thesis by (simp only: syscall_handler_def if_False)
qed

lemma nat9_cases: "unat (nb :: u32) < 9 \<Longrightarrow>
    nb = 0 \<or> nb = 1 \<or> nb = 2 \<or> nb = 3 \<or> nb = 4 \<or> nb = 5 \<or> nb = 6 \<or> nb = 7 \<or> nb = 8"
  by (simp add: word_unat_eq_iff) arith

text \<open>Only one call touches the tasks.\<close>

lemma syscall_keeps_tasks:
  assumes "syscall_handler sw e nb a b c d s = ret (r, s')" and "nb \<noteq> 7"
  shows "same_tasks s s'"
proof (cases "9 \<le> unat nb")
  case True
  with assms(1) show ?thesis by (simp add: syscall_beyond)
next
  case False
  then have "nb = 0 \<or> nb = 1 \<or> nb = 2 \<or> nb = 3 \<or> nb = 4 \<or> nb = 5 \<or> nb = 6 \<or> nb = 8"
    using nat9_cases [of nb] assms(2) by auto
  with assms(1) show ?thesis
    by (auto simp: syscall_numbers syscall_term_puts_def syscall_term_set_colors_def
        syscall_keyb_get_key_def syscall_timer_info_def syscall_timer_sleep_def syscall_vbe_fb_info_def
        syscall_vbe_setpix_def syscall_putc_def Let_def rbind_eq_ret
        dest!: same_tasks_on_view) (blast intro: same_tasks_trans)
qed

lemma syscall_keeps:
  assumes "syscall_handler sw e nb a b c d s = ret (r, s')" and "tasks_ok e s"
    and "\<And>sel t t'. tasks_ok e t \<Longrightarrow> sw sel t = ret t' \<Longrightarrow> tasks_ok e t' \<and> used_slots t' = used_slots t"
  shows "tasks_ok e s' \<and> used_slots s' = used_slots s"
proof (cases "nb = 7")
  case True
  with assms(1) obtain x where "task_exec sw e a b c s = ret (x, s')"
    by (auto simp: syscall_numbers syscall_task_exec_def rbind_eq_ret)
  from task_exec_keeps [OF assms(2) this assms(3)] show ?thesis .
next
  case False
  from syscall_keeps_tasks [OF assms(1) False] assms(2) show ?thesis
    by (simp add: same_tasks_ok same_tasks_used)
qed

text \<open>The registers the processor switches on are given back.\<close>

lemma on_view_regs: "on_view e f s = ret s' \<Longrightarrow> cr3_reg s' = cr3_reg s \<and> tr_reg s' = tr_reg s"
  by (auto simp: on_view_def rbind_eq_ret)

lemma timer_info_stores:
  assumes "mapped (view e s) a 4" and "mapped (view e s) b 4"
  shows "\<exists>s'. syscall_handler sw e 3 a b c d s = ret (0, s') \<and>
    view e s' = upd (upd (view e s) a (split32 (e_freq e (klog s)))) b
      (split32 (e_ticks e (klog s @ [TimerGetFreq])))"
proof -
  let ?m1 = "upd (view e s) a (split32 (e_freq e (klog s)))"
  let ?s1 = "set_view e ?m1 (event TimerGetFreq s)"
  have v1: "view e ?s1 = ?m1"
    using assms(1) by (intro view_set_view) (auto simp: dom_upd mapped_def)
  have m2: "mapped ?m1 b 4" using assms(2) by (rule mapped_upd)
  let ?m2 = "upd ?m1 b (split32 (e_ticks e (klog s @ [TimerGetFreq])))"
  have "view e (set_view e ?m2 (event TimerGetTicks ?s1)) = ?m2"
    using m2 by (intro view_set_view) (auto simp: dom_upd mapped_def v1)
  then show ?thesis
    using assms(1) m2 v1
    by (simp add: syscall_numbers syscall_timer_info_def on_view_def store32_upd)
qed

section \<open>Properties\<close>

text \<open>C29: The pointer an application passes for a key is not confined to its own memory: the kernel stores
  the key through it, also into memory of its own.\<close>

theorem keys_overwrite_kernel_memory:
  assumes "mapped (kmem s) p 4" and "kernel_region s (addrs p 4)"
  shows "\<exists>s'. syscall_handler sw e 2 p b c d s = ret (0, s') \<and>
    load32 (kmem s') p = ret (e_get_key e (klog s)) \<and> klog s' = klog s @ [KeybGetKey]"
proof -
  let ?s = "event KeybGetKey s" and ?w = "split32 (e_get_key e (klog s))"
  have kr: "kernel_region ?s (addrs p 4)" using assms(2) by (simp add: kernel_region_def)
  have m: "mapped (view e s) p 4"
    using assms view_kernel_region [OF assms(2), of _ e] by (fastforce simp: mapped_def simp del: addrs_Suc)
  have "block (kmem (set_view e (upd (view e s) p ?w) ?s)) p ?w = block (upd (view e s) p ?w) p ?w"
    using kmem_set_view [OF kr] by (intro block_agree) simp
  with m show ?thesis
    by (simp add: syscall_numbers syscall_keyb_get_key_def Let_def on_view_def store32_upd upd_block load32_split)
qed

theorem keys_overwrite_kernel_memory_witness:
  "\<exists>s'. syscall_handler (\<lambda>sel s. ret s) sample_env 2 4096 0 0 0 sample_state = ret (0, s') \<and> load32 (kmem s') 4096 = ret 65"
proof -
  have "mapped (kmem sample_state) 4096 4"
    by (auto simp: mapped_def addrs_range sample_state_def sample_dom word_less_nat_alt)
  moreover have "kernel_region sample_state (addrs 4096 4)"
    by (simp add: kernel_region_def sample_state_def del: addrs_Suc)
  moreover have "e_get_key sample_env l = 65" for l by (simp add: sample_env_def)
  ultimately show ?thesis using keys_overwrite_kernel_memory [of sample_state 4096 "\<lambda>sel s. ret s" sample_env 0 0 0] by auto
qed

end
