(* ===== verification/Ulibc.thy ===== *)
theory Ulibc
  imports Syscall "HOL-Library.Sublist"
begin

text \<open>
  The C library of the applications (\<^verbatim>\<open>user/ulibc.c\<close>). Its functions run in the address
  space of a task and reach the kernel through \<open>int 48\<close>; \<open>loc\<close>, \<open>buffer\<close> and \<open>fb\<close> are the
  addresses of their local and static variables.
\<close>

unbundle bit_operations_syntax

abbreviation syscall :: "task_switcher \<Rightarrow> env \<Rightarrow> u32 \<Rightarrow> syscall_fun" where
  "syscall \<equiv> syscall_handler"

definition void :: "(u32 \<times> kstate) run \<Rightarrow> kstate run" where
  "void r = rbind r (\<lambda>(_, s). ret s)"

section \<open>Wrappers of the system calls\<close>

definition sleep :: "task_switcher \<Rightarrow> env \<Rightarrow> u32 \<Rightarrow> kstate \<Rightarrow> kstate run" where
  "sleep sw e ms s = void (syscall sw e 4 ms 0 0 0 s)"

definition getc :: "task_switcher \<Rightarrow> env \<Rightarrow> u32 \<Rightarrow> kstate \<Rightarrow> (u32 \<times> kstate) run" where
  "getc sw e loc s = rbind (void (syscall sw e 2 loc 0 0 0 s)) (\<lambda>s.
     rbind (load32 (view e s) loc) (\<lambda>c. ret (c, s)))"

definition putc :: "task_switcher \<Rightarrow> env \<Rightarrow> u8 \<Rightarrow> kstate \<Rightarrow> kstate run" where
  "putc sw e c s = void (syscall sw e 8 (scast c) 0 0 0 s)"

definition puts :: "task_switcher \<Rightarrow> env \<Rightarrow> u32 \<Rightarrow> kstate \<Rightarrow> kstate run" where
  "puts sw e p s = void (syscall sw e 0 p 0 0 0 s)"

definition BUFFER_SIZE :: u32 where "BUFFER_SIZE = 1024"

definition printf :: "task_switcher \<Rightarrow> env \<Rightarrow> u32 \<Rightarrow> u32 \<Rightarrow> u32 list \<Rightarrow> kstate \<Rightarrow> kstate run" where
  "printf sw e buffer fmt args s =
     rbind (vsnprintf (view e s) buffer BUFFER_SIZE fmt args) (\<lambda>(_, m).
       puts sw e buffer (set_view e m s))"

definition set_colors :: "task_switcher \<Rightarrow> env \<Rightarrow> term_colors \<Rightarrow> kstate \<Rightarrow> kstate run" where
  "set_colors sw e cols s = void (syscall sw e 1 (ucast (fg cols)) (ucast (bg cols)) 0 0 s)"

text \<open>No \<open>return\<close> either: a \<open>bool\<close> is what the low byte of \<open>eax\<close> happens to hold.\<close>

definition user_task_exec :: "task_switcher \<Rightarrow> env \<Rightarrow> u32 \<Rightarrow> u32 \<Rightarrow> u32 \<Rightarrow> kstate \<Rightarrow> (u8 \<times> kstate) run" where
  "user_task_exec sw e filename argc argv s =
     rbind (syscall sw e 7 filename argc argv 0 s) (\<lambda>(r, s). ret (ucast r, s))"

definition timer_info :: "task_switcher \<Rightarrow> env \<Rightarrow> u32 \<Rightarrow> u32 \<Rightarrow> kstate \<Rightarrow> kstate run" where
  "timer_info sw e freq ticks s = void (syscall sw e 3 freq ticks 0 0 s)"

text \<open>The frequency is asked for at address 0.\<close>

definition get_ticks :: "task_switcher \<Rightarrow> env \<Rightarrow> u32 \<Rightarrow> kstate \<Rightarrow> (u32 \<times> kstate) run" where
  "get_ticks sw e loc s = rbind (timer_info sw e 0 loc s) (\<lambda>s.
     rbind (load32 (view e s) loc) (\<lambda>t. ret (t, s)))"

definition vbe_init :: "task_switcher \<Rightarrow> env \<Rightarrow> u32 \<Rightarrow> u32 \<Rightarrow> u32 \<Rightarrow> kstate \<Rightarrow> kstate run" where
  "vbe_init sw e fb width height s =
     rbind (void (syscall sw e 5 fb 0 0 0 s)) (\<lambda>s.
     rbind (load32 (view e s) (fb + 16)) (\<lambda>w.
     rbind (on_view e (\<lambda>m. store32 m width w) s) (\<lambda>s.
     rbind (load32 (view e s) (fb + 20)) (\<lambda>h.
     on_view e (\<lambda>m. store32 m height h) s))))"

definition vbe_setpixel_syscall :: "task_switcher \<Rightarrow> env \<Rightarrow> u32 \<Rightarrow> u32 \<Rightarrow> u16 \<Rightarrow> kstate \<Rightarrow> kstate run" where
  "vbe_setpixel_syscall sw e x y color s = void (syscall sw e 6 x y (ucast color) 0 s)"

definition store16 :: "mem \<Rightarrow> u32 \<Rightarrow> u16 \<Rightarrow> mem run" where
  "store16 m a w = rbind (store8 m a (ucast w)) (\<lambda>m. store8 m (a + 1) (ucast (drop_bit 8 w)))"

text \<open>Pointer arithmetic on \<open>uint16_t *\<close> counts two bytes a step.\<close>

definition vbe_setpixel :: "env \<Rightarrow> u32 \<Rightarrow> u32 \<Rightarrow> u32 \<Rightarrow> u16 \<Rightarrow> kstate \<Rightarrow> kstate run" where
  "vbe_setpixel e fb x y color s =
     rbind (load32 (view e s) fb) (\<lambda>addr.
     rbind (load32 (view e s) (fb + 12)) (\<lambda>pitch.
     on_view e (\<lambda>m. store16 m (addr + 2 * (y * pitch) + 2 * x) color) s))"

text \<open>The two calls the dispatcher does not know; the local \<open>size\<close> is returned as it is.\<close>

definition get_mod_size :: "task_switcher \<Rightarrow> env \<Rightarrow> u32 \<Rightarrow> u32 \<Rightarrow> kstate \<Rightarrow> (u32 \<times> kstate) run" where
  "get_mod_size sw e loc filename s =
     rbind (void (syscall sw e 9 filename loc 0 0 s)) (\<lambda>s.
     rbind (load32 (view e s) loc) (\<lambda>n. ret (n, s)))"

definition user_get_task_addr_by_id :: "task_switcher \<Rightarrow> env \<Rightarrow> u32 \<Rightarrow> u32 \<Rightarrow> kstate \<Rightarrow> kstate run" where
  "user_get_task_addr_by_id sw e loc tid s = void (syscall sw e 10 tid loc 0 0 s)"

definition get_args_count :: "task_switcher \<Rightarrow> env \<Rightarrow> u32 \<Rightarrow> kstate \<Rightarrow> (u32 \<times> kstate) run" where
  "get_args_count sw e loc s = rbind (user_get_task_addr_by_id sw e loc 1 s) (\<lambda>s. ret (0, s))"

definition get_args :: "u32 \<Rightarrow> u32" where
  "get_args i = 0"

section \<open>Reading a line\<close>

definition TAB_SIZE :: nat where "TAB_SIZE = 4"

text \<open>\<open>putc(c); *buf = c; buf++;\<close>, and the tab's loop over it.\<close>

definition type_char :: "(u8 \<Rightarrow> 's \<Rightarrow> 's run) \<Rightarrow> (u32 \<Rightarrow> u8 \<Rightarrow> 's \<Rightarrow> 's run) \<Rightarrow> u8 \<Rightarrow> u32 \<Rightarrow> 's \<Rightarrow> (u32 \<times> 's) run" where
  "type_char put poke c buf s = rbind (put c s) (\<lambda>s. rbind (poke buf c s) (\<lambda>s. ret (buf + 1, s)))"

primrec type_chars :: "(u8 \<Rightarrow> 's \<Rightarrow> 's run) \<Rightarrow> (u32 \<Rightarrow> u8 \<Rightarrow> 's \<Rightarrow> 's run) \<Rightarrow> u8 \<Rightarrow> nat \<Rightarrow> u32 \<Rightarrow> 's \<Rightarrow> (u32 \<times> 's) run" where
  "type_chars put poke c 0 buf s = ret (buf, s)"
| "type_chars put poke c (Suc n) buf s =
     rbind (type_char put poke c buf s) (\<lambda>(buf, s). type_chars put poke c n buf s)"

text \<open>What one key does to the pointer; \<open>None\<close> is the \<open>break\<close> on a newline.\<close>

definition read_key :: "(u8 \<Rightarrow> 's \<Rightarrow> 's run) \<Rightarrow> (u32 \<Rightarrow> u8 \<Rightarrow> 's \<Rightarrow> 's run) \<Rightarrow> u32 \<Rightarrow> u32 \<Rightarrow> u32 \<Rightarrow> 's \<Rightarrow>
    (u32 option \<times> 's) run" where
  "read_key put poke start c buf s =
     (if c = 0 then ret (Some buf, s)
      else if c = 8 then
        (if sint (buf - start) > 0 then rbind (put (ucast c) s) (\<lambda>s. ret (Some (buf - 1), s))
         else ret (Some buf, s))
      else if c = 10 then ret (None, s)
      else if c = 9 then
        rbind (type_chars put poke (of_char (CHR '' '')) TAB_SIZE buf s) (\<lambda>(buf, s). ret (Some buf, s))
      else rbind (type_char put poke (ucast c) buf s) (\<lambda>(buf, s). ret (Some buf, s)))"

partial_function (option) read_loop :: "('s \<Rightarrow> (u32 \<times> 's) run) \<Rightarrow> (u8 \<Rightarrow> 's \<Rightarrow> 's run) \<Rightarrow>
    (u32 \<Rightarrow> u8 \<Rightarrow> 's \<Rightarrow> 's run) \<Rightarrow> u32 \<Rightarrow> u32 \<Rightarrow> 's \<Rightarrow> 's run" where
  "read_loop get put poke start buf s =
     rbind (get s) (\<lambda>r. rbind (read_key put poke start (fst r) buf (snd r)) (\<lambda>q.
       case fst q of None \<Rightarrow> poke buf 0 (snd q)
       | Some buf \<Rightarrow> read_loop get put poke start buf (snd q)))"

definition poke :: "env \<Rightarrow> u32 \<Rightarrow> u8 \<Rightarrow> kstate \<Rightarrow> kstate run" where
  "poke e a b = on_view e (\<lambda>m. store8 m a b)"

definition read_string :: "task_switcher \<Rightarrow> env \<Rightarrow> u32 \<Rightarrow> u32 \<Rightarrow> kstate \<Rightarrow> kstate run" where
  "read_string sw e loc buf = read_loop (getc sw e loc) (putc sw e) (poke e) buf buf"

section \<open>Strings\<close>

partial_function (option) starts_with :: "mem \<Rightarrow> u32 \<Rightarrow> u32 \<Rightarrow> u32 run" where
  "starts_with m pre str = rbind (load8 m pre) (\<lambda>p.
     if p = 0 then ret 1
     else rbind (load8 m str) (\<lambda>c. if c \<noteq> p then ret 0 else starts_with m (pre + 1) (str + 1)))"

partial_function (option) skip_spaces :: "mem \<Rightarrow> u32 \<Rightarrow> u32 run" where
  "skip_spaces m line = rbind (load8 m line) (\<lambda>c.
     if c = of_char (CHR '' '') then skip_spaces m (line + 1) else ret line)"

text \<open>\<open>while (*s == ' ') { s--; cut = 1; }\<close>\<close>

partial_function (option) skip_back :: "mem \<Rightarrow> u32 \<Rightarrow> bool \<Rightarrow> (u32 \<times> bool) run" where
  "skip_back m s cut' = rbind (load8 m s) (\<lambda>c.
     if c = of_char (CHR '' '') then skip_back m (s - 1) True else ret (s, cut'))"

definition trim :: "mem \<Rightarrow> u32 \<Rightarrow> (u32 \<times> mem) run" where
  "trim m line = rbind (skip_spaces m line) (\<lambda>line.
     rbind (strlen m line) (\<lambda>len.
     if sint len > 0 then
       rbind (skip_back m (line + len - 1) False) (\<lambda>(s, cut').
       if cut' then rbind (store8 m (s + 1) 0) (\<lambda>m. ret (line, m)) else ret (line, m))
     else ret (line, m)))"


section \<open>The line editor\<close>

text \<open>What a key does to the line, and what it echoes.\<close>

definition edit_key :: "u32 \<Rightarrow> u8 list \<Rightarrow> u8 list" where
  "edit_key k line =
     (if k = 0 then line else if k = 8 then butlast line
      else if k = 9 then line @ replicate TAB_SIZE 32 else line @ [ucast k])"

definition echo_key :: "u32 \<Rightarrow> u8 list \<Rightarrow> u8 list" where
  "echo_key k line =
     (if k = 0 then [] else if k = 8 then (if line = [] then [] else [8])
      else if k = 9 then replicate TAB_SIZE 32 else [ucast k])"

primrec edit :: "u32 list \<Rightarrow> u8 list \<Rightarrow> u8 list" where
  "edit [] line = line"
| "edit (k # ks) line = edit ks (edit_key k line)"

primrec echo :: "u32 list \<Rightarrow> u8 list \<Rightarrow> u8 list" where
  "echo [] line = []"
| "echo (k # ks) line = echo_key k line @ echo ks (edit_key k line)"

text \<open>
  The console as \<open>read_string\<close> uses it: \<open>get\<close> takes the next key, \<open>put\<close> shows a character,
  \<open>poke\<close> stores one in the buffer \<open>R\<close>, and none disturbs what the others keep.
\<close>

locale console =
  fixes get :: "'s \<Rightarrow> (u32 \<times> 's) run"
    and put :: "u8 \<Rightarrow> 's \<Rightarrow> 's run"
    and poke :: "u32 \<Rightarrow> u8 \<Rightarrow> 's \<Rightarrow> 's run"
    and inv :: "'s \<Rightarrow> bool"
    and key :: "'s \<Rightarrow> nat \<Rightarrow> u32"
    and out :: "'s \<Rightarrow> u8 list"
    and peek :: "'s \<Rightarrow> mem"
    and R :: "u32 set"
  assumes get: "inv s \<Longrightarrow> \<exists>s'. get s = ret (key s 0, s') \<and> inv s' \<and> (\<forall>n. key s' n = key s (Suc n)) \<and>
      out s' = out s \<and> (\<forall>a \<in> R. peek s' a = peek s a)"
    and put: "inv s \<Longrightarrow> \<exists>s'. put c s = ret s' \<and> inv s' \<and> key s' = key s \<and> out s' = out s @ [c] \<and>
      (\<forall>a \<in> R. peek s' a = peek s a)"
    and poke: "inv s \<Longrightarrow> a \<in> R \<Longrightarrow> \<exists>s'. poke a b s = ret s' \<and> inv s' \<and> key s' = key s \<and> out s' = out s \<and>
      (\<forall>x \<in> R. peek s' x = ((peek s)(a \<mapsto> b)) x)"
begin

text \<open>
  The line typed so far is in the buffer of \<open>N\<close> bytes at \<open>start\<close>, with room for its terminator;
  the rest of \<open>R\<close> is as in \<open>s0\<close>.
\<close>

definition holds :: "'s \<Rightarrow> u32 \<Rightarrow> nat \<Rightarrow> u8 list \<Rightarrow> 's \<Rightarrow> bool" where
  "holds s0 start N line s \<longleftrightarrow> inv s \<and> block (peek s) start line \<and> length line < N \<and> N \<le> 2 ^ 31 \<and>
     addrs start N \<subseteq> R \<and> (\<forall>a \<in> R. a \<notin> addrs start N \<longrightarrow> peek s a = peek s0 a)"

lemma holds_addr:
  assumes "holds s0 start N line s"
  shows "start + of_nat (length line) \<in> addrs start N" "start + of_nat (length line) \<in> R"
    "start + of_nat (length line) \<notin> addrs start (length line)" "addrs start (length line) \<subseteq> R"
proof -
  have l: "length line < N" "N \<le> 2 ^ 31" "addrs start N \<subseteq> R" using assms by (simp_all add: holds_def)
  then show "start + of_nat (length line) \<in> addrs start N" by (intro mem_addrs)
  with l show "start + of_nat (length line) \<in> R" by blast
  show "start + of_nat (length line) \<notin> addrs start (length line)" using l by (intro end_notin_addrs) simp
  show "addrs start (length line) \<subseteq> R" using l addrs_mono [of "length line" N start] by simp
qed

lemma holds_same: "holds s0 start N line s \<Longrightarrow> inv s' \<Longrightarrow> \<forall>a \<in> R. peek s' a = peek s a \<Longrightarrow> holds s0 start N line s'"
  using holds_addr(4) [of s0 start N line s] block_agree [of start line "peek s'" "peek s"]
  by (auto simp: holds_def)

text \<open>A character stored at the end of the line.\<close>

lemma holds_poke:
  assumes "holds s0 start N line s"
  shows "\<exists>s'. poke (start + of_nat (length line)) c s = ret s' \<and> inv s' \<and> key s' = key s \<and> out s' = out s \<and>
    block (peek s') start (line @ [c]) \<and> (\<forall>a \<in> R. a \<notin> addrs start N \<longrightarrow> peek s' a = peek s0 a)"
proof -
  let ?p = "start + of_nat (length line)"
  note p = holds_addr [OF assms]
  obtain s' where s': "poke ?p c s = ret s'" "inv s'" "key s' = key s" "out s' = out s"
    "\<forall>x \<in> R. peek s' x = ((peek s)(?p \<mapsto> c)) x"
    using poke [of s ?p c] p(2) assms by (auto simp: holds_def)
  have "block (peek s') start line = block (peek s) start line"
    using s'(5) p(3,4) by (intro block_agree) auto
  then have "block (peek s') start (line @ [c])"
    using assms s'(5) p(2) by (simp add: block_append holds_def)
  moreover have "\<forall>a \<in> R. a \<notin> addrs start N \<longrightarrow> peek s' a = peek s0 a"
    using s'(5) p(1) assms by (auto simp: holds_def)
  ultimately show ?thesis using s' by blast
qed

lemma type_char:
  assumes "holds s0 start N line s" and "Suc (length line) < N"
  shows "\<exists>s'. type_char put poke c (start + of_nat (length line)) s
      = ret (start + of_nat (length (line @ [c])), s') \<and>
    holds s0 start N (line @ [c]) s' \<and> key s' = key s \<and> out s' = out s @ [c]"
proof -
  obtain s1 where s1: "put c s = ret s1" "inv s1" "key s1 = key s" "out s1 = out s @ [c]"
    "\<forall>a \<in> R. peek s1 a = peek s a"
    using put [of s c] assms by (auto simp: holds_def)
  have "holds s0 start N line s1" using holds_same [OF assms(1)] s1 by simp
  from holds_poke [OF this, of c] obtain s2 where
    "poke (start + of_nat (length line)) c s1 = ret s2" "inv s2" "key s2 = key s1" "out s2 = out s1"
    "block (peek s2) start (line @ [c])" "\<forall>a \<in> R. a \<notin> addrs start N \<longrightarrow> peek s2 a = peek s0 a"
    by blast
  with s1 assms show ?thesis by (simp add: type_char_def holds_def add.assoc)
qed

lemma type_chars:
  assumes "holds s0 start N line s" and "length line + k < N"
  shows "\<exists>s'. type_chars put poke c k (start + of_nat (length line)) s
      = ret (start + of_nat (length (line @ replicate k c)), s') \<and>
    holds s0 start N (line @ replicate k c) s' \<and> key s' = key s \<and> out s' = out s @ replicate k c"
  using assms
proof (induction k arbitrary: line s)
  case (Suc k)
  from type_char [OF Suc.prems(1), of c] Suc.prems(2) obtain s1 where
    s1: "type_char put poke c (start + of_nat (length line)) s = ret (start + of_nat (length (line @ [c])), s1)"
      "holds s0 start N (line @ [c]) s1" "key s1 = key s" "out s1 = out s @ [c]"
    by auto
  from Suc.IH [OF s1(2)] s1 Suc.prems(2) show ?case by auto
qed auto

lemma read_key:
  assumes "holds s0 start N line s" and "length line + 4 < N" and "k \<noteq> 10"
  shows "\<exists>s'. read_key put poke start k (start + of_nat (length line)) s
      = ret (Some (start + of_nat (length (edit_key k line))), s') \<and>
    holds s0 start N (edit_key k line) s' \<and> key s' = key s \<and> out s' = out s @ echo_key k line"
proof -
  have len: "sint (of_nat (length line) :: u32) = int (length line)"
    using assms(1) sint_u32_small [of "int (length line)"] by (simp add: holds_def)
  consider "k = 0" | "k = 8" "line = []" | "k = 8" "line \<noteq> []" | "k = 9" | "k \<noteq> 0 \<and> k \<noteq> 8 \<and> k \<noteq> 9"
    by blast
  then show ?thesis
  proof cases
    case 3
    obtain s1 where s1: "put 8 s = ret s1" "inv s1" "key s1 = key s" "out s1 = out s @ [8]"
      "\<forall>a \<in> R. peek s1 a = peek s a"
      using put [of s 8] assms(1) by (auto simp: holds_def)
    obtain xs x where line: "line = xs @ [x]" using 3 by (metis rev_exhaust)
    have "holds s0 start N line s1" using holds_same [OF assms(1)] s1 by simp
    then have "holds s0 start N xs s1" by (simp add: holds_def line block_append)
    with 3 s1 len show ?thesis by (simp add: read_key_def edit_key_def echo_key_def line)
  next
    case 4
    with type_chars [OF assms(1), of TAB_SIZE 32] assms(2) show ?thesis
      by (auto simp: read_key_def edit_key_def echo_key_def TAB_SIZE_def)
  next
    case 5
    with type_char [OF assms(1), of "ucast k"] assms(2,3) show ?thesis
      by (auto simp: read_key_def edit_key_def echo_key_def)
  qed (use assms in \<open>simp_all add: read_key_def edit_key_def echo_key_def\<close>)
qed

lemma read_loop:
  assumes "holds s0 start N line s" and "length line + 4 * length ks < N"
    and "\<forall>j < length ks. key s j = ks ! j" and "key s (length ks) = 10" and "10 \<notin> set ks"
  shows "\<exists>s'. read_loop get put poke start (start + of_nat (length line)) s = ret s' \<and>
    block (peek s') start (edit ks line @ [0]) \<and> out s' = out s @ echo ks line \<and> inv s' \<and>
    (\<forall>a \<in> R. a \<notin> addrs start N \<longrightarrow> peek s' a = peek s0 a)"
  using assms
proof (induction ks arbitrary: s line)
  case Nil
  obtain s1 where s1: "get s = ret (10, s1)" "inv s1" "out s1 = out s" "\<forall>a \<in> R. peek s1 a = peek s a"
    using get [of s] Nil by (auto simp: holds_def)
  have "holds s0 start N line s1" using holds_same [OF Nil.prems(1)] s1 by simp
  from holds_poke [OF this, of 0] s1 show ?case by (subst read_loop.simps) (auto simp: read_key_def)
next
  case (Cons k ks)
  obtain s1 where s1: "get s = ret (k, s1)" "inv s1" "\<forall>n. key s1 n = key s (Suc n)" "out s1 = out s"
    "\<forall>a \<in> R. peek s1 a = peek s a"
    using get [of s] Cons.prems by (auto simp: holds_def)
  have h1: "holds s0 start N line s1" using holds_same [OF Cons.prems(1) s1(2,5)] .
  have k: "length line + 4 < N" "k \<noteq> 10" using Cons.prems(2,5) by auto
  from read_key [OF h1 k] obtain s2 where
    s2: "read_key put poke start k (start + of_nat (length line)) s1
        = ret (Some (start + of_nat (length (edit_key k line))), s2)"
      "holds s0 start N (edit_key k line) s2" "key s2 = key s1" "out s2 = out s1 @ echo_key k line"
    by blast
  have "length (edit_key k line) \<le> length line + 4" by (auto simp: edit_key_def TAB_SIZE_def)
  then have "length (edit_key k line) + 4 * length ks < N" using Cons.prems(2) by simp
  moreover have "\<forall>j < length ks. key s2 j = ks ! j" "key s2 (length ks) = 10"
    using Cons.prems(3,4) s1(3) s2(3) by auto
  ultimately obtain s' where "read_loop get put poke start (start + of_nat (length (edit_key k line))) s2 = ret s' \<and>
    block (peek s') start (edit ks (edit_key k line) @ [0]) \<and> out s' = out s2 @ echo ks (edit_key k line) \<and>
    inv s' \<and> (\<forall>a \<in> R. a \<notin> addrs start N \<longrightarrow> peek s' a = peek s0 a)"
    using Cons.IH [OF s2(2)] Cons.prems(5) by auto
  with s1 s2 show ?case by (subst read_loop.simps) auto
qed

end

subsection \<open>The console of a task\<close>

text \<open>A keyboard that delivers the keys of \<open>K\<close> one after the other (0: none waiting).\<close>

definition with_keys :: "(nat \<Rightarrow> u32) \<Rightarrow> env \<Rightarrow> env" where
  "with_keys K e = e\<lparr>e_get_key := (\<lambda>log. K (count_list log KeybGetKey))\<rparr>"

definition next_key :: "(nat \<Rightarrow> u32) \<Rightarrow> kstate \<Rightarrow> nat \<Rightarrow> u32" where
  "next_key K s n = K (count_list (klog s) KeybGetKey + n)"

definition typed :: "kstate \<Rightarrow> u8 list" where
  "typed s = concat (map (\<lambda>ev. case ev of TermPutc c \<Rightarrow> [c] | _ \<Rightarrow> []) (klog s))"

definition console_ok :: "env \<Rightarrow> u32 \<Rightarrow> u32 set \<Rightarrow> kstate \<Rightarrow> bool" where
  "console_ok e loc R s \<longleftrightarrow> addrs loc 4 \<subseteq> dom (view e s) \<and> R \<subseteq> dom (view e s) \<and> addrs loc 4 \<inter> R = {}"

lemma view_with_keys [simp]: "view (with_keys K e) s = view e s"
  by (simp add: view_def active_space_def pagedir_addr_def task_addr_def with_keys_def)

lemma set_view_with_keys [simp]: "set_view (with_keys K e) m s = set_view e m s"
  by (simp add: set_view_def active_space_def pagedir_addr_def task_addr_def with_keys_def)

lemma get_key_with_keys [simp]: "e_get_key (with_keys K e) (klog s) = next_key K s 0"
  by (simp add: with_keys_def next_key_def)

lemma getc_reads:
  assumes "addrs loc 4 \<subseteq> dom (view e s)"
  shows "\<exists>s'. getc sw e loc s = ret (e_get_key e (klog s), s') \<and> klog s' = klog s @ [KeybGetKey] \<and>
    view e s' = upd (view e s) loc (split32 (e_get_key e (klog s)))"
proof -
  let ?m = "upd (view e s) loc (split32 (e_get_key e (klog s)))" and ?s = "event KeybGetKey s"
  have v: "view e (set_view e ?m ?s) = ?m"
    using assms by (intro view_set_view) (auto simp: dom_upd simp del: addrs_Suc)
  have "load32 ?m loc = ret (e_get_key e (klog s))"
    by (intro load32_split upd_block) simp
  with v assms show ?thesis
    by (simp add: getc_def void_def syscall_numbers syscall_keyb_get_key_def Let_def on_view_def
        store32_upd mapped_def)
qed

lemma ucast_scast_u8: "ucast (scast (c :: u8) :: u32) = c"
  by (rule bit_word_eqI) (simp add: bit_simps)

lemma putc_shows: "putc sw e c s = ret (event (TermPutc c) s)"
  by (simp add: putc_def void_def syscall_numbers syscall_putc_def ucast_scast_u8)

lemma poke_upd: "a \<in> dom (view e s) \<Longrightarrow>
    \<exists>s'. poke e a b s = ret s' \<and> klog s' = klog s \<and> view e s' = (view e s)(a \<mapsto> b)"
proof -
  assume a: "a \<in> dom (view e s)"
  then have "view e (set_view e ((view e s)(a \<mapsto> b)) s) = (view e s)(a \<mapsto> b)"
    by (intro view_set_view) auto
  with a show ?thesis by (simp add: poke_def on_view_def)
qed

interpretation task_console: console "getc sw (with_keys K e) loc" "putc sw (with_keys K e)" "poke (with_keys K e)"
  "console_ok e loc R" "next_key K" typed "view e" R
proof unfold_locales
  fix s :: kstate and c b a
  assume ok: "console_ok e loc R s"
  then obtain s' where "getc sw (with_keys K e) loc s = ret (next_key K s 0, s')"
    "klog s' = klog s @ [KeybGetKey]" "view e s' = upd (view e s) loc (split32 (next_key K s 0))"
    using getc_reads [of loc "with_keys K e" s sw]
    by (auto simp: console_ok_def simp del: addrs_Suc)
  with ok show "\<exists>s'. getc sw (with_keys K e) loc s = ret (next_key K s 0, s') \<and> console_ok e loc R s' \<and>
      (\<forall>n. next_key K s' n = next_key K s (Suc n)) \<and> typed s' = typed s \<and> (\<forall>a \<in> R. view e s' a = view e s a)"
    by (intro exI [of _ s'])
       (auto simp: console_ok_def next_key_def typed_def dom_upd simp del: addrs_Suc intro!: upd_outside)
  show "\<exists>s'. putc sw (with_keys K e) c s = ret s' \<and> console_ok e loc R s' \<and> next_key K s' = next_key K s \<and>
      typed s' = typed s @ [c] \<and> (\<forall>a \<in> R. view e s' a = view e s a)"
    using ok by (simp add: putc_shows console_ok_def next_key_def typed_def fun_eq_iff)
  assume "a \<in> R"
  with ok obtain s' where "poke (with_keys K e) a b s = ret s'" "klog s' = klog s" "view e s' = (view e s)(a \<mapsto> b)"
    using poke_upd [of a "with_keys K e" s b] by (auto simp: console_ok_def simp del: addrs_Suc)
  with ok show "\<exists>s'. poke (with_keys K e) a b s = ret s' \<and> console_ok e loc R s' \<and> next_key K s' = next_key K s \<and>
      typed s' = typed s \<and> (\<forall>x \<in> R. view e s' x = ((view e s)(a \<mapsto> b)) x)"
    by (intro exI [of _ s']) (auto simp: console_ok_def next_key_def typed_def fun_eq_iff simp del: addrs_Suc)
qed

lemma read_string_edits:
  assumes "console_ok e loc R s" and "addrs buf N \<subseteq> R" and "4 * length ks < N" and "N \<le> 2 ^ 31"
    and "\<forall>j < length ks. next_key K s j = ks ! j" and "next_key K s (length ks) = 10" and "10 \<notin> set ks"
  shows "\<exists>s'. read_string sw (with_keys K e) loc buf s = ret s' \<and>
    block (view e s') buf (edit ks [] @ [0]) \<and> typed s' = typed s @ echo ks [] \<and>
    (\<forall>a \<in> R. a \<notin> addrs buf N \<longrightarrow> view e s' a = view e s a)"
  using task_console.read_loop [of e loc R s buf N "[]" s ks K sw] assms
  by (fastforce simp: read_string_def task_console.holds_def)

section \<open>\<open>starts_with\<close> and \<open>trim\<close>\<close>

lemma starts_with_cstr: "cstr m p xs \<Longrightarrow> cstr m q ys \<Longrightarrow>
    starts_with m p q = ret (if prefix xs ys then 1 else 0)"
proof (induction xs arbitrary: p q ys)
  case Nil
  then show ?case by (subst starts_with.simps) simp
next
  case (Cons x xs)
  then show ?case
    by (cases ys; subst starts_with.simps) auto
qed

definition is_space :: "u8 \<Rightarrow> bool" where
  "is_space c \<longleftrightarrow> c = 32"

text \<open>A line without the spaces at its ends.\<close>

definition trimmed :: "u8 list \<Rightarrow> u8 list" where
  "trimmed xs = rev (dropWhile is_space (rev (dropWhile is_space xs)))"

lemma skip_spaces_cstr: "cstr m line xs \<Longrightarrow>
    skip_spaces m line = ret (line + of_nat (length (takeWhile is_space xs))) \<and>
    cstr m (line + of_nat (length (takeWhile is_space xs))) (dropWhile is_space xs)"
proof (induction xs arbitrary: line)
  case Nil
  then show ?case by (subst skip_spaces.simps) simp
next
  case (Cons x xs)
  from Cons.IH [of "line + 1"] Cons.prems show ?case
    by (subst skip_spaces.simps) (auto simp: is_space_def [abs_def] add.assoc)
qed

lemma skip_back_block: "block m line (zs @ z # replicate n 32) \<Longrightarrow> z \<noteq> 32 \<Longrightarrow>
    skip_back m (line + of_nat (length zs + n)) c = ret (line + of_nat (length zs), c \<or> 0 < n)"
proof (induction n arbitrary: c)
  case 0
  then show ?case by (subst skip_back.simps) (simp add: block_append)
next
  case (Suc n)
  have "block m line ((zs @ z # replicate n 32) @ [32])"
    using Suc.prems(1) by (simp add: replicate_append_same)
  then have "m (line + of_nat (length zs + Suc n)) = Some 32" "block m line (zs @ z # replicate n 32)"
    unfolding block_append [of m line "zs @ z # replicate n 32"] by (simp_all add: add.assoc)
  with Suc show ?case
    by (subst skip_back.simps) (simp add: algebra_simps)
qed

lemma split_trailing:
  assumes "xs \<noteq> []" and "\<not> is_space (hd xs)"
  obtains zs z n where "xs = zs @ z # replicate n 32" "z \<noteq> 32"
    "rev (dropWhile is_space (rev xs)) = zs @ [z]"
proof -
  let ?t = "takeWhile is_space (rev xs)" and ?d = "dropWhile is_space (rev xs)"
  have "last (rev xs) = hd xs" using assms(1) by (simp add: last_rev)
  then have "?d \<noteq> []" using assms by (auto simp: dropWhile_eq_Nil_conv)
  then obtain z zs where d: "?d = z # zs" by (cases ?d) auto
  have "set ?t \<subseteq> {32}" by (auto simp: is_space_def dest: set_takeWhileD)
  then have t: "?t = replicate (length ?t) 32" by (simp add: replicate_length_same subset_iff)
  have "rev xs = ?t @ ?d" by simp
  then have "xs = rev ?d @ rev ?t" by (metis rev_append rev_rev_ident)
  also have "rev ?t = replicate (length ?t) 32" by (subst t) simp
  finally have "xs = rev zs @ z # replicate (length ?t) 32" by (simp add: d)
  moreover have "z \<noteq> 32" using d hd_dropWhile [of is_space "rev xs"] by (auto simp: is_space_def)
  moreover have "rev ?d = rev zs @ [z]" by (simp add: d)
  ultimately show ?thesis by (rule that)
qed

text \<open>The terminator \<open>trim\<close> stores over the first of the trailing spaces.\<close>

lemma cut_trailing:
  assumes "cstr m l (zs @ z # replicate n 32)" and "0 < n" and "length (zs @ z # replicate n 32) < 2 ^ 31"
  defines "a \<equiv> l + of_nat (length (zs @ [z]))"
  shows "store8 m a 0 = ret (m(a \<mapsto> 0)) \<and> a \<in> dom m \<and> cstr (m(a \<mapsto> 0)) l (zs @ [z])"
proof -
  have "a \<in> addrs l (Suc (length (zs @ z # replicate n 32)))"
    unfolding a_def by (rule mem_addrs) simp
  then have d: "a \<in> dom m" using cstr_mapped [OF assms(1)] unfolding mapped_def by blast
  have "length (zs @ [z]) < 2 ^ 32" using assms(3) by simp
  then have "a \<notin> addrs l (length (zs @ [z]))" unfolding a_def by (rule end_notin_addrs)
  then have "block (m(a \<mapsto> 0)) l (zs @ [z]) = block m l (zs @ [z])" by (intro block_agree) auto
  then have "cstr (m(a \<mapsto> 0)) l (zs @ [z])"
    using assms(1) by (auto simp: cstr_block block_append a_def add.assoc)
  with d show ?thesis by auto
qed

lemma trim_cstr:
  assumes "cstr m line xs" and "length xs < 2 ^ 31"
  shows "\<exists>m'. trim m line = ret (line + of_nat (length (takeWhile is_space xs)), m') \<and>
    cstr m' (line + of_nat (length (takeWhile is_space xs))) (trimmed xs) \<and>
    dom m' = dom m \<and> (\<forall>a. a \<notin> addrs line (length xs) \<longrightarrow> m' a = m a)"
proof -
  let ?l = "line + of_nat (length (takeWhile is_space xs))" and ?ys = "dropWhile is_space xs"
  note s = skip_spaces_cstr [OF assms(1)]
  then have c: "cstr m ?l ?ys" and len: "strlen m ?l = ret (of_nat (length ?ys))"
    by (simp_all add: strlen_cstr)
  have lt: "length ?ys < 2 ^ 31" using length_dropWhile_le [of is_space xs] assms(2) by linarith
  then have sint: "sint (of_nat (length ?ys) :: u32) = int (length ?ys)"
    using sint_u32_small [of "int (length ?ys)"] by simp
  show ?thesis
  proof (cases "?ys = []")
    case True
    have "trimmed xs = []" unfolding trimmed_def True by simp
    with s c [unfolded True] len [unfolded True] show ?thesis by (simp add: trim_def)
  next
    case False
    then have "\<not> is_space (hd ?ys)" using hd_dropWhile [of is_space xs] by simp
    with False obtain zs z n where ys: "?ys = zs @ z # replicate n 32" "z \<noteq> 32"
      "rev (dropWhile is_space (rev ?ys)) = zs @ [z]"
      by (rule split_trailing)
    have "?l + of_nat (length ?ys) - 1 = ?l + of_nat (length zs + n)" by (simp add: ys(1))
    then have b: "skip_back m (?l + of_nat (length ?ys) - 1) False = ret (?l + of_nat (length zs), 0 < n)"
      using c ys by (simp only:) (subst skip_back_block, auto simp: cstr_block block_append)
    have t: "trimmed xs = zs @ [z]" using ys by (simp add: trimmed_def)
    show ?thesis
    proof (cases "n = 0")
      case True
      with s c len sint False b ys t show ?thesis by (simp add: trim_def)
    next
      case n: False
      let ?a = "?l + of_nat (length (zs @ [z]))"
      have "length xs = length (takeWhile is_space xs) + length ?ys"
        by (metis length_append takeWhile_dropWhile_id)
      then have "?a \<in> addrs line (length xs)"
        using n mem_addrs [of "length (takeWhile is_space xs) + length (zs @ [z])" "length xs" line]
        by (simp add: ys(1) ac_simps)
      moreover have "store8 m ?a 0 = ret (m(?a \<mapsto> 0)) \<and> ?a \<in> dom m \<and> cstr (m(?a \<mapsto> 0)) ?l (zs @ [z])"
        using n c lt unfolding ys(1) by (intro cut_trailing) auto
      moreover from this have "trim m line = ret (?l, m(?a \<mapsto> 0))"
        using s len sint False b n ys by (simp add: trim_def ac_simps)
      ultimately show ?thesis using t by (auto simp: insert_absorb)
    qed
  qed
qed

section \<open>Properties\<close>

text \<open>C30: The calls 9 and 10 of the library are refused by the dispatcher, which knows nine: the size of a
  module is whatever its local variable held, and the argument count is 0, without any effect.\<close>

theorem unserved_calls:
  assumes "load32 (view e s) loc = ret w"
  shows "get_mod_size sw e loc f s = ret (w, s) \<and> get_args_count sw e loc s = ret (0, s)"
  using assms by (simp add: get_mod_size_def get_args_count_def user_get_task_addr_by_id_def void_def syscall_beyond)

theorem unserved_calls_witness: "get_mod_size (\<lambda>sel s. ret s) sample_env 1024 512 sample_state = ret (1032, sample_state)"
proof -
  have "load32 (view sample_env sample_state) 1024 = ret 1032"
    using sample_bytes(4) by (intro load32_split) (simp add: view_def sample_state_def block_append split: option.split)
  from unserved_calls [OF this] show ?thesis by simp
qed

text \<open>\<open>get_ticks\<close> gives the ticks, but it passes a null pointer for the frequency, and the kernel
  writes the frequency over the first four bytes of memory.\<close>

lemma get_ticks_writes_at_null:
  assumes "mapped (view e s) 0 4" and "mapped (view e s) loc 4" and "addrs 0 4 \<inter> addrs loc 4 = {}"
  shows "\<exists>s'. get_ticks sw e loc s = ret (e_ticks e (klog s @ [TimerGetFreq]), s') \<and>
    load32 (view e s') 0 = ret (e_freq e (klog s))"
proof -
  obtain s' where s': "syscall_handler sw e 3 0 loc 0 0 s = ret (0, s')"
    "view e s' = upd (upd (view e s) 0 (split32 (e_freq e (klog s)))) loc (split32 (e_ticks e (klog s @ [TimerGetFreq])))"
    using timer_info_stores [OF assms(1,2)] by blast
  have "load32 (view e s') loc = ret (e_ticks e (klog s @ [TimerGetFreq]))"
    unfolding s'(2) by (intro load32_split upd_block) simp
  moreover have "load32 (view e s') 0 = ret (e_freq e (klog s))"
    unfolding s'(2) using assms(3)
    by (subst load32_upd_other) (auto intro!: load32_split upd_block simp del: addrs_Suc)
  ultimately show ?thesis using s'(1) by (simp add: get_ticks_def timer_info_def void_def)
qed

text \<open>What the echoed characters leave on a line of the screen.\<close>

primrec on_screen :: "u8 list \<Rightarrow> u8 list \<Rightarrow> u8 list" where
  "on_screen [] line = line"
| "on_screen (c # shown) line = on_screen shown (if c = 8 then butlast line else line @ [c])"

lemma on_screen_append: "on_screen (shown @ rest) line = on_screen rest (on_screen shown line)"
  by (induction shown arbitrary: line) simp_all

lemma on_screen_echo: "\<forall>k \<in> set ks. (ucast k :: u8) = 8 \<longrightarrow> k = 8 \<Longrightarrow> on_screen (echo ks line) line = edit ks line"
proof (induction ks arbitrary: line)
  case (Cons k ks)
  have "on_screen (replicate n 32) l = l @ replicate n 32" for n l
    by (induction n arbitrary: l) simp_all
  moreover have "(ucast k :: u8) \<noteq> 8 \<or> k = 8" using bspec [OF Cons.prems, of k] by simp
  ultimately have k: "on_screen (echo_key k line) line = edit_key k line"
    by (cases "k = 0"; cases "k = 8"; cases "k = 9") (simp_all add: echo_key_def edit_key_def)
  have "\<forall>k \<in> set ks. (ucast k :: u8) = 8 \<longrightarrow> k = 8" using Cons.prems by (intro ballI) (rule bspec [OF Cons.prems], simp)
  from Cons.IH [OF this, of "edit_key k line"] show ?case by (simp only: echo.simps edit.simps on_screen_append k)
qed simp

text \<open>C20: \<open>read_string\<close> returns when the return key comes, as long as the line fits its buffer, and what
  stands in the buffer is what stands on the screen, backspaces and tabs included.\<close>

theorem read_string_shows_its_line:
  assumes "console_ok e loc R s" and "addrs buf N \<subseteq> R" and "4 * length ks < N" and "N \<le> 2 ^ 31"
    and "\<forall>j < length ks. next_key K s j = ks ! j" and "next_key K s (length ks) = 10" and "10 \<notin> set ks"
    and "\<forall>k \<in> set ks. (ucast k :: u8) = 8 \<longrightarrow> k = 8"
  shows "\<exists>s' shown. read_string sw (with_keys K e) loc buf s = ret s' \<and> typed s' = typed s @ shown \<and>
    block (view e s') buf (on_screen shown [] @ [0]) \<and> (\<forall>a \<in> R. a \<notin> addrs buf N \<longrightarrow> view e s' a = view e s a)"
  using read_string_edits [OF assms(1-7), of sw] on_screen_echo [OF assms(8)] by auto

theorem read_string_shows_its_line_witness:
  "\<exists>s' shown. read_string (\<lambda>sel s. ret s) (with_keys (\<lambda>n. [97, 98, 8, 0, 99, 10] ! n) sample_env) 4096 8192 sample_state = ret s' \<and>
    typed s' = shown \<and> block (view sample_env s') 8192 (on_screen shown [] @ [0])"
proof -
  have v: "view sample_env sample_state = sample_mem"
    by (simp add: view_def sample_state_def split: option.split)
  let ?K = "\<lambda>n. [97, 98, 8, 0, 99, 10 :: u32] ! n"
  have k: "next_key ?K sample_state n = ?K n" and t: "typed sample_state = []" for n
    by (simp_all add: next_key_def typed_def sample_state_def)
  have "console_ok sample_env 4096 (addrs 8192 64) sample_state"
    by (auto simp: console_ok_def v sample_dom addrs_range word_less_nat_alt)
  then have "\<exists>s' shown. read_string (\<lambda>sel s. ret s) (with_keys ?K sample_env) 4096 8192 sample_state = ret s' \<and>
      typed s' = typed sample_state @ shown \<and> block (view sample_env s') 8192 (on_screen shown [] @ [0]) \<and>
      (\<forall>a \<in> addrs 8192 64. a \<notin> addrs 8192 64 \<longrightarrow> view sample_env s' a = view sample_env sample_state a)"
    by (rule read_string_shows_its_line [where ks = "[97, 98, 8, 0, 99]"])
       (auto simp: k less_Suc_eq simp del: addrs_Suc)
  then show ?thesis using t by auto
qed

lemma trimmed_ends: "takeWhile is_space (trimmed xs) = []" "trimmed (trimmed xs) = trimmed xs"
proof -
  let ?ys = "dropWhile is_space xs"
  have "trimmed xs = [] \<or> \<not> is_space (hd (trimmed xs)) \<and> \<not> is_space (last (trimmed xs))"
  proof (cases "?ys = []")
    case True
    then show ?thesis by (simp only: trimmed_def) simp
  next
    case False
    then have h: "\<not> is_space (hd ?ys)" by (rule hd_dropWhile)
    from split_trailing [OF False h] obtain zs z n where ys: "?ys = zs @ z # replicate n 32" "z \<noteq> 32"
      "rev (dropWhile is_space (rev ?ys)) = zs @ [z]" by blast
    then have "trimmed xs = zs @ [z]" by (simp add: trimmed_def)
    moreover have "hd (zs @ [z]) = hd ?ys" by (simp add: ys(1) hd_append)
    ultimately show ?thesis using h ys(2) by (simp add: is_space_def)
  qed
  note e = this
  from e show 1: "takeWhile is_space (trimmed xs) = []" by (cases "trimmed xs") auto
  from e have "dropWhile is_space (trimmed xs) = trimmed xs" by (cases "trimmed xs") auto
  moreover from e have "dropWhile is_space (rev (trimmed xs)) = rev (trimmed xs)"
    by (cases "rev (trimmed xs)") (auto simp: hd_rev [symmetric])
  ultimately show "trimmed (trimmed xs) = trimmed xs" by (simp add: trimmed_def [of "trimmed xs"])
qed

text \<open>C38: \<open>trim\<close> returns a string in place, without a space at either end; trimming it once rest gives
  the same string at the same place, and nothing outside the line is touched.\<close>

theorem trim_once_is_enough:
  assumes "cstr m line xs" and "length xs < 2 ^ 31"
  shows "\<exists>p m' m''. trim m line = ret (p, m') \<and> cstr m' p (trimmed xs) \<and>
    (\<forall>a. a \<notin> addrs line (length xs) \<longrightarrow> m' a = m a) \<and>
    trim m' p = ret (p, m'') \<and> cstr m'' p (trimmed xs) \<and>
    (trimmed xs = [] \<or> hd (trimmed xs) \<noteq> 32 \<and> last (trimmed xs) \<noteq> 32)"
proof -
  let ?p = "line + of_nat (length (takeWhile is_space xs))"
  obtain m' where m': "trim m line = ret (?p, m')" "cstr m' ?p (trimmed xs)"
    "\<forall>a. a \<notin> addrs line (length xs) \<longrightarrow> m' a = m a"
    using trim_cstr [OF assms] by blast
  have "length (trimmed xs) \<le> length (dropWhile is_space xs)"
    using length_dropWhile_le [of is_space "rev (dropWhile is_space xs)"] by (simp add: trimmed_def)
  then have "length (trimmed xs) < 2 ^ 31" using assms(2) length_dropWhile_le [of is_space xs] by linarith
  from trim_cstr [OF m'(2) this] obtain m'' where "trim m' ?p = ret (?p, m'')" "cstr m'' ?p (trimmed xs)"
    by (auto simp: trimmed_ends)
  moreover have "trimmed xs = [] \<or> hd (trimmed xs) \<noteq> 32 \<and> last (trimmed xs) \<noteq> 32"
  proof (cases "trimmed xs = []")
    case False
    then have "hd (trimmed xs) \<noteq> 32" using trimmed_ends(1) [of xs] by (cases "trimmed xs") (auto simp: is_space_def split: if_splits)
    moreover have "last (trimmed xs) \<noteq> 32"
      using False hd_dropWhile [of is_space "rev (dropWhile is_space xs)"]
      by (auto simp: trimmed_def last_rev is_space_def)
    ultimately show ?thesis by simp
  qed simp
  ultimately show ?thesis using m' by blast
qed

theorem trim_once_is_enough_witness:
  "\<exists>p m'. trim (upd (\<lambda>a. Some 1) 64 (chars ''  go '' @ [0])) 64 = ret (p, m') \<and> cstr m' p (chars ''go'')"
proof -
  have c: "cstr (upd (\<lambda>a. Some 1) 64 (chars ''  go '' @ [0])) 64 (chars ''  go '')"
    by (rule upd_cstr) (simp_all add: chars_def)
  have "trimmed (chars ''  go '') = chars ''go''" by (simp add: trimmed_def is_space_def chars_def)
  then show ?thesis using trim_once_is_enough [OF c] by (auto simp: chars_def)
qed

end
