(* ===== verification/Shell.thy ===== *)
theory Shell
  imports Ulibc
begin

text \<open>
  The shell (\<^verbatim>\<open>user/shell.c\<close>): one turn of its loop reads a line, normalises it and
  acts on the command it spells. \<open>lit\<close> gives the addresses of the string literals.
\<close>

record shell_frame =
  sh_buf :: u32
  sh_loc :: u32
  sh_freq :: u32
  sh_ticks :: u32
  sh_pbuf :: u32
  lit :: "string \<Rightarrow> u32"

definition help_msg :: string where
  "help_msg = ''\<newline>PROG      : execute program PROG\<newline>exit      : exit this shell\<newline>help      : display this help\<newline>sleep N   : sleep N milliseconds (preemptive)\<newline>ticks     : show the current ticks value and timer frequency\<newline>''"

definition shell_help :: "task_switcher \<Rightarrow> env \<Rightarrow> shell_frame \<Rightarrow> kstate \<Rightarrow> kstate run" where
  "shell_help sw e fr s = puts sw e (lit fr help_msg) s"

text \<open>The branches of the loop on the normalised line; \<open>False\<close>: the shell exits.\<close>

definition shell_dispatch :: "task_switcher \<Rightarrow> env \<Rightarrow> shell_frame \<Rightarrow> u32 \<Rightarrow> kstate \<Rightarrow> (bool \<times> kstate) run" where
  "shell_dispatch sw e fr line s =
     rbind (load8 (view e s) line) (\<lambda>c.
     if c = 0 then rbind (putc sw e 10 s) (\<lambda>s. ret (True, s))
     else rbind (strcmp (view e s) (lit fr ''help'') line) (\<lambda>r.
     if r = 0 then rbind (shell_help sw e fr s) (\<lambda>s. ret (True, s))
     else rbind (starts_with (view e s) (lit fr ''sleep '') line) (\<lambda>r.
     if r \<noteq> 0 then
       rbind (strlen (view e s) (lit fr ''sleep '')) (\<lambda>n.
       rbind (trim (view e s) (line + n)) (\<lambda>(p, m).
       rbind (atoi m p) (\<lambda>ms.
       rbind (putc sw e 10 (set_view e m s)) (\<lambda>s.
       rbind (printf sw e (sh_pbuf fr) (lit fr ''Sleeping for %dms...\<newline>'') [ms] s) (\<lambda>s.
       rbind (sleep sw e ms s) (\<lambda>s. ret (True, s)))))))
     else rbind (strcmp (view e s) (lit fr ''ticks'') line) (\<lambda>r.
     if r = 0 then
       rbind (putc sw e 10 s) (\<lambda>s.
       rbind (timer_info sw e (sh_freq fr) (sh_ticks fr) s) (\<lambda>s.
       rbind (load32 (view e s) (sh_ticks fr)) (\<lambda>ticks.
       rbind (load32 (view e s) (sh_freq fr)) (\<lambda>freq.
       rbind (printf sw e (sh_pbuf fr) (lit fr ''ticks=%d freq=%d\<newline>'') [ticks, freq] s) (\<lambda>s.
       ret (True, s))))))
     else rbind (strcmp (view e s) (lit fr ''exit'') line) (\<lambda>r.
     if r = 0 then rbind (puts sw e (lit fr ''\<newline>Bye.\<newline>'') s) (\<lambda>s. ret (False, s))
     else
       rbind (putc sw e 10 s) (\<lambda>s.
       rbind (user_task_exec sw e line 0 0 s) (\<lambda>(b, s).
       if (ucast b :: u32) = - 1
       then rbind (printf sw e (sh_pbuf fr) (lit fr ''Failed executing \"%s\"\<newline>'') [line] s) (\<lambda>s. ret (True, s))
       else ret (True, s))))))))"

definition shell_iter :: "task_switcher \<Rightarrow> env \<Rightarrow> shell_frame \<Rightarrow> kstate \<Rightarrow> (bool \<times> kstate) run" where
  "shell_iter sw e fr s =
     rbind (puts sw e (lit fr ''>'') s) (\<lambda>s.
     rbind (read_string sw e (sh_loc fr) (sh_buf fr) s) (\<lambda>s.
     rbind (trim (view e s) (sh_buf fr)) (\<lambda>(line, m).
     rbind (tolower m line) (\<lambda>(line, m).
     shell_dispatch sw e fr line (set_view e m s)))))"

partial_function (option) shell_loop :: "task_switcher \<Rightarrow> env \<Rightarrow> shell_frame \<Rightarrow> kstate \<Rightarrow> kstate run" where
  "shell_loop sw e fr s = rbind (shell_iter sw e fr s) (\<lambda>r.
     if fst r then shell_loop sw e fr (snd r) else ret (snd r))"

definition run_shell :: "task_switcher \<Rightarrow> env \<Rightarrow> shell_frame \<Rightarrow> kstate \<Rightarrow> kstate run" where
  "run_shell sw e fr s =
     rbind (puts sw e (lit fr ''Welcome to YoctOS Shell. Type \"help\" for a list of commands.\<newline>'') s)
       (shell_loop sw e fr)"

section \<open>Commands\<close>

datatype command = Nothing | Help | Sleep u32 | Ticks | Exit | Exec "u8 list"

definition parse :: "u8 list \<Rightarrow> command" where
  "parse line =
     (if line = [] then Nothing
      else if line = chars ''help'' then Help
      else if prefix (chars ''sleep '') line
        then Sleep (of_nat (dec_value 0 (takeWhile is_digit (trimmed (drop 6 line)))))
      else if line = chars ''ticks'' then Ticks
      else if line = chars ''exit'' then Exit
      else Exec line)"

text \<open>The literals of the program in its memory.\<close>

definition literals_at :: "mem \<Rightarrow> shell_frame \<Rightarrow> bool" where
  "literals_at m fr \<longleftrightarrow> (\<forall>l \<in> {''help'', ''sleep '', ''ticks'', ''exit''}. cstr m (lit fr l) (chars l))"

lemma atoi_cstr: "cstr m p xs \<Longrightarrow> atoi m p = ret (of_nat (dec_value 0 (takeWhile is_digit xs)))"
proof -
  assume c: "cstr m p xs"
  have "block m p (takeWhile is_digit xs @ dropWhile is_digit xs @ [0])"
    using c by (simp add: cstr_block flip: append.assoc)
  then obtain d where "block m p (takeWhile is_digit xs @ [d])" "\<not> is_digit d"
  proof (cases "dropWhile is_digit xs")
    case Nil
    with \<open>block m p _\<close> show ?thesis by (intro that [of 0]) (simp_all add: is_digit_iff)
  next
    case (Cons y ys)
    with \<open>block m p _\<close> hd_dropWhile [of is_digit xs] show ?thesis
      by (intro that [of y]) (simp_all add: block_append)
  qed
  then show ?thesis by (intro atoi_digits) (auto dest: set_takeWhileD)
qed


text \<open>
  What a command asks for. \<open>m\<close> is the memory once the argument of \<open>sleep\<close> has been trimmed in
  place; a program that could not be loaded is not reported.
\<close>

definition perform :: "task_switcher \<Rightarrow> env \<Rightarrow> shell_frame \<Rightarrow> u32 \<Rightarrow> mem \<Rightarrow> command \<Rightarrow> kstate \<Rightarrow> (bool \<times> kstate) run" where
  "perform sw e fr line m cmd s = (case cmd of
     Nothing \<Rightarrow> ret (True, event (TermPutc 10) s)
   | Help \<Rightarrow> ret (True, event (TermPuts (lit fr help_msg)) s)
   | Sleep ms \<Rightarrow>
       rbind (printf sw e (sh_pbuf fr) (lit fr ''Sleeping for %dms...\<newline>'') [ms]
                (event (TermPutc 10) (set_view e m s)))
         (\<lambda>s. ret (True, event (TimerSleep ms) s))
   | Ticks \<Rightarrow>
       rbind (timer_info sw e (sh_freq fr) (sh_ticks fr) (event (TermPutc 10) s)) (\<lambda>s.
       rbind (load32 (view e s) (sh_ticks fr)) (\<lambda>ticks.
       rbind (load32 (view e s) (sh_freq fr)) (\<lambda>freq.
       rbind (printf sw e (sh_pbuf fr) (lit fr ''ticks=%d freq=%d\<newline>'') [ticks, freq] s) (\<lambda>s.
       ret (True, s)))))
   | Exit \<Rightarrow> ret (False, event (TermPuts (lit fr ''\<newline>Bye.\<newline>'')) s)
   | Exec l \<Rightarrow>
       rbind (task_exec sw e line 0 0 (event (TermPutc 10) s)) (\<lambda>(b, s). ret (True, s)))"

lemma puts_shows: "puts sw e p s = ret (event (TermPuts p) s)"
  by (simp add: puts_def void_def syscall_numbers syscall_term_puts_def)

lemma sleep_sleeps: "sleep sw e ms s = ret (event (TimerSleep ms) s)"
  by (simp add: sleep_def void_def syscall_numbers syscall_timer_sleep_def)

lemma user_task_exec_result: "user_task_exec sw e f argc argv s =
    rbind (task_exec sw e f argc argv s) (\<lambda>(b, s). ret (0, s))"
  by (simp add: user_task_exec_def syscall_numbers syscall_task_exec_def rbind_assoc split_def)

lemma strcmp_eq_0:
  assumes "cstr m p xs" and "cstr m q ys"
  obtains r where "strcmp m p q = ret r" "r = 0 \<longleftrightarrow> ys = xs"
  using strcmp_result [OF assms] by metis

lemma shell_dispatch_performs:
  assumes line: "cstr (view e s) line xs" "length xs < 2 ^ 31" and lits: "literals_at (view e s) fr"
  shows "\<exists>m. shell_dispatch sw e fr line s = perform sw e fr line m (parse xs) s"
proof (cases "xs = []")
  case True
  with line show ?thesis
    by (simp add: shell_dispatch_def parse_def perform_def putc_shows)
next
  case False
  let ?v = "view e s"
  obtain c where c: "load8 ?v line = ret c" "c \<noteq> 0"
    using False line(1) by (cases xs) auto
  have l: "cstr ?v (lit fr ''help'') (chars ''help'')" "cstr ?v (lit fr ''sleep '') (chars ''sleep '')"
    "cstr ?v (lit fr ''ticks'') (chars ''ticks'')" "cstr ?v (lit fr ''exit'') (chars ''exit'')"
    using lits by (simp_all add: literals_at_def)
  obtain r1 where r1: "strcmp ?v (lit fr ''help'') line = ret r1" "r1 = 0 \<longleftrightarrow> xs = chars ''help''"
    by (rule strcmp_eq_0 [OF l(1) line(1)])
  have r2: "starts_with ?v (lit fr ''sleep '') line = ret (if prefix (chars ''sleep '') xs then 1 else 0)"
    by (rule starts_with_cstr [OF l(2) line(1)])
  obtain r3 where r3: "strcmp ?v (lit fr ''ticks'') line = ret r3" "r3 = 0 \<longleftrightarrow> xs = chars ''ticks''"
    by (rule strcmp_eq_0 [OF l(3) line(1)])
  obtain r4 where r4: "strcmp ?v (lit fr ''exit'') line = ret r4" "r4 = 0 \<longleftrightarrow> xs = chars ''exit''"
    by (rule strcmp_eq_0 [OF l(4) line(1)])
  consider "xs = chars ''help''" | "xs \<noteq> chars ''help''" "prefix (chars ''sleep '') xs"
    | "xs \<noteq> chars ''help''" "\<not> prefix (chars ''sleep '') xs" by blast
  then show ?thesis
  proof cases
    case 1
    with c r1 False show ?thesis
      by (simp add: shell_dispatch_def parse_def perform_def shell_help_def puts_shows)
  next
    case 2
    have six: "length (chars ''sleep '') = 6" by (simp add: chars_def)
    from 2(2) six have "xs = chars ''sleep '' @ drop 6 xs" by (auto simp: prefix_def)
    with line(1) have a: "cstr ?v (line + 6) (drop 6 xs)"
      using cstr_drop [of ?v line "chars ''sleep ''" "drop 6 xs"] six by simp
    have "length (drop 6 xs) < 2 ^ 31" using line(2) by simp
    from trim_cstr [OF a this]
    obtain p m where t: "trim ?v (line + 6) = ret (p, m)" "cstr m p (trimmed (drop 6 xs))" by blast
    from c r1 r2 2 t atoi_cstr [OF t(2)] strlen_cstr [OF l(2)] six False show ?thesis
      by (auto simp: shell_dispatch_def parse_def perform_def putc_shows sleep_sleeps)
  next
    case 3
    with c r1 r2 r3 r4 False show ?thesis
      by (auto simp: shell_dispatch_def parse_def perform_def putc_shows puts_shows
          user_task_exec_result rbind_assoc split_def)
  qed
qed
section \<open>One turn of the loop\<close>

text \<open>The line the shell acts on when the keys \<open>ks\<close> are typed.\<close>

definition shell_line :: "u32 list \<Rightarrow> u8 list" where
  "shell_line ks = map lower_char (trimmed (edit ks []))"

lemma edit_length: "length (edit ks line) \<le> length line + 4 * length ks"
proof (induction ks arbitrary: line)
  case (Cons k ks)
  have "length (edit_key k line) \<le> length line + 4" by (auto simp: edit_key_def TAB_SIZE_def)
  with Cons.IH [of "edit_key k line"] show ?case by simp
qed simp

lemma edit_nonzero: "0 \<notin> set line \<Longrightarrow> \<forall>k \<in> set ks. k = 0 \<or> (ucast k :: u8) \<noteq> 0 \<Longrightarrow> 0 \<notin> set (edit ks line)"
proof (induction ks arbitrary: line)
  case (Cons k ks)
  have "0 \<notin> set (edit_key k line)"
    using Cons.prems by (auto simp: edit_key_def dest: in_set_butlastD)
  with Cons.prems show ?case by (simp add: Cons.IH)
qed simp

lemma trimmed_length: "length (takeWhile is_space xs) + length (trimmed xs) \<le> length xs"
proof -
  have "length (trimmed xs) \<le> length (dropWhile is_space xs)"
    using length_dropWhile_le [of is_space "rev (dropWhile is_space xs)"] by (simp add: trimmed_def)
  moreover have "length (takeWhile is_space xs) + length (dropWhile is_space xs) = length xs"
    by (metis length_append takeWhile_dropWhile_id)
  ultimately show ?thesis by linarith
qed

definition lit_region :: "shell_frame \<Rightarrow> u32 set" where
  "lit_region fr = (\<Union>l \<in> {''help'', ''sleep '', ''ticks'', ''exit''}. addrs (lit fr l) (Suc (length (chars l))))"

lemma literals_agree: "literals_at m fr \<Longrightarrow> \<forall>a \<in> lit_region fr. m' a = m a \<Longrightarrow> literals_at m' fr"
  unfolding literals_at_def lit_region_def
  using cstr_agree [of _ "chars _" m' m] by (blast intro: cstr_agree [THEN iffD2])

lemma map_lower_trimmed: "0 \<notin> set xs \<Longrightarrow> cstr m p xs \<Longrightarrow> length xs < 2 ^ 31 \<Longrightarrow>
    cstr (upd m p (map lower_char xs)) p (map lower_char xs)"
proof -
  assume xs: "0 \<notin> set xs" "cstr m p xs" "length xs < 2 ^ 31"
  let ?ys = "map lower_char xs"
  have "upd m p ?ys (p + of_nat (length xs)) = m (p + of_nat (length xs))"
    using end_notin_addrs [of "length xs" p] xs(3) by (intro upd_outside) simp
  moreover have "m (p + of_nat (length xs)) = Some 0"
    using xs(2) by (simp add: cstr_block block_append)
  moreover have "block (upd m p ?ys) p ?ys" using xs(3) by (intro upd_block) simp
  moreover have "0 \<notin> set ?ys" using xs(1) by (simp add: image_iff) (metis lower_char_nonzero)
  ultimately show ?thesis by (simp add: cstr_block block_append)
qed

section \<open>Properties\<close>

text \<open>The line in the buffer once it is trimmed and lowered: only the buffer's bytes change.\<close>

lemma trimmed_and_lowered:
  assumes c: "cstr m p xs" "length xs < 2 ^ 31"
  defines "ys \<equiv> map lower_char (trimmed xs)"
  shows "\<exists>q m1 m2. trim m p = ret (q, m1) \<and> tolower m1 q = ret (q, m2) \<and> cstr m2 q ys \<and>
    dom m2 = dom m \<and> (\<forall>a. a \<notin> addrs p (length xs) \<longrightarrow> m2 a = m a)"
proof -
  let ?n = "length (takeWhile is_space xs)"
  let ?q = "p + of_nat ?n"
  from trim_cstr [OF c] obtain m1 where m1: "trim m p = ret (?q, m1)" "cstr m1 ?q (trimmed xs)"
    "dom m1 = dom m" "\<forall>a. a \<notin> addrs p (length xs) \<longrightarrow> m1 a = m a"
    by blast
  let ?m2 = "upd m1 ?q ys"
  have t: "?n + length ys \<le> length xs" using trimmed_length by (simp add: ys_def)
  then have sub: "addrs ?q (length ys) \<subseteq> addrs p (length xs)"
    using addrs_split [of p ?n "length ys"] addrs_mono [of "?n + length ys" "length xs" p] by auto
  have "addrs ?q (length ys) \<subseteq> dom m1"
    using cstr_mapped [OF m1(2)] addrs_mono [of "length ys" "Suc (length ys)" ?q]
    by (auto simp: mapped_def ys_def simp del: addrs_Suc)
  then have "dom ?m2 = dom m" using m1(3) by (auto simp: dom_upd)
  moreover have "\<forall>a. a \<notin> addrs p (length xs) \<longrightarrow> ?m2 a = m a"
    using m1(4) upd_outside [of _ ?q ys m1] subset_iff [THEN iffD1, OF sub] by metis
  moreover have "cstr ?m2 ?q ys"
    unfolding ys_def using m1(2) t c(2) by (intro map_lower_trimmed) (auto simp: cstr_block ys_def)
  ultimately show ?thesis
    using m1(1) by (intro exI [of _ ?q] exI [of _ m1] exI [of _ ?m2]) (simp add: tolower_cstr [OF m1(2)] ys_def)
qed

text \<open>C15: A turn of the shell does what the typed line says: the keys, with their corrections, make a line;
  without the spaces at its ends and in lower case it is a command, and the turn performs that
  command. A program that fails to start is nowhere reported.\<close>

theorem shell_turn:
  assumes con: "console_ok e (sh_loc fr) (addrs (sh_buf fr) N \<union> lit_region fr) s"
    and N: "4 * length ks < N" "N \<le> 2 ^ 31" "addrs (sh_buf fr) N \<inter> lit_region fr = {}"
    and keys: "\<forall>j < length ks. next_key K s j = ks ! j" "next_key K s (length ks) = 10" "10 \<notin> set ks"
      "\<forall>k \<in> set ks. k = 0 \<or> (ucast k :: u8) \<noteq> 0"
    and lits: "literals_at (view e s) fr"
  shows "\<exists>s' m line. shell_iter sw (with_keys K e) fr s
      = perform sw (with_keys K e) fr line m (parse (shell_line ks)) s' \<and>
    cstr (view e s') line (shell_line ks) \<and> typed s' = typed s @ echo ks []"
proof -
  let ?e = "with_keys K e" and ?xs = "edit ks []"
  define s0 where "s0 = event (TermPuts (lit fr ''>'')) s"
  have "console_ok e (sh_loc fr) (addrs (sh_buf fr) N \<union> lit_region fr) s0"
    "\<forall>j < length ks. next_key K s0 j = ks ! j" "next_key K s0 (length ks) = 10"
    using con keys by (simp_all add: s0_def console_ok_def next_key_def)
  from read_string_edits [OF this(1) Un_upper1 N(1,2) this(2,3) keys(3)] obtain s1 where
    s1: "read_string sw ?e (sh_loc fr) (sh_buf fr) s0 = ret s1" "block (view e s1) (sh_buf fr) (?xs @ [0])"
      "typed s1 = typed s0 @ echo ks []" "\<forall>a \<in> lit_region fr. view e s1 a = view e s0 a"
    using N(3) by blast
  have len: "length ?xs < N" using edit_length [of ks "[]"] N(1) by simp
  then have c1: "cstr (view e s1) (sh_buf fr) ?xs" "length ?xs < 2 ^ 31"
    using s1(2) edit_nonzero [of "[]" ks] keys(4) N(2) by (simp_all add: cstr_block)
  let ?ys = "map lower_char (trimmed ?xs)"
  from trimmed_and_lowered [OF c1] obtain p m1 m2 where m: "trim (view e s1) (sh_buf fr) = ret (p, m1)"
    "tolower m1 p = ret (p, m2)" "cstr m2 p ?ys" "dom m2 = dom (view e s1)"
    "\<forall>a. a \<notin> addrs (sh_buf fr) (length ?xs) \<longrightarrow> m2 a = view e s1 a"
    by blast
  have v: "view e (set_view e m2 s1) = m2" by (rule view_set_view [OF m(4)])
  have "addrs (sh_buf fr) (length ?xs) \<subseteq> addrs (sh_buf fr) N" using len by (intro addrs_mono) simp
  then have "a \<notin> addrs (sh_buf fr) (length ?xs)" if "a \<in> lit_region fr" for a using that N(3) by blast
  with m(5) s1(4) have "\<forall>a \<in> lit_region fr. m2 a = view e s a" by (simp add: s0_def)
  then have "literals_at m2 fr" by (rule literals_agree [OF lits])
  moreover have "length ?ys < 2 ^ 31" using trimmed_length [of ?xs] c1(2) by simp
  ultimately obtain m' where
    "shell_dispatch sw ?e fr p (set_view e m2 s1) = perform sw ?e fr p m' (parse ?ys) (set_view e m2 s1)"
    using shell_dispatch_performs [of ?e "set_view e m2 s1" p ?ys fr sw] m(3) by (auto simp: v)
  with s1 m v show ?thesis
    by (intro exI [of _ "set_view e m2 s1"] exI [of _ m'] exI [of _ p])
       (simp add: shell_iter_def puts_shows s0_def shell_line_def typed_def)
qed

text \<open>The literals of the shell and the word \<open>exit\<close> on the keyboard.\<close>

definition sample_frame :: shell_frame where
  "sample_frame = \<lparr>sh_buf = 0x1000, sh_loc = 0x2000, sh_freq = 0x2010, sh_ticks = 0x2020, sh_pbuf = 0x3000,
     lit = (\<lambda>l. if l = ''help'' then 0x100 else if l = ''sleep '' then 0x110 else if l = ''ticks'' then 0x120
       else if l = ''exit'' then 0x130 else 0x140)\<rparr>"

definition shell_state :: kstate where
  "shell_state = sample_state\<lparr>kmem := upd (upd (upd (upd (\<lambda>a. Some 1) 0x100 (chars ''help'' @ [0]))
     0x110 (chars ''sleep '' @ [0])) 0x120 (chars ''ticks'' @ [0])) 0x130 (chars ''exit'' @ [0])\<rparr>"

theorem shell_turn_witness:
  "\<exists>s'. shell_iter (\<lambda>sel s. ret s) (with_keys (\<lambda>n. [32, 69, 120, 105, 116, 10] ! n) sample_env) sample_frame shell_state
     = ret (False, event (TermPuts 0x140) s')"
proof -
  let ?K = "\<lambda>n. [32, 69, 120, 105, 116, 10 :: u32] ! n"
  have v: "view sample_env shell_state = kmem shell_state"
    by (simp add: view_def shell_state_def sample_state_def split: option.split)
  have d: "dom (kmem shell_state) = UNIV" by (simp add: shell_state_def dom_upd)
  have k: "next_key ?K shell_state n = ?K n" for n
    by (simp add: next_key_def shell_state_def sample_state_def)
  have l: "literals_at (view sample_env shell_state) sample_frame"
    unfolding v by (simp add: literals_at_def sample_frame_def shell_state_def chars_def)
  have dis: "addrs 0x1000 64 \<inter> lit_region sample_frame = {}"
    "addrs 0x2000 4 \<inter> (addrs 0x1000 64 \<union> lit_region sample_frame) = {}"
    by (auto simp: lit_region_def sample_frame_def addrs_range chars_def simp del: addrs_Suc)
  have c: "console_ok sample_env (sh_loc sample_frame) (addrs (sh_buf sample_frame) 64 \<union> lit_region sample_frame) shell_state"
    using dis by (simp add: console_ok_def v d) (simp add: sample_frame_def)
  have "\<exists>s' m line. shell_iter (\<lambda>sel s. ret s) (with_keys ?K sample_env) sample_frame shell_state
      = perform (\<lambda>sel s. ret s) (with_keys ?K sample_env) sample_frame line m (parse (shell_line [32, 69, 120, 105, 116])) s' \<and>
    cstr (view sample_env s') line (shell_line [32, 69, 120, 105, 116]) \<and>
    typed s' = typed shell_state @ echo [32, 69, 120, 105, 116] []"
    by (rule shell_turn [OF c]) (use dis l in \<open>auto simp: k less_Suc_eq sample_frame_def simp del: addrs_Suc\<close>)
  moreover have "parse (shell_line [32, 69, 120, 105, 116]) = Exit"
    by (simp add: shell_line_def trimmed_def is_space_def edit_key_def lower_char_def parse_def chars_def prefix_def)
  ultimately show ?thesis by (auto simp: perform_def sample_frame_def)
qed

end
