(* ===== verification/Apps.thy ===== *)
theory Apps
  imports Shell
begin

text \<open>
  The other applications: \<^verbatim>\<open>hello.c\<close>, \<^verbatim>\<open>gpf.c\<close>, \<^verbatim>\<open>test.c\<close>, \<^verbatim>\<open>pagefault.c\<close> and the pixel
  benchmark \<^verbatim>\<open>pix.c\<close>. The frame \<open>fr\<close> has the addresses of their literals and of the
  buffer of \<open>printf\<close>.
\<close>

section \<open>\<^verbatim>\<open>hello.c\<close>, \<^verbatim>\<open>test.c\<close>, \<^verbatim>\<open>gpf.c\<close>\<close>

definition hello_main :: "task_switcher \<Rightarrow> env \<Rightarrow> shell_frame \<Rightarrow> kstate \<Rightarrow> kstate run" where
  "hello_main sw e fr s =
     rbind (set_colors sw e \<lparr>fg = ucast YELLOW, bg = ucast RED\<rparr> s) (\<lambda>s.
     rbind (printf sw e (sh_pbuf fr) (lit fr ''=================\<newline>'') [] s) (\<lambda>s.
     rbind (printf sw e (sh_pbuf fr) (lit fr '' HELLO WORLD !!! \<newline>'') [] s)
       (printf sw e (sh_pbuf fr) (lit fr ''=================\<newline>'') [])))"

definition test_main :: "task_switcher \<Rightarrow> env \<Rightarrow> shell_frame \<Rightarrow> kstate \<Rightarrow> kstate run" where
  "test_main sw e fr s = void (get_args_count sw e (sh_loc fr) s)"

text \<open>\<open>int $77\<close> at privilege level 3, through the table of the kernel: the gate, if it is open.\<close>

definition gpf_main :: "task_switcher \<Rightarrow> env \<Rightarrow> shell_frame \<Rightarrow> kstate \<Rightarrow> (kstate \<times> (u16 \<times> u32) option) run" where
  "gpf_main sw e fr s =
     (let sec = 3 in
      rbind (printf sw e (sh_pbuf fr) (lit fr ''Executing software interrupt 77 (\"int 77\") in %d sec...\<newline>'') [sec] s) (\<lambda>s.
      rbind (sleep sw e (sec * 1000) s) (\<lambda>s. ret (s, software_int (k_idt s) 3 77))))"

text \<open>The \<open>main\<close> of \<^verbatim>\<open>pagefault.c\<close> is a comment: it returns at once.\<close>

definition pagefault_main :: "kstate \<Rightarrow> kstate run" where
  "pagefault_main s = ret s"

section \<open>\<^verbatim>\<open>pix.c\<close>\<close>

primrec for_each :: "('a \<Rightarrow> kstate \<Rightarrow> kstate run) \<Rightarrow> 'a list \<Rightarrow> kstate \<Rightarrow> kstate run" where
  "for_each f [] s = ret s"
| "for_each f (x # xs) s = rbind (f x s) (for_each f xs)"

text \<open>The bounds of the loops are unsigned; the body of the two inner ones.\<close>

definition fill_screen :: "(u32 \<Rightarrow> u32 \<Rightarrow> kstate \<Rightarrow> kstate run) \<Rightarrow> u32 \<Rightarrow> u32 \<Rightarrow> kstate \<Rightarrow> kstate run" where
  "fill_screen setpix width height =
     for_each (\<lambda>i. for_each (\<lambda>j. setpix (of_nat i) (of_nat j)) [0..<unat height]) [0..<unat width]"

definition pix_main :: "task_switcher \<Rightarrow> env \<Rightarrow> shell_frame \<Rightarrow> u32 \<Rightarrow> kstate \<Rightarrow> kstate run" where
  "pix_main sw e fr fb s =
     rbind (vbe_init sw e fb (sh_freq fr) (sh_ticks fr) s) (\<lambda>s.
     rbind (load32 (view e s) (sh_freq fr)) (\<lambda>width. rbind (load32 (view e s) (sh_ticks fr)) (\<lambda>height.
     rbind (get_ticks sw e (sh_loc fr) s) (\<lambda>(start_1, s).
     rbind (for_each (\<lambda>x. fill_screen (\<lambda>i j. vbe_setpixel e fb i j 0) width height) [0..<500] s) (\<lambda>s.
     rbind (get_ticks sw e (sh_loc fr) s) (\<lambda>(end_1, s).
     rbind (get_ticks sw e (sh_loc fr) s) (\<lambda>(start_2, s).
     rbind (for_each (\<lambda>x. fill_screen (\<lambda>i j. vbe_setpixel_syscall sw e i j 0) width height) [0..<500] s) (\<lambda>s.
     rbind (get_ticks sw e (sh_loc fr) s) (\<lambda>(end_2, s).
     rbind (printf sw e (sh_pbuf fr) (lit fr ''Without syscalls: %d ticks\<newline>'') [end_1 - start_1] s)
       (printf sw e (sh_pbuf fr) (lit fr ''With syscalls: %d ticks\<newline>'') [end_2 - start_2]))))))))))"

section \<open>Pixels\<close>

text \<open>The description of the frame buffer in the application's memory.\<close>

definition fb_at :: "mem \<Rightarrow> u32 \<Rightarrow> vbe_fb \<Rightarrow> bool" where
  "fb_at m a fb \<longleftrightarrow> load32 m a = ret (fb_addr fb) \<and> load32 m (a + 12) = ret (pitch_in_pix fb)"

definition pixel_addr :: "vbe_fb \<Rightarrow> u32 \<Rightarrow> u32 \<Rightarrow> u32" where
  "pixel_addr fb x y = fb_addr fb + 2 * (y * pitch_in_pix fb) + 2 * x"

text \<open>A consistent mode: rows of at least \<open>width\<close> pixels of two bytes, \<open>height\<close> of them in the buffer.\<close>

definition fb_ok :: "vbe_fb \<Rightarrow> bool" where
  "fb_ok fb \<longleftrightarrow> unat (fb_width fb) \<le> unat (pitch_in_pix fb) \<and>
     2 * (unat (fb_height fb) * unat (pitch_in_pix fb)) \<le> unat (fb_size fb)"

lemma pixel_offset:
  assumes "fb_ok fb" and "x < fb_width fb" and "y < fb_height fb"
  shows "unat (pixel_addr fb x y - fb_addr fb) = 2 * (unat y * unat (pitch_in_pix fb) + unat x)"
    "2 * (unat y * unat (pitch_in_pix fb) + unat x) + 2 \<le> unat (fb_size fb)"
proof -
  let ?p = "unat (pitch_in_pix fb)" and ?x = "unat x" and ?y = "unat y"
  have x: "?x < ?p" "Suc ?y \<le> unat (fb_height fb)"
    using assms by (simp_all add: fb_ok_def word_less_nat_alt)
  then have "Suc ?y * ?p \<le> unat (fb_height fb) * ?p" by (intro mult_le_mono1)
  with x assms(1) show 2: "2 * (?y * ?p + ?x) + 2 \<le> unat (fb_size fb)"
    by (simp add: fb_ok_def)
  then have lt: "2 * (?y * ?p + ?x) < 4294967296"
    using unat_u32_less [of "fb_size fb"] by linarith
  have "pixel_addr fb x y - fb_addr fb = of_nat (2 * (?y * ?p + ?x))"
    by (simp add: pixel_addr_def algebra_simps)
  with lt show "unat (pixel_addr fb x y - fb_addr fb) = 2 * (?y * ?p + ?x)"
    by (simp add: unat_of_nat del: of_nat_mult of_nat_add)
qed

lemma vbe_setpixel_writes:
  assumes "fb_at (view e s) fb v"
  shows "vbe_setpixel e fb x y color s = on_view e (\<lambda>m. store16 m (pixel_addr v x y) color) s"
  using assms by (simp add: vbe_setpixel_def fb_at_def pixel_addr_def)

lemma vbe_setpixel_syscall_asks: "vbe_setpixel_syscall sw e x y color s = ret (event (VbeSetPixel x y color) s)"
proof -
  have "ucast (ucast color :: u32) = color" by (rule bit_word_eqI) (simp add: bit_simps)
  then show ?thesis
    by (simp add: vbe_setpixel_syscall_def void_def syscall_numbers syscall_vbe_setpix_def)
qed


lemma pixel_inject:
  assumes "fb_ok fb" and "x < fb_width fb" "y < fb_height fb" and "x' < fb_width fb" "y' < fb_height fb"
    and "pixel_addr fb x y = pixel_addr fb x' y'"
  shows "x = x' \<and> y = y'"
proof -
  let ?p = "unat (pitch_in_pix fb)"
  have "unat x < ?p" "unat x' < ?p"
    using assms(1,2,4) by (simp_all add: fb_ok_def word_less_nat_alt)
  moreover have "unat y * ?p + unat x = unat y' * ?p + unat x'"
    using pixel_offset(1) [OF assms(1-3)] pixel_offset(1) [OF assms(1,4,5)] assms(6) by simp
  moreover have "unat x = (unat y * ?p + unat x) mod ?p" "unat x' = (unat y' * ?p + unat x') mod ?p"
    using calculation(1,2) by simp_all
  ultimately have "unat x = unat x'" "unat y * ?p = unat y' * ?p" "?p \<noteq> 0" by simp_all
  then show ?thesis by (simp add: word_unat_eq_iff)
qed

section \<open>The description of the frame buffer\<close>

definition fb_bytes :: "vbe_fb \<Rightarrow> u8 list" where
  "fb_bytes fb = concat (map split32 [fb_addr fb, fb_size fb, pitch_in_bytes fb, pitch_in_pix fb,
     fb_width fb, fb_height fb]) @ [fb_bpp fb]"

lemma length_fb_bytes [simp]: "length (fb_bytes fb) = 25"
  by (simp add: fb_bytes_def)

lemma mapped_part: "mapped m a (i + k) \<Longrightarrow> mapped m (a + of_nat i) k"
  using addrs_split [of a i k] by (auto simp: mapped_def)

lemma dom_upd_mapped: "mapped m p (length xs) \<Longrightarrow> dom (upd m p xs) = dom m"
  by (auto simp: dom_upd mapped_def)

lemma store_fb_upd: "mapped m a 25 \<Longrightarrow> store_fb m a fb = ret (upd m a (fb_bytes fb))"
proof -
  assume m: "mapped m a 25"
  have p: "mapped m (a + of_nat i) k" if "i + k \<le> 25" for i k
    using m that addrs_mono [of "i + k" 25 a] by (intro mapped_part) (auto simp: mapped_def)
  have "a + 24 \<in> dom m" using p [of 24 1] by simp
  with p [of 0 4] p [of 4 4] p [of 8 4] p [of 12 4] p [of 16 4] p [of 20 4] show ?thesis
    by (simp add: store_fb_def store32_upd mapped_upd dom_upd fb_bytes_def upd_append add.assoc
        del: addrs_Suc)
qed

lemma fb_bytes_loads:
  assumes "block m a (fb_bytes fb)"
  shows "load32 m a = ret (fb_addr fb)" "load32 m (a + 12) = ret (pitch_in_pix fb)"
    "load32 m (a + 16) = ret (fb_width fb)" "load32 m (a + 20) = ret (fb_height fb)"
  using assms by (auto intro!: load32_split simp: fb_bytes_def block_append add.assoc)

section \<open>Single pixels\<close>

lemma pixel_region:
  assumes "fb_ok v" and "x < fb_width v" and "y < fb_height v"
  shows "addrs (pixel_addr v x y) 2 \<subseteq> addrs (fb_addr v) (unat (fb_size v))"
proof -
  let ?o = "2 * (unat y * unat (pitch_in_pix v) + unat x)"
  have "pixel_addr v x y = fb_addr v + of_nat (unat (pixel_addr v x y - fb_addr v))" by simp
  then have "pixel_addr v x y = fb_addr v + of_nat ?o" by (simp only: pixel_offset(1) [OF assms])
  then have "addrs (pixel_addr v x y) 2 \<subseteq> addrs (fb_addr v) (?o + 2)"
    using addrs_split [of "fb_addr v" ?o 2] by auto
  also have "\<dots> \<subseteq> addrs (fb_addr v) (unat (fb_size v))"
    using pixel_offset(2) [OF assms] by (rule addrs_mono)
  finally show ?thesis .
qed

lemma pixels_disjoint:
  assumes "fb_ok v" and "x < fb_width v" "y < fb_height v" "x' < fb_width v" "y' < fb_height v"
    and "(x', y') \<noteq> (x, y)"
  shows "addrs (pixel_addr v x y) 2 \<inter> addrs (pixel_addr v x' y') 2 = {}"
proof -
  let ?o = "\<lambda>x y. 2 * (unat y * unat (pitch_in_pix v) + unat x)"
  have e: "pixel_addr v x y = fb_addr v + of_nat (?o x y)" if "x < fb_width v" "y < fb_height v" for x y
    using pixel_offset(1) [OF assms(1) that] by (metis add_diff_cancel_left' add_diff_eq of_nat_unat ucast_id)
  have lt: "?o x y + 2 \<le> 2 ^ 32" if "x < fb_width v" "y < fb_height v" for x y
    using pixel_offset(2) [OF assms(1) that] unat_u32_less [of "fb_size v"] by simp
  have "?o x y \<noteq> ?o x' y'" using pixel_inject [OF assms(1-5)] assms(6) e assms(2-5) by metis
  then have ne: "?o x y + i \<noteq> ?o x' y' + j" if "i < 2" "j < 2" for i j :: nat using that by presburger
  have "fb_addr v + of_nat (?o x y) + of_nat i \<noteq> fb_addr v + of_nat (?o x' y') + of_nat j" if "i < 2" "j < 2" for i j
    using ne [OF that] lt [OF assms(2,3)] lt [OF assms(4,5)] that of_nat_u32_inj [of "?o x y + i" "?o x' y' + j"]
    by (simp add: add.assoc flip: of_nat_add del: of_nat_mult)
  then show ?thesis unfolding e [OF assms(2,3)] e [OF assms(4,5)] by (auto simp: addrs_def)
qed

lemma store16_upd: "mapped m a 2 \<Longrightarrow> store16 m a w = ret (upd m a [ucast w, ucast (drop_bit 8 w)])"
  by (auto simp: store16_def mapped_def numeral_2_eq_2)

text \<open>Setting a pixel of a consistent mode from user code writes the two bytes of that pixel, inside
  the frame buffer, and leaves every other pixel and all other memory as they are.\<close>

lemma vbe_setpixel_one_pixel:
  assumes "fb_at (view e s) fb v" and "fb_ok v" and "x < fb_width v" "y < fb_height v"
    and "mapped (view e s) (fb_addr v) (unat (fb_size v))"
  shows "\<exists>s'. vbe_setpixel e fb x y c s = ret s' \<and>
    block (view e s') (pixel_addr v x y) [ucast c, ucast (drop_bit 8 c)] \<and>
    (\<forall>a. a \<notin> addrs (fb_addr v) (unat (fb_size v)) \<longrightarrow> view e s' a = view e s a) \<and>
    (\<forall>x' y'. x' < fb_width v \<and> y' < fb_height v \<and> (x', y') \<noteq> (x, y) \<longrightarrow>
      (\<forall>a \<in> addrs (pixel_addr v x' y') 2. view e s' a = view e s a))"
proof -
  let ?p = "pixel_addr v x y" and ?w = "[ucast c, ucast (drop_bit 8 c)] :: u8 list"
  have r: "addrs ?p (length ?w) \<subseteq> addrs (fb_addr v) (unat (fb_size v))"
    using pixel_region [OF assms(2-4)] by (simp add: numeral_2_eq_2 del: addrs_Suc)
  then have m: "mapped (view e s) ?p (length ?w)" using assms(5) unfolding mapped_def by (rule order_trans)
  then have m2: "mapped (view e s) ?p 2" by (simp add: numeral_2_eq_2 del: mapped_Suc)
  define s' where "s' = set_view e (upd (view e s) ?p ?w) s"
  have v: "view e s' = upd (view e s) ?p ?w"
    unfolding s'_def using m by (intro view_set_view dom_upd_mapped)
  have "vbe_setpixel e fb x y c s = ret s'"
    using m2 by (simp add: vbe_setpixel_writes [OF assms(1)] on_view_def store16_upd s'_def)
  moreover have "block (view e s') ?p ?w" unfolding v by (rule upd_block) simp
  moreover have "view e s' a = view e s a" if "a \<notin> addrs (fb_addr v) (unat (fb_size v))" for a
    unfolding v using that r by (intro upd_outside) blast
  moreover have "view e s' a = view e s a" if "x' < fb_width v \<and> y' < fb_height v \<and> (x', y') \<noteq> (x, y)"
    "a \<in> addrs (pixel_addr v x' y') 2" for x' y' a
  proof -
    have "addrs ?p 2 \<inter> addrs (pixel_addr v x' y') 2 = {}"
      using that(1) assms(2-4) by (intro pixels_disjoint) auto
    then have "a \<notin> addrs ?p (length ?w)" using that(2) by (auto simp: numeral_2_eq_2 simp del: addrs_Suc)
    then show ?thesis unfolding v by (rule upd_outside)
  qed
  ultimately show ?thesis by blast
qed

text \<open>A screen of 4 by 3 pixels at address 8192, described at address 256.\<close>

definition tiny_fb :: vbe_fb where
  "tiny_fb = \<lparr>fb_addr = 8192, fb_size = 32, pitch_in_bytes = 10, pitch_in_pix = 5, fb_width = 4, fb_height = 3, fb_bpp = 16\<rparr>"

definition tiny_state :: kstate where
  "tiny_state = sample_state\<lparr>kmem := upd (\<lambda>a. Some 0) 256 (fb_bytes tiny_fb)\<rparr>"

lemma tiny_view: "view e tiny_state = upd (\<lambda>a. Some 0) 256 (fb_bytes tiny_fb)"
  by (simp add: view_def tiny_state_def sample_state_def split: option.split)

lemma tiny_mapped: "mapped (view e tiny_state) a n"
  by (auto simp: mapped_def tiny_view dom_upd)

text \<open>\<open>vbe_init\<close> leaves in the application's memory the description the kernel has of the frame buffer,
  field by field, and gives back the dimensions of the screen.\<close>

lemma vbe_init_describes:
  assumes "mapped (view e s) fb 25" "mapped (view e s) w 4" "mapped (view e s) h 4"
    and "addrs fb 25 \<inter> addrs w 4 = {}" "addrs fb 25 \<inter> addrs h 4 = {}" "addrs w 4 \<inter> addrs h 4 = {}"
  shows "\<exists>s'. vbe_init sw e fb w h s = ret s' \<and> fb_at (view e s') fb (e_fb e) \<and>
    load32 (view e s') w = ret (fb_width (e_fb e)) \<and> load32 (view e s') h = ret (fb_height (e_fb e))"
proof -
  let ?v = "e_fb e" and ?m = "view e s"
  let ?m1 = "upd ?m fb (fb_bytes ?v)"
  let ?m2 = "upd ?m1 w (split32 (fb_width ?v))"
  let ?m3 = "upd ?m2 h (split32 (fb_height ?v))"
  define s1 where "s1 = set_view e ?m1 (event VbeGetFb s)"
  define s2 where "s2 = set_view e ?m2 s1"
  define s3 where "s3 = set_view e ?m3 s2"
  have v1: "view e s1 = ?m1"
    unfolding s1_def using assms(1) by (intro view_set_view) (simp add: dom_upd_mapped)
  have v2: "view e s2 = ?m2"
    unfolding s2_def using mapped_upd [OF assms(2)] by (intro view_set_view) (simp add: v1 dom_upd_mapped)
  have v3: "view e s3 = ?m3"
    unfolding s3_def using mapped_upd [OF mapped_upd [OF assms(3)]]
    by (intro view_set_view) (simp add: v2 dom_upd_mapped)
  have b1: "block ?m1 fb (fb_bytes ?v)" by (rule upd_block) simp
  have b2: "block ?m2 fb (fb_bytes ?v)"
    using b1 assms(4) by (subst block_agree) (auto intro!: upd_outside simp del: addrs_Suc)
  have b3: "block ?m3 fb (fb_bytes ?v)"
    using b2 assms(5) by (subst block_agree) (auto intro!: upd_outside simp del: addrs_Suc)
  have w: "load32 ?m3 w = ret (fb_width ?v)"
    using assms(6) by (subst load32_upd_other) (auto intro!: load32_split upd_block simp del: addrs_Suc)
  have h: "load32 ?m3 h = ret (fb_height ?v)" by (intro load32_split upd_block) simp
  have "vbe_init sw e fb w h s = ret s3"
    using assms(1) mapped_upd [OF assms(2)] mapped_upd [OF mapped_upd [OF assms(3)]]
      fb_bytes_loads [OF b1] fb_bytes_loads [OF b2]
    by (simp add: vbe_init_def void_def syscall_numbers syscall_vbe_fb_info_def on_view_def store_fb_upd
        store32_upd v1 v2 s1_def [symmetric] s2_def [symmetric] s3_def [symmetric])
  with w h fb_bytes_loads [OF b3] v3 show ?thesis by (auto simp: fb_at_def)
qed

section \<open>Filling the screen\<close>

text \<open>A loop that adds to what is done: each round adds \<open>g x\<close>.\<close>

lemma for_each_adds:
  assumes "\<And>x P s. x \<in> set xs \<Longrightarrow> J P s \<Longrightarrow> \<exists>s'. f x s = ret s' \<and> J (P \<union> g x) s'" and "J P s"
  shows "\<exists>s'. for_each f xs s = ret s' \<and> J (P \<union> (\<Union>x \<in> set xs. g x)) s'"
  using assms
proof (induction xs arbitrary: P s)
  case (Cons x xs)
  obtain s1 where s1: "f x s = ret s1" "J (P \<union> g x) s1" using Cons.prems by (metis list.set_intros(1))
  obtain s' where "for_each f xs s1 = ret s'" "J (P \<union> g x \<union> (\<Union>x \<in> set xs. g x)) s'"
    using Cons.IH [OF _ s1(2)] Cons.prems(1) by (metis list.set_intros(2))
  then show ?case using s1(1) by (simp add: Un_assoc)
qed simp

text \<open>The pixels \<open>P\<close> have the colour, all other memory is as it was.\<close>

definition painted :: "env \<Rightarrow> vbe_fb \<Rightarrow> u16 \<Rightarrow> mem \<Rightarrow> (u32 \<times> u32) set \<Rightarrow> kstate \<Rightarrow> bool" where
  "painted e v c m P s \<longleftrightarrow> dom (view e s) = dom m \<and>
     (\<forall>(x, y) \<in> P. x < fb_width v \<and> y < fb_height v \<and> block (view e s) (pixel_addr v x y) [ucast c, ucast (drop_bit 8 c)]) \<and>
     (\<forall>a. a \<notin> (\<Union>(x, y) \<in> P. addrs (pixel_addr v x y) 2) \<longrightarrow> view e s a = m a)"

lemma pixel_painted:
  assumes ok: "fb_ok v" and map: "mapped m (fb_addr v) (unat (fb_size v))" and fb: "fb_at m fb v"
    and dis: "addrs fb 16 \<inter> addrs (fb_addr v) (unat (fb_size v)) = {}"
    and x: "x < fb_width v" and y: "y < fb_height v" and s: "painted e v c m P s"
  shows "\<exists>s'. vbe_setpixel e fb x y c s = ret s' \<and> painted e v c m (P \<union> {(x, y)}) s'"
proof -
  let ?p = "pixel_addr v x y" and ?w = "[ucast c, ucast (drop_bit 8 c)] :: u8 list"
  define m1 where "m1 = upd (view e s) ?p ?w"
  have two: "length ?w = 2" by simp
  have r: "addrs (pixel_addr v x y) 2 \<subseteq> addrs (fb_addr v) (unat (fb_size v))"
    if "x < fb_width v" "y < fb_height v" for x y using pixel_region [OF ok that] .
  have out: "view e s a = m a" if "a \<in> addrs fb 16" for a
    using s that dis r unfolding painted_def by blast
  have "addrs fb 4 \<subseteq> addrs fb 16" "addrs (fb + 12) 4 \<subseteq> addrs fb 16"
    using addrs_mono [of 4 16 fb] addrs_split [of fb 12 4] by simp_all
  then have "load32 (view e s) fb = load32 m fb" "load32 (view e s) (fb + 12) = load32 m (fb + 12)"
    using out by (auto intro!: load32_agree simp del: addrs_Suc)
  then have fb': "fb_at (view e s) fb v" using fb by (simp add: fb_at_def)
  have m2: "mapped (view e s) ?p 2" using map r [OF x y] s by (auto simp: mapped_def painted_def simp del: addrs_Suc)
  let ?s' = "set_view e m1 s"
  have d: "dom m1 = dom (view e s)" unfolding m1_def using m2 by (intro dom_upd_mapped) (simp only: two)
  then have v: "view e ?s' = m1" by (rule view_set_view)
  have "vbe_setpixel e fb x y c s = ret ?s'"
    by (simp add: vbe_setpixel_writes [OF fb'] on_view_def store16_upd [OF m2] m1_def)
  moreover have b: "block m1 (pixel_addr v x' y') ?w" if "(x', y') \<in> P \<union> {(x, y)}" for x' y'
  proof (cases "(x', y') = (x, y)")
    case True
    then show ?thesis by (simp add: m1_def upd_block)
  next
    case False
    then have "block (view e s) (pixel_addr v x' y') ?w" "x' < fb_width v" "y' < fb_height v"
      using that s by (auto simp: painted_def)
    moreover from this have "addrs ?p 2 \<inter> addrs (pixel_addr v x' y') 2 = {}"
      using False ok x y by (intro pixels_disjoint) auto
    then have "m1 a = view e s a" if "a \<in> addrs (pixel_addr v x' y') 2" for a
      unfolding m1_def using that by (intro upd_outside) (unfold two, blast)
    ultimately show ?thesis
      by (subst block_agree [where m = "view e s"]) (simp_all only: two, blast)
  qed
  moreover have "m1 a = m a" if "a \<notin> (\<Union>(x, y) \<in> P \<union> {(x, y)}. addrs (pixel_addr v x y) 2)" for a
    unfolding m1_def using that s by (subst upd_outside) (auto simp: painted_def numeral_2_eq_2 simp del: addrs_Suc)
  moreover have "dom m1 = dom m" using s d by (simp add: painted_def)
  moreover have "\<forall>(x', y') \<in> P \<union> {(x, y)}. x' < fb_width v \<and> y' < fb_height v \<and> block m1 (pixel_addr v x' y') ?w"
    using s x y b unfolding painted_def by blast
  ultimately show ?thesis unfolding painted_def by (intro exI [of _ ?s'] conjI) (simp_all only: v, blast)
qed

lemma below_unat: "i < unat (w :: u32) \<Longrightarrow> of_nat i < w"
  using unat_addr [of 0 i] unat_u32_less [of w] by (simp add: word_less_nat_alt)

lemma screen_pixels: "(\<Union>i \<in> {..<unat (w :: u32)}. \<Union>j \<in> {..<unat (h :: u32)}. {(of_nat i, of_nat j)}) = {(x, y). x < w \<and> y < h}"
proof -
  have "\<exists>i \<in> {..<unat w}. x = of_nat i" if "x < w" for x w :: u32
    using that by (intro bexI [of _ "unat x"]) (simp_all add: word_less_nat_alt)
  then show ?thesis by (auto simp: below_unat)
qed

lemma fill_screen_paints:
  assumes "fb_ok v" and "mapped m (fb_addr v) (unat (fb_size v))" and "fb_at m fb v"
    and "addrs fb 16 \<inter> addrs (fb_addr v) (unat (fb_size v)) = {}" and "painted e v c m P s"
  shows "\<exists>s'. fill_screen (\<lambda>i j. vbe_setpixel e fb i j c) (fb_width v) (fb_height v) s = ret s' \<and>
    painted e v c m (P \<union> {(x, y). x < fb_width v \<and> y < fb_height v}) s'"
proof -
  let ?w = "unat (fb_width v)" and ?h = "unat (fb_height v)"
  have row: "\<exists>s'. for_each (\<lambda>j. vbe_setpixel e fb (of_nat i) (of_nat j) c) [0..<?h] s = ret s' \<and>
      painted e v c m (P \<union> (\<Union>j \<in> set [0..<?h]. {(of_nat i, of_nat j)})) s'"
    if "i \<in> set [0..<?w]" "painted e v c m P s" for i P s
    using that by (intro for_each_adds pixel_painted [OF assms(1-4)] below_unat) simp_all
  have "\<exists>s'. for_each (\<lambda>i. for_each (\<lambda>j. vbe_setpixel e fb (of_nat i) (of_nat j) c) [0..<?h]) [0..<?w] s = ret s' \<and>
      painted e v c m (P \<union> (\<Union>i \<in> set [0..<?w]. \<Union>j \<in> set [0..<?h]. {(of_nat i, of_nat j)})) s'"
    using row assms(5) by (rule for_each_adds)
  then show ?thesis by (simp add: fill_screen_def screen_pixels atLeast0LessThan del: UN_insert)
qed

section \<open>Properties\<close>

text \<open>C31: The loops of the pixel benchmark paint the screen: however often the screen is filled, every visible
  pixel of a consistent mode has the colour in the end, and every other byte of memory, the invisible ends
  of the rows included, is as it was.\<close>

theorem screen_cleared:
  assumes "fb_at (view e s) fb v" and "fb_ok v" and "mapped (view e s) (fb_addr v) (unat (fb_size v))"
    and "addrs fb 16 \<inter> addrs (fb_addr v) (unat (fb_size v)) = {}"
  shows "\<exists>s'. for_each (\<lambda>x. fill_screen (\<lambda>i j. vbe_setpixel e fb i j c) (fb_width v) (fb_height v)) [0..<Suc n] s = ret s' \<and>
    (\<forall>x < fb_width v. \<forall>y < fb_height v. block (view e s') (pixel_addr v x y) [ucast c, ucast (drop_bit 8 c)]) \<and>
    (\<forall>a. (\<forall>x < fb_width v. \<forall>y < fb_height v. a \<notin> addrs (pixel_addr v x y) 2) \<longrightarrow> view e s' a = view e s a)"
proof -
  let ?S = "{(x, y). x < fb_width v \<and> y < fb_height v}"
  have "painted e v c (view e s) {} s" by (simp add: painted_def)
  then have "\<exists>s'. for_each (\<lambda>x. fill_screen (\<lambda>i j. vbe_setpixel e fb i j c) (fb_width v) (fb_height v)) [0..<Suc n] s = ret s' \<and>
      painted e v c (view e s) ({} \<union> (\<Union>k \<in> set [0..<Suc n]. ?S)) s'"
    by (intro for_each_adds fill_screen_paints assms) assumption
  moreover have "{} \<union> (\<Union>k \<in> set [0..<Suc n]. ?S) = ?S" by auto
  ultimately obtain s' where "for_each (\<lambda>x. fill_screen (\<lambda>i j. vbe_setpixel e fb i j c) (fb_width v) (fb_height v)) [0..<Suc n] s = ret s'"
    "painted e v c (view e s) ?S s'" by metis
  then show ?thesis by (intro exI [of _ s']) (auto simp: painted_def)
qed

theorem screen_cleared_witness:
  "\<exists>s'. for_each (\<lambda>x. fill_screen (\<lambda>i j. vbe_setpixel sample_env 256 i j 0xF81F) 4 3) [0..<500] tiny_state = ret s' \<and>
    block (view sample_env s') 8218 [0x1F, 0xF8]"
proof -
  have b: "block (view sample_env tiny_state) 256 (fb_bytes tiny_fb)" unfolding tiny_view by (rule upd_block) simp
  have "fb_at (view sample_env tiny_state) 256 tiny_fb"
    using fb_bytes_loads [OF b] by (simp add: fb_at_def)
  moreover have "fb_ok tiny_fb" by (simp add: fb_ok_def tiny_fb_def)
  moreover have "addrs 256 16 \<inter> addrs (fb_addr tiny_fb) (unat (fb_size tiny_fb)) = {}"
    by (rule addrs_disjoint) (simp_all add: tiny_fb_def)
  ultimately obtain s' where run: "for_each (\<lambda>x. fill_screen (\<lambda>i j. vbe_setpixel sample_env 256 i j 0xF81F)
      (fb_width tiny_fb) (fb_height tiny_fb)) [0..<Suc 499] tiny_state = ret s'"
    and px: "\<forall>x < fb_width tiny_fb. \<forall>y < fb_height tiny_fb. block (view sample_env s') (pixel_addr tiny_fb x y)
      [ucast (0xF81F :: u16), ucast (drop_bit 8 (0xF81F :: u16))]"
    using screen_cleared [OF _ _ tiny_mapped, of sample_env 256 tiny_fb "0xF81F" 499] by blast
  have tiny: "fb_width tiny_fb = 4" "fb_height tiny_fb = 3" "pixel_addr tiny_fb 3 2 = 8218"
    by (simp_all add: pixel_addr_def tiny_fb_def)
  have "block (view sample_env s') 8218 [0x1F, 0xF8]"
    using px [rule_format, of 3 2] unfolding tiny by simp
  moreover have "Suc 499 = 500" by simp
  ultimately show ?thesis using run unfolding tiny by (metis (no_types))
qed

end
