(* ===== verification/Keymap.thy ===== *)
theory Keymap
  imports Ulibc
begin

text \<open>
  The Swiss French keyboard map (\<^verbatim>\<open>kernel/keymaps/keymap_fr_CH.c\<close>): for each scan code
  the key it stands for, plain and with shift. The driver that reads the tables is
  \<^verbatim>\<open>keyboard.o\<close>; what the tables hold decides what an application can be given.
\<close>

definition KEY_ESC :: u16 where "KEY_ESC = 50000"
definition KEY_HOME :: u16 where "KEY_HOME = 50005"
definition KEY_LEFT :: u16 where "KEY_LEFT = 50006"
definition KEY_RIGHT :: u16 where "KEY_RIGHT = 50007"
definition KEY_UP :: u16 where "KEY_UP = 50008"
definition KEY_DOWN :: u16 where "KEY_DOWN = 50009"
definition KEY_END :: u16 where "KEY_END = 50010"
definition KEY_PGUP :: u16 where "KEY_PGUP = 50011"
definition KEY_PGDOWN :: u16 where "KEY_PGDOWN = 50012"
definition KEY_INSERT :: u16 where "KEY_INSERT = 50013"
definition KEY_DEL :: u16 where "KEY_DEL = 50014"
definition KEY_F1 :: u16 where "KEY_F1 = 50015"
definition KEY_F2 :: u16 where "KEY_F2 = 50016"
definition KEY_F3 :: u16 where "KEY_F3 = 50017"
definition KEY_F4 :: u16 where "KEY_F4 = 50018"
definition KEY_F5 :: u16 where "KEY_F5 = 50019"
definition KEY_F6 :: u16 where "KEY_F6 = 50020"
definition KEY_F7 :: u16 where "KEY_F7 = 50021"
definition KEY_F8 :: u16 where "KEY_F8 = 50022"
definition KEY_F9 :: u16 where "KEY_F9 = 50023"
definition KEY_F10 :: u16 where "KEY_F10 = 50024"
definition KEY_F11 :: u16 where "KEY_F11 = 50025"
definition KEY_F12 :: u16 where "KEY_F12 = 50026"
definition KEY_A_DIAERESIS :: u16 where "KEY_A_DIAERESIS = 132"
definition KEY_A_GRAVE :: u16 where "KEY_A_GRAVE = 133"
definition KEY_C_CEDILLA :: u16 where "KEY_C_CEDILLA = 135"
definition KEY_E_ACUTE :: u16 where "KEY_E_ACUTE = 130"
definition KEY_E_GRAVE :: u16 where "KEY_E_GRAVE = 138"
definition KEY_O_DIAERESIS :: u16 where "KEY_O_DIAERESIS = 148"
definition KEY_U_DIAERESIS :: u16 where "KEY_U_DIAERESIS = 129"
definition KEY_PARAGRAPH :: u16 where "KEY_PARAGRAPH = 21"
definition KEY_POUND :: u16 where "KEY_POUND = 156"
definition KEY_DEGREE :: u16 where "KEY_DEGREE = 248"
definition KEY_IGNORE :: u16 where "KEY_IGNORE = 0"

lemmas key_codes =
  KEY_ESC_def KEY_HOME_def KEY_LEFT_def KEY_RIGHT_def KEY_UP_def KEY_DOWN_def KEY_END_def
  KEY_PGUP_def KEY_PGDOWN_def KEY_INSERT_def KEY_DEL_def KEY_F1_def KEY_F2_def KEY_F3_def
  KEY_F4_def KEY_F5_def KEY_F6_def KEY_F7_def KEY_F8_def KEY_F9_def KEY_F10_def KEY_F11_def
  KEY_F12_def KEY_A_DIAERESIS_def KEY_A_GRAVE_def KEY_C_CEDILLA_def KEY_E_ACUTE_def
  KEY_E_GRAVE_def KEY_O_DIAERESIS_def KEY_U_DIAERESIS_def KEY_PARAGRAPH_def KEY_POUND_def
  KEY_DEGREE_def KEY_IGNORE_def

definition MAP_SIZE :: nat where "MAP_SIZE = 128"

definition kc :: "char \<Rightarrow> u16" where
  "kc c = of_char c"

record keymap_t =
  normal :: "u16 list"
  shift :: "u16 list"
  ctrl :: "u16 list"
  alt :: "u16 list"

text \<open>Arrays of 128 entries; those without an initializer are zero.\<close>

definition padded :: "u16 list \<Rightarrow> u16 list" where
  "padded xs = xs @ replicate (MAP_SIZE - length xs) 0"

definition fr_CH_normal :: "u16 list" where
  "fr_CH_normal = [
    KEY_IGNORE, KEY_ESC, kc (CHR ''1''), kc (CHR ''2''), kc (CHR ''3''), kc (CHR ''4''),
    kc (CHR ''5''), kc (CHR ''6''), kc (CHR ''7''), kc (CHR ''8''), kc (CHR ''9''),
    kc (CHR ''0''), 39, kc (CHR ''^''), 8, 9, kc (CHR ''q''), kc (CHR ''w''), kc (CHR ''e''),
    kc (CHR ''r''), kc (CHR ''t''), kc (CHR ''z''), kc (CHR ''u''), kc (CHR ''i''),
    kc (CHR ''o''), kc (CHR ''p''), KEY_E_GRAVE, 34, 10, KEY_IGNORE, kc (CHR ''a''),
    kc (CHR ''s''), kc (CHR ''d''), kc (CHR ''f''), kc (CHR ''g''), kc (CHR ''h''),
    kc (CHR ''j''), kc (CHR ''k''), kc (CHR ''l''), KEY_E_ACUTE, KEY_A_GRAVE, KEY_PARAGRAPH,
    KEY_IGNORE, kc (CHR ''$''), kc (CHR ''y''), kc (CHR ''x''), kc (CHR ''c''), kc (CHR ''v''),
    kc (CHR ''b''), kc (CHR ''n''), kc (CHR ''m''), kc (CHR '',''), kc (CHR ''.''),
    kc (CHR ''-''), KEY_IGNORE, KEY_IGNORE, KEY_IGNORE, kc (CHR '' ''), KEY_IGNORE, KEY_F1,
    KEY_F2, KEY_F3, KEY_F4, KEY_F5, KEY_F6, KEY_F7, KEY_F8, KEY_F9, KEY_F10, KEY_IGNORE,
    KEY_IGNORE, KEY_HOME, KEY_UP, KEY_PGUP, KEY_IGNORE, KEY_LEFT, KEY_IGNORE, KEY_RIGHT,
    KEY_IGNORE, KEY_END, KEY_DOWN, KEY_PGDOWN, KEY_INSERT, KEY_DEL, KEY_IGNORE, KEY_IGNORE,
    kc (CHR ''<''), KEY_F11, KEY_F12]"

definition fr_CH_shift :: "u16 list" where
  "fr_CH_shift = [
    KEY_IGNORE, KEY_ESC, kc (CHR ''+''), 34, kc (CHR ''*''), KEY_C_CEDILLA, kc (CHR ''%''),
    kc (CHR ''&''), kc (CHR ''/''), kc (CHR ''(''), kc (CHR '')''), kc (CHR ''=''),
    kc (CHR ''?''), 96, 8, 9, kc (CHR ''Q''), kc (CHR ''W''), kc (CHR ''E''), kc (CHR ''R''),
    kc (CHR ''T''), kc (CHR ''Z''), kc (CHR ''U''), kc (CHR ''I''), kc (CHR ''O''),
    kc (CHR ''P''), KEY_U_DIAERESIS, kc (CHR ''!''), 10, KEY_IGNORE, kc (CHR ''A''),
    kc (CHR ''S''), kc (CHR ''D''), kc (CHR ''F''), kc (CHR ''G''), kc (CHR ''H''),
    kc (CHR ''J''), kc (CHR ''K''), kc (CHR ''L''), KEY_O_DIAERESIS, KEY_A_DIAERESIS, KEY_DEGREE,
    KEY_IGNORE, KEY_POUND, kc (CHR ''Y''), kc (CHR ''X''), kc (CHR ''C''), kc (CHR ''V''),
    kc (CHR ''B''), kc (CHR ''N''), kc (CHR ''M''), kc (CHR '';''), kc (CHR '':''),
    kc (CHR ''_''), KEY_IGNORE, KEY_IGNORE, KEY_IGNORE, kc (CHR '' ''), KEY_IGNORE, KEY_F1,
    KEY_F2, KEY_F3, KEY_F4, KEY_F5, KEY_F6, KEY_F7, KEY_F8, KEY_F9, KEY_F10, KEY_IGNORE,
    KEY_IGNORE, KEY_HOME, KEY_UP, KEY_PGUP, KEY_IGNORE, KEY_LEFT, KEY_IGNORE, KEY_RIGHT,
    KEY_IGNORE, KEY_END, KEY_DOWN, KEY_PGDOWN, KEY_INSERT, KEY_DEL, KEY_IGNORE, KEY_IGNORE,
    kc (CHR ''>''), KEY_F11, KEY_F12]"

definition keymap_fr_CH :: keymap_t where
  "keymap_fr_CH = \<lparr>normal = padded fr_CH_normal, shift = padded fr_CH_shift,
     ctrl = padded [], alt = padded []\<rparr>"

text \<open>\<open>keymap_t *keymap = &keymap_fr_CH;\<close>\<close>

definition keymap :: keymap_t where
  "keymap = keymap_fr_CH"

section \<open>What the tables give an application\<close>

lemmas keymap_eval = fr_CH_normal_def fr_CH_shift_def kc_def key_codes

lemma fr_CH_lengths [simp]: "length fr_CH_normal = 89" "length fr_CH_shift = 89"
  by (simp_all add: fr_CH_normal_def fr_CH_shift_def)

lemma keymap_lengths: "length (normal keymap) = 128" "length (shift keymap) = 128"
    "length (ctrl keymap) = 128" "length (alt keymap) = 128"
  by (simp_all add: keymap_def keymap_fr_CH_def padded_def MAP_SIZE_def)

definition delivered :: "keymap_t \<Rightarrow> u16 set" where
  "delivered k = set (normal k) \<union> set (shift k) \<union> set (ctrl k) \<union> set (alt k)"

lemma delivered_keymap: "delivered keymap = insert 0 (set fr_CH_normal \<union> set fr_CH_shift)"
  by (auto simp: delivered_def keymap_def keymap_fr_CH_def padded_def MAP_SIZE_def)

text \<open>No key is cut to a zero byte when the shell stores it in its buffer.\<close>

lemma delivered_visible: "k \<in> delivered keymap \<Longrightarrow> k = 0 \<or> (ucast (ucast k :: u32) :: u8) \<noteq> 0"
proof -
  have "\<forall>k \<in> set fr_CH_normal \<union> set fr_CH_shift. k = 0 \<or> (ucast (ucast k :: u32) :: u8) \<noteq> 0"
    by (simp add: keymap_eval)
  then show "k \<in> delivered keymap \<Longrightarrow> k = 0 \<or> (ucast (ucast k :: u32) :: u8) \<noteq> 0"
    by (auto simp: delivered_keymap)
qed

text \<open>Shift gives the capital of the same letter, which the shell turns back.\<close>

definition is_letter :: "u16 \<Rightarrow> bool" where
  "is_letter k \<longleftrightarrow> 97 \<le> k \<and> k \<le> 122"

lemma shift_letters: "i < 128 \<Longrightarrow> is_letter (normal keymap ! i) \<Longrightarrow>
    shift keymap ! i = normal keymap ! i - 32 \<and>
    ucast (lower_char (ucast (shift keymap ! i))) = normal keymap ! i"
proof -
  have "list_all2 (\<lambda>a b. is_letter a \<longrightarrow> b = a - 32 \<and> ucast (lower_char (ucast b)) = a) fr_CH_normal fr_CH_shift"
    by (simp add: keymap_eval is_letter_def lower_char_def)
  note letters = this
  have *: "is_letter (fr_CH_normal ! i) \<longrightarrow> fr_CH_shift ! i = fr_CH_normal ! i - 32 \<and>
      ucast (lower_char (ucast (fr_CH_shift ! i))) = fr_CH_normal ! i" if "i < 89"
    by (rule list_all2_nthD [OF letters]) (simp add: that)
  show "i < 128 \<Longrightarrow> is_letter (normal keymap ! i) \<Longrightarrow> ?thesis"
    using * by (cases "i < 89")
      (auto simp: keymap_def keymap_fr_CH_def padded_def nth_append MAP_SIZE_def is_letter_def)
qed

section \<open>Keys as bytes\<close>

text \<open>Whatever key the tables give, a non-zero key stays non-zero when it is cut to the byte the shell
  stores, so no key can end its line early.\<close>

lemma keys_never_end_the_line:
  assumes "k \<in> delivered keymap" and "k \<noteq> 0"
  shows "(ucast (ucast k :: u32) :: u8) \<noteq> 0"
  using delivered_visible [OF assms(1)] assms(2) by simp

end
