(* ===== verification/Logo.thy ===== *)
theory Logo
  imports TaskLoad "HOL-Library.Signed_Division"
begin

text \<open>
  The logo that wanders over the first line of the screen (\<^verbatim>\<open>kernel/logo.c\<close>). The
  positions are \<open>int\<close>s that stay below 20, so the model keeps them as integers.
\<close>

definition FONT_WIDTH :: u32 where "FONT_WIDTH = 8"
definition WIDTH :: int where "WIDTH = 20"

record logo =
  delay :: u32
  column_count :: u32
  pos :: "int list"

definition logo_msg :: "u8 list" where
  "logo_msg = 196 # chars ''YoctOS''"

definition initial_logo :: logo where
  "initial_logo = \<lparr>delay = 0, column_count = 0, pos = [0, 1, 2, 3, 4, 5, 6]\<rparr>"

definition logo_init :: "env \<Rightarrow> logo \<Rightarrow> kstate \<Rightarrow> logo \<times> kstate" where
  "logo_init e lg s =
     (lg\<lparr>delay := e_freq e (klog s) div 16, column_count := fb_width (e_fb e) div FONT_WIDTH\<rparr>,
      events [TimerGetFreq, VbeGetFb] s)"

text \<open>The body of the loop for letter \<open>i\<close>; the remainder by a zero \<open>delay\<close> is a division fault.\<close>

definition logo_letter :: "env \<Rightarrow> nat \<Rightarrow> logo \<times> kstate \<Rightarrow> (logo \<times> kstate) run" where
  "logo_letter e i = (\<lambda>(lg, s).
     let color = (if i \<noteq> 0 then YELLOW else LIGHT_BLUE);
         s = event (TermSetChar (logo_msg ! i) (column_count lg - 1 - of_int WIDTH + of_int (pos lg ! i)) 0
               \<lparr>fg = ucast color, bg = ucast BLACK\<rparr>) s;
         ticks = e_ticks e (klog s);
         s = event TimerGetTicks s
     in if delay lg = 0 then fail DivZero
        else ret (if ticks mod delay lg = 0
                  then lg\<lparr>pos := (pos lg)[i := (pos lg ! i + 1) smod WIDTH]\<rparr> else lg, s))"

primrec logo_letters :: "env \<Rightarrow> nat list \<Rightarrow> logo \<times> kstate \<Rightarrow> (logo \<times> kstate) run" where
  "logo_letters e [] p = ret p"
| "logo_letters e (i # is) p = rbind (logo_letter e i p) (logo_letters e is)"

definition logo_render :: "env \<Rightarrow> logo \<Rightarrow> kstate \<Rightarrow> (logo \<times> kstate) run" where
  "logo_render e lg s =
     logo_letters e [0..<length logo_msg] (lg, events
       [TermSetChar 179 (column_count lg - 1 - of_int WIDTH - 1) 0 \<lparr>fg = ucast CYAN, bg = ucast BLACK\<rparr>,
        TermSetChar 179 (column_count lg - 1) 0 \<lparr>fg = ucast CYAN, bg = ucast BLACK\<rparr>] s)"

section \<open>The letters stay between the bars\<close>

definition logo_ok :: "logo \<Rightarrow> bool" where
  "logo_ok lg \<longleftrightarrow> length (pos lg) = length logo_msg \<and> (\<forall>p \<in> set (pos lg). 0 \<le> p \<and> p < WIDTH)"

lemma length_logo_msg [simp]: "length logo_msg = 7"
  by (simp add: logo_msg_def chars_def)

lemma smod_width: "0 \<le> p \<Longrightarrow> p < WIDTH \<Longrightarrow> 0 \<le> (p + 1) smod WIDTH \<and> (p + 1) smod WIDTH < WIDTH"
  by (simp add: WIDTH_def signed_modulo_int_def signed_divide_int_def)

text \<open>Where a letter may be drawn: in the columns between the two bars, on line 0.\<close>

definition between_bars :: "u32 \<Rightarrow> kevent \<Rightarrow> bool" where
  "between_bars cols ev = (case ev of
     TermSetChar c x y k \<Rightarrow> y = 0 \<and> (c = 179 \<or> (\<exists>p \<in> {0..<20}. x = cols - 21 + of_int p))
   | _ \<Rightarrow> True)"

lemma logo_letter_keeps:
  assumes "logo_ok lg" and "i < 7" and "logo_letter e i (lg, s) = ret (lg', s')"
  shows "logo_ok lg' \<and> column_count lg' = column_count lg \<and> delay lg' = delay lg \<and>
    (\<exists>evs. klog s' = klog s @ evs \<and> list_all (between_bars (column_count lg)) evs)"
proof -
  have p: "0 \<le> pos lg ! i" "pos lg ! i < WIDTH" and len: "length (pos lg) = 7"
    using assms(1,2) by (simp_all add: logo_ok_def)
  have d: "delay lg \<noteq> 0" using assms(3) by (auto simp: logo_letter_def Let_def)
  have "logo_ok (lg\<lparr>pos := (pos lg)[i := (pos lg ! i + 1) smod WIDTH]\<rparr>)"
    using assms(1) smod_width [OF p] len by (auto simp: logo_ok_def dest!: set_update_subset_insert [THEN subsetD])
  moreover have "between_bars (column_count lg)
      (TermSetChar c (column_count lg - 1 - of_int WIDTH + of_int (pos lg ! i)) 0 k)" for c k
    using p by (auto simp: between_bars_def WIDTH_def intro!: bexI [of _ "pos lg ! i"])
  moreover have "between_bars (column_count lg) TimerGetTicks" by (simp add: between_bars_def)
  ultimately show ?thesis
    using assms d by (auto simp: logo_letter_def Let_def split: if_splits)
qed

lemma logo_letters_keep:
  "logo_ok lg \<Longrightarrow> \<forall>i \<in> set is. i < 7 \<Longrightarrow> logo_letters e is (lg, s) = ret (lg', s') \<Longrightarrow>
   logo_ok lg' \<and> (\<exists>evs. klog s' = klog s @ evs \<and> list_all (between_bars (column_count lg)) evs)"
proof (induction "is" arbitrary: lg s)
  case (Cons i "is")
  then obtain lg1 s1 where s1: "logo_letter e i (lg, s) = ret (lg1, s1)" "logo_letters e is (lg1, s1) = ret (lg', s')"
    by (auto simp: rbind_eq_ret)
  from logo_letter_keeps [OF Cons.prems(1) _ s1(1)] Cons.prems(2) Cons.IH [OF _ _ s1(2)] show ?case
    by fastforce
qed auto

lemma logo_render_between_bars:
  assumes "logo_ok lg" and "logo_render e lg s = ret (lg', s')"
  shows "logo_ok lg' \<and> (\<exists>evs. klog s' = klog s @ evs \<and> list_all (between_bars (column_count lg)) evs)"
proof -
  from logo_letters_keep [OF assms(1) _ assms(2) [unfolded logo_render_def]] show ?thesis
    by (fastforce simp: between_bars_def)
qed

lemma logo_render_returns: "delay lg \<noteq> 0 \<Longrightarrow> \<exists>r. logo_render e lg s = ret r"
proof -
  assume "delay lg \<noteq> 0"
  then have "\<exists>r. logo_letters e is (lg, t) = ret r" for "is" t
  proof (induction "is" arbitrary: lg t)
    case (Cons i "is")
    then obtain lg1 t1 where "logo_letter e i (lg, t) = ret (lg1, t1)" "delay lg1 \<noteq> 0"
      by (simp add: logo_letter_def Let_def)
    with Cons.IH show ?case by auto
  qed auto
  then show ?thesis by (simp add: logo_render_def)
qed

text \<open>A timer slower than 16 Hz makes the first frame a division by zero.\<close>

lemma logo_render_slow: "delay lg = 0 \<Longrightarrow> logo_render e lg s = fail DivZero"
  by (simp add: logo_render_def logo_letter_def Let_def upt_conv_Cons)

section \<open>Properties\<close>



text \<open>Below 16 Hz the first frame divides by zero.\<close>

lemma logo_slow_timer:
  assumes "unat (e_freq e (klog s)) < 16"
  shows "case logo_init e lg s of (lg1, s1) \<Rightarrow> logo_render e lg1 s1 = fail DivZero"
proof -
  have "unat (e_freq e (klog s) div 16) = 0" using assms by (simp add: unat_div)
  then have "e_freq e (klog s) div 16 = 0" by (simp add: unat_eq_0)
  then show ?thesis by (simp add: logo_init_def logo_render_slow)
qed

end
