(* ===== verification/Kernel.thy ===== *)
theory Kernel
  imports TaskLoad Exception
begin

text \<open>
  The boot sequence (\<^verbatim>\<open>kernel/kernel.c\<close>): the order in which the components are
  initialized, up to the execution of the shell and the final halt.
\<close>

section \<open>\<open>kernel_main\<close>\<close>

text \<open>The three parts of the function: the machine, the messages, the subsystems.\<close>

definition boot_machine :: "env \<Rightarrow> u32 \<Rightarrow> kstate \<Rightarrow> (u32 \<times> kstate) run" where
  "boot_machine e mbi s =
     (let s = multiboot_set_info mbi s
      in rbind (multiboot_get_RAM_in_KB (kmem s) (multiboot_get_info s)) (\<lambda>ram.
      let (gp, gdt) = gdt_init (gdt_address e) (k_gdt s);
          s = events [Lgdt gp, VbeInit, VbeGetFb] (s\<lparr>k_gdt := gdt\<rparr>);
          (m, pd) = e_paging_init e (klog s) ram (kmem s)
      in ret (ram, events [PagingInit ram, TermInit] (s\<lparr>kmem := m, cr3_reg := pd\<rparr>))))"

definition boot_messages :: "env \<Rightarrow> u32 \<Rightarrow> kstate \<Rightarrow> kstate" where
  "boot_messages e ram s =
     (let fb = e_fb e;
          s = events
            [TermPrintf ''YoctOS started\<newline>'' [],
             TermPrintf ''VBE mode %dx%d %dbpp initialized (addr=0x%x, pitch=%d).\<newline>''
               [PInt (fb_width fb), PInt (fb_height fb), PInt (ucast (fb_bpp fb)), PInt (fb_addr fb),
                PInt (pitch_in_bytes fb)],
             TermPrintf ''Detected %dKB of RAM.\<newline>'' [PInt ram]] s;
          free = e_frame_total_free e (klog s)
      in events
           [FrameTotalFree,
            TermPrintf ''%dKB of RAM available.\<newline>'' [PInt (free * FRAME_SIZE div 1024)],
            TermPrintf ''Kernel loaded at [0x%x-0x%x], size=%dKB\<newline>''
              [PInt (kernel_start e), PInt (kernel_end e), PInt ((kernel_end e - kernel_start e) div 1024)],
            ModulesDisplayInfo] s)"

definition boot_subsystems :: "env \<Rightarrow> kstate \<Rightarrow> kstate run" where
  "boot_subsystems e s =
     (let s = events pic_init s;
          (hs, idt, evs) = idt_init (idt_address e) (e_isr e);
          s = events evs (s\<lparr>k_handlers := hs, k_idt := idt\<rparr>);
          s = event KeybInit (s\<lparr>k_handlers := e_keyb_init e (k_handlers s)\<rparr>)
      in rbind (tasks_init e s) (\<lambda>s.
      let timer_freq = 1000;
          s = event (TimerInit timer_freq) (s\<lparr>k_handlers := e_timer_init e (k_handlers s)\<rparr>)
      in ret (events [Sti, TermPutsLit ''Interrupts enabled.\<newline>''] s)))"

definition kernel_main :: "(u16 \<Rightarrow> kstate \<Rightarrow> kstate run) \<Rightarrow> env \<Rightarrow> u32 \<Rightarrow> kstate \<Rightarrow> kstate run" where
  "kernel_main switch e mbi s =
     rbind (boot_machine e mbi s) (\<lambda>(RAM_in_KB, s).
     rbind (boot_subsystems e (boot_messages e RAM_in_KB s)) (\<lambda>s.
     rbind (task_exec switch e (shell_name e) 0 0 s) (\<lambda>(b, s).
     ret (events [TermPrintf ''\<newline>System halted.'' [], Halt] s))))"

text \<open>The kernel's memory as it is loaded: every static object at its initial value.\<close>

definition initial_state :: "mem \<Rightarrow> kstate" where
  "initial_state m = \<lparr>kmem = m, uspace = (\<lambda>i. Map.empty), cr3_reg = 0, tr_reg = 0,
     k_gdt = gdt_static, k_idt = replicate INTERRUPT_COUNT (idt_unpack 0),
     k_handlers = irq_init, k_tasks = replicate MAX_TASK_COUNT zero_task, task_id = 1,
     initial_tss = zero_tss, pagedir_templ = replicate PAGETABLES_IN_PD (pde_unpack 0),
     k_mbi = 0, klog = []\<rparr>"

section \<open>The state when the shell starts\<close>

definition booted :: "env \<Rightarrow> u32 \<Rightarrow> mem \<Rightarrow> kstate run" where
  "booted e mbi m = rbind (boot_machine e mbi (initial_state m)) (\<lambda>(ram, s).
     boot_subsystems e (boot_messages e ram s))"

lemma kernel_main_booted: "kernel_main sw e mbi (initial_state m)
    = rbind (booted e mbi m) (\<lambda>s. rbind (task_exec sw e (shell_name e) 0 0 s) (\<lambda>(b, s).
        ret (events [TermPrintf ''\<newline>System halted.'' [], Halt] s)))"
  by (simp add: kernel_main_def booted_def rbind_assoc split_def)

lemma tasks_init_result:
  assumes "tasks_init e s = ret s'"
  shows "k_tasks s' = replicate MAX_TASK_COUNT zero_task"
    and "k_gdt s' = (k_gdt s)[gdt_initial_tss := gdt_make_tss (initial_tss_addr e) DPL_KERNEL]"
    and "task_id s' = task_id s" and "k_idt s' = k_idt s" and "k_handlers s' = k_handlers s"
    and "cr3_reg s' = cr3_reg s" and "tr_reg s' = ucast (gdt_entry_to_selector gdt_initial_tss)"
    and "uspace s' = uspace s" and "k_mbi s' = k_mbi s"
  using assms by (auto simp: tasks_init_def Let_def multiboot_get_info_def rbind_eq_ret split_def)

lemma zero_task_free: "in_use zero_task = False"
  by (simp add: zero_task_def)

text \<open>\<open>tasks_init\<close> establishes the invariant of the task subsystem, with no task alive.\<close>

lemma tasks_init_ok:
  assumes "tasks_init e s = ret s'" and "length (k_gdt s) = gdt_len" and "task_id s = 1"
  shows "tasks_ok e s' \<and> used_slots s' = {}"
proof -
  note r = tasks_init_result [OF assms(1)]
  have "used_slots s' = {}"
    by (auto simp: used_slots_iff r zero_task_free)
  then show ?thesis
    using assms(2,3) by (simp add: tasks_ok_def slot_ok_def r zero_task_free)
qed

lemma boot_machine_result:
  assumes "boot_machine e mbi s = ret (ram, s')"
  shows "k_gdt s' = snd (gdt_init (gdt_address e) (k_gdt s))" and "task_id s' = task_id s"
    and "k_mbi s' = mbi" and "uspace s' = uspace s"
  using assms by (auto simp: boot_machine_def Let_def multiboot_set_info_def rbind_eq_ret split_def)

lemma boot_messages_simps [simp]:
  "k_gdt (boot_messages e ram s) = k_gdt s" "task_id (boot_messages e ram s) = task_id s"
  "uspace (boot_messages e ram s) = uspace s" "kmem (boot_messages e ram s) = kmem s"
  "k_mbi (boot_messages e ram s) = k_mbi s" "cr3_reg (boot_messages e ram s) = cr3_reg s"
  by (simp_all add: boot_messages_def Let_def)

lemma boot_subsystems_result:
  assumes "boot_subsystems e s = ret s'"
  shows "k_gdt s' = (k_gdt s)[gdt_initial_tss := gdt_make_tss (initial_tss_addr e) DPL_KERNEL]"
    and "task_id s' = task_id s" and "k_tasks s' = replicate MAX_TASK_COUNT zero_task"
    and "k_idt s' = idt_table (e_isr e)" and "k_handlers s' = e_timer_init e (e_keyb_init e irq_init)"
    and "tr_reg s' = ucast (gdt_entry_to_selector gdt_initial_tss)" and "uspace s' = uspace s"
proof -
  let ?s1 = "event KeybInit ((events (snd (snd (idt_init (idt_address e) (e_isr e))))
    ((events pic_init s)\<lparr>k_handlers := irq_init, k_idt := idt_table (e_isr e)\<rparr>))\<lparr>k_handlers := e_keyb_init e irq_init\<rparr>)"
  obtain s2 where s2: "tasks_init e ?s1 = ret s2"
    and s': "s' = events [Sti, TermPutsLit ''Interrupts enabled.\<newline>'']
      (event (TimerInit 1000) (s2\<lparr>k_handlers := e_timer_init e (k_handlers s2)\<rparr>))"
    using assms by (auto simp: boot_subsystems_def idt_init_def Let_def rbind_eq_ret)
  note r = tasks_init_result [OF s2]
  show "k_gdt s' = (k_gdt s)[gdt_initial_tss := gdt_make_tss (initial_tss_addr e) DPL_KERNEL]"
    "task_id s' = task_id s" "k_tasks s' = replicate MAX_TASK_COUNT zero_task" "k_idt s' = idt_table (e_isr e)"
    "k_handlers s' = e_timer_init e (e_keyb_init e irq_init)" "tr_reg s' = ucast (gdt_entry_to_selector gdt_initial_tss)"
    "uspace s' = uspace s"
    by (simp_all add: s' r)
qed

lemma booted_result:
  assumes "booted e mbi m = ret b"
  shows "k_gdt b = (snd (gdt_init (gdt_address e) gdt_static))[5 := gdt_make_tss (initial_tss_addr e) DPL_KERNEL]"
    and "k_idt b = idt_table (e_isr e)" and "tr_reg b = 40" and "k_handlers b = e_timer_init e (e_keyb_init e irq_init)"
    and "k_tasks b = replicate MAX_TASK_COUNT zero_task" and "task_id b = 1" and "uspace b = (\<lambda>i. Map.empty)"
proof -
  obtain ram s where s: "boot_machine e mbi (initial_state m) = ret (ram, s)"
    and b: "boot_subsystems e (boot_messages e ram s) = ret b"
    using assms by (auto simp: booted_def rbind_eq_ret)
  note r = boot_subsystems_result [OF b] boot_machine_result [OF s]
  show "k_gdt b = (snd (gdt_init (gdt_address e) gdt_static))[5 := gdt_make_tss (initial_tss_addr e) DPL_KERNEL]"
    "k_idt b = idt_table (e_isr e)" "tr_reg b = 40" "k_handlers b = e_timer_init e (e_keyb_init e irq_init)"
    "k_tasks b = replicate MAX_TASK_COUNT zero_task" "task_id b = 1" "uspace b = (\<lambda>i. Map.empty)"
    by (simp_all add: r) (simp_all add: initial_state_def gdt_slots gdt_entry_to_selector_def)
qed

lemma booted_ok: "booted e mbi m = ret b \<Longrightarrow> tasks_ok e b \<and> used_slots b = {}"
proof -
  assume b: "booted e mbi m = ret b"
  note r = booted_result [OF b]
  have "used_slots b = {}"
    by (auto simp: used_slots_iff zero_task_free r)
  then show ?thesis
    by (simp add: tasks_ok_def slot_ok_def zero_task_free r gdt_static_def)
qed

text \<open>
  The boot gets past both looks at the multiboot structure when it can be read, and
  \<^verbatim>\<open>paging_init\<close> leaves it as it is.
\<close>

definition mbi_kept :: "env \<Rightarrow> u32 \<Rightarrow> u32 \<Rightarrow> mem \<Rightarrow> bool" where
  "mbi_kept e mbi ram m \<longleftrightarrow> multiboot_get_RAM_in_KB m mbi = ret ram \<and>
     (\<forall>log. multiboot_get_RAM_in_KB (fst (e_paging_init e log ram m)) mbi = ret ram)"

lemma view_no_space: "uspace s = (\<lambda>i. Map.empty) \<Longrightarrow> view e s = kmem s"
  by (simp add: view_def split: option.split)

lemma booted_returns: "mbi_kept e mbi ram m \<Longrightarrow> \<exists>b. booted e mbi m = ret b"
  by (simp add: mbi_kept_def booted_def Let_def boot_machine_def boot_subsystems_def tasks_init_def view_no_space multiboot_set_info_def multiboot_get_info_def
      initial_state_def split_def idt_init_def)

section \<open>Properties\<close>

text \<open>C25: After a boot that completes the four segments are flat: base 0, the whole address space, present, two for each
  privilege level, at the selectors the code uses; the fifth entry is the initial TSS, loaded in
  the task register.\<close>

theorem booted_segments:
  assumes "booted e mbi m = ret b"
  shows "let g = k_gdt b in
   map (\<lambda>sel. (sel_index sel, desc_base (g ! sel_index sel), desc_limit (g ! sel_index sel),
      g_dpl (g ! sel_index sel), sel_rpl sel, g_present (g ! sel_index sel)))
     [GDT_KERNEL_CODE_SELECTOR, GDT_KERNEL_DATA_SELECTOR, GDT_USER_CODE_SELECTOR, GDT_USER_DATA_SELECTOR,
      tr_reg b]
   = [(1, 0, 0xffffffff, 0, 0, 1), (2, 0, 0xffffffff, 0, 0, 1), (3, 0, 0xffffffff, 3, 3, 1),
      (4, 0, 0xffffffff, 3, 3, 1), (5, initial_tss_addr e, sizeof_tss - 1, 0, 0, 1)]"
proof -
  have sel: "sel_index GDT_KERNEL_CODE_SELECTOR = 1" "sel_index GDT_KERNEL_DATA_SELECTOR = 2"
    "sel_index GDT_USER_CODE_SELECTOR = 3" "sel_index GDT_USER_DATA_SELECTOR = 4" "sel_index 40 = 5"
    "sel_rpl GDT_KERNEL_CODE_SELECTOR = 0" "sel_rpl GDT_KERNEL_DATA_SELECTOR = 0"
    "sel_rpl GDT_USER_CODE_SELECTOR = 3" "sel_rpl GDT_USER_DATA_SELECTOR = 3" "sel_rpl 40 = 0"
    by (simp_all add: sel_index_def sel_rpl_def descriptor_consts)
  have len: "length gdt_static = gdt_len" by (simp add: gdt_static_def)
  have present: "g_present (gdt_make_code_segment a b d) = 1" "g_present (gdt_make_data_segment a b d) = 1"
    "g_dpl (gdt_make_code_segment a b d) = ucast d" "g_dpl (gdt_make_data_segment a b d) = ucast d" for a b d
    by (simp_all add: gdt_make_code_segment_def gdt_make_data_segment_def)
  show ?thesis
    by (simp add: Let_def sel booted_result [OF assms] gdt_init_nth [OF len, unfolded One_nat_def] flat_segment gdt_make_tss_desc present)
       (simp add: len gdt_len_def descriptor_consts gdt_make_tss_desc)
qed

text \<open>The requests to the processor and to the memory manager, the ones whose order matters.\<close>

fun machine_event :: "kevent \<Rightarrow> bool" where
  "machine_event (Lgdt p) = True"
| "machine_event (Lidt p) = True"
| "machine_event (Ltr sel) = True"
| "machine_event (PagingInit ram) = True"
| "machine_event (PagingMmap va pa n pr ac) = True"
| "machine_event (OutB p v) = True"
| "machine_event KeybInit = True"
| "machine_event (TimerInit f) = True"
| "machine_event Sti = True"
| "machine_event Halt = True"
| "machine_event ev = False"

text \<open>C26: If \<open>paging_init\<close> leaves the multiboot structure as it is, the boot completes, in this order:
  descriptors before paging, the interrupt controllers and the interrupt table before any driver is
  started, the address space of the tasks before the task register, and interrupts enabled last.\<close>

theorem boot_order:
  assumes "mbi_kept e mbi ram m"
  shows "\<exists>b. booted e mbi m = ret b \<and> filter machine_event (klog b) =
    [Lgdt \<lparr>tp_limit = 111, tp_base = gdt_address e\<rparr>, PagingInit ram] @
    butlast pic_init @
    [Lidt \<lparr>tp_limit = 2047, tp_base = idt_address e\<rparr>, KeybInit,
     PagingMmap 0 0 (ram * 1024) PRIVILEGE_KERNEL ACCESS_READWRITE,
     PagingMmap (fb_addr (e_fb e)) (fb_addr (e_fb e)) (fb_size (e_fb e)) PRIVILEGE_USER ACCESS_READWRITE,
     Ltr 40, TimerInit 1000, Sti]"
  using assms by (simp add: mbi_kept_def booted_def Let_def boot_machine_def boot_messages_def boot_subsystems_def tasks_init_def
      multiboot_set_info_def multiboot_get_info_def view_no_space initial_state_def split_def gdt_init_def idt_init_def pic_init_def gdt_len_def descriptor_consts
      idt_consts gdt_entry_to_selector_def gdt_slots)

text \<open>The multiboot structure at address 1020 of the small machine: 1032 and 1035 KB.\<close>

lemma sample_mbi: "mbi_kept sample_env 1020 2067 sample_mem"
proof -
  have "block sample_mem 1024 (split32 1032 @ split32 1035)"
    using sample_bytes(4) by (simp add: block_append)
  then have "load32 sample_mem 1024 = ret 1032" "load32 sample_mem 1028 = ret 1035"
    by (simp_all add: block_append load32_split)
  then show ?thesis
    by (simp add: mbi_kept_def multiboot_get_RAM_in_KB_def sample_env_def)
qed

theorem boot_order_witness:
  "\<exists>b. booted sample_env 1020 sample_mem = ret b \<and> last (filter machine_event (klog b)) = Sti"
  using boot_order [OF sample_mbi] by auto

theorem booted_segments_witness:
  "\<exists>b. booted sample_env 1020 sample_mem = ret b \<and> desc_limit (k_gdt b ! 3) = 0xffffffff"
proof -
  obtain b where b: "booted sample_env 1020 sample_mem = ret b"
    using booted_returns [OF sample_mbi] by blast
  from booted_segments [OF b] have "desc_limit (k_gdt b ! sel_index GDT_USER_CODE_SELECTOR) = 0xffffffff"
    by (auto simp: Let_def)
  with b show ?thesis by (auto simp: sel_index_def descriptor_consts)
qed

end
