(* ===== verification/System.thy ===== *)
theory System
  imports Kernel Syscall
begin

text \<open>
  The kernel and its applications as one machine. An application is any program over its own
  state: from what it sees of memory it decides to store a byte, to call the kernel, to exit
  or to fault. What the processor does at a task switch, at a store that the page tables
  forbid and at an exception is written out as the IA-32 manual has it.
\<close>

datatype 'u action =
    Store u32 u8 u32 'u          \<comment> \<open>address, byte, instruction pointer\<close>
  | Syscall u32 u32 u32 u32 u32 "u32 \<Rightarrow> 'u"
  | Raise u32 u32 u32            \<comment> \<open>exception number, error code, instruction pointer\<close>
  | Leave                        \<comment> \<open>the final \<open>iret\<close> of \<open>exit\<close>\<close>

type_synonym 'u program = "'u \<Rightarrow> mem \<Rightarrow> 'u action"

text \<open>Memory open to privilege level 3: the task's own area and the frame buffer.\<close>

definition user_writable :: "env \<Rightarrow> kstate \<Rightarrow> nat \<Rightarrow> u32 \<Rightarrow> bool" where
  "user_writable e s i a \<longleftrightarrow> uspace s i a \<noteq> None \<or>
     (fb_addr (e_fb e) \<le> a \<and> a - fb_addr (e_fb e) < fb_size (e_fb e) \<and> kmem s a \<noteq> None)"

definition exception_regs :: "u32 \<Rightarrow> u32 \<Rightarrow> u32 \<Rightarrow> regs" where
  "exception_regs num err ip = \<lparr>r_gs = 0, r_fs = 0, r_es = 0, r_ds = 0, r_ebp = 0, r_edi = 0, r_esi = 0,
     r_edx = 0, r_ecx = 0, r_ebx = 0, r_eax = 0, r_number = num, r_error_code = err, r_eip = ip,
     r_cs = 0, r_eflags = 0, r_esp = 0, r_ss = 0\<rparr>"

text \<open>
  After the handler returns, the instruction at the saved pointer is the \<open>iret\<close> it wrote, and
  the task gives up the processor; a halted machine never returns.
\<close>

definition raise_exception :: "env \<Rightarrow> u32 \<Rightarrow> u32 \<Rightarrow> u32 \<Rightarrow> kstate \<Rightarrow> kstate run" where
  "raise_exception e num err ip s = rbind (exception_handler e (exception_regs num err ip) s)
     (\<lambda>r. case r of Resumes s \<Rightarrow> ret s | Halts s \<Rightarrow> None)"

text \<open>
  The far call to a TSS selector: the task register and the page directory are those of the
  task while it runs, and come back with its \<open>iret\<close>.
\<close>

definition hw_switch :: "env \<Rightarrow> (nat \<Rightarrow> kstate \<Rightarrow> kstate run) \<Rightarrow> task_switcher" where
  "hw_switch e body sel s = (case get_task_by_selector sel of
     None \<Rightarrow> fail BadIndex
   | Some i \<Rightarrow>
       rbind (body i (s\<lparr>tr_reg := sel, cr3_reg := cr3 (t_tss (k_tasks s ! i))\<rparr>)) (\<lambda>s'.
         ret (s'\<lparr>tr_reg := tr_reg s, cr3_reg := cr3_reg s\<rparr>)))"

text \<open>
  A task runs for at most \<open>n\<close> actions of its own, and so does each task it starts; \<open>boot\<close> is the
  program's state when it is entered.
\<close>

primrec run_task :: "nat \<Rightarrow> 'u program \<Rightarrow> (mem \<Rightarrow> 'u) \<Rightarrow> env \<Rightarrow> nat \<Rightarrow> 'u \<Rightarrow> kstate \<Rightarrow> kstate run" where
  "run_task 0 P boot e i u s = None"
| "run_task (Suc n) P boot e i u s = (case P u (view e s) of
     Store a b ip u' \<Rightarrow>
       if user_writable e s i a
       then rbind (on_view e (\<lambda>m. store8 m a b) s) (run_task n P boot e i u')
       else raise_exception e 14 7 ip s
   | Syscall nb a b c d k \<Rightarrow>
       rbind (syscall_handler (hw_switch e (\<lambda>j s. run_task n P boot e j (boot (view e s)) s)) e nb a b c d s)
         (\<lambda>(r, s). run_task n P boot e i (k r) s)
   | Raise num err ip \<Rightarrow> raise_exception e num err ip s
   | Leave \<Rightarrow> ret s)"

definition switcher :: "nat \<Rightarrow> 'u program \<Rightarrow> (mem \<Rightarrow> 'u) \<Rightarrow> env \<Rightarrow> task_switcher" where
  "switcher n P boot e = hw_switch e (\<lambda>j s. run_task n P boot e j (boot (view e s)) s)"

lemma run_task_Syscall: "P u (view e s) = Syscall nb a b c d k \<Longrightarrow> run_task (Suc n) P boot e i u s
    = rbind (syscall_handler (switcher n P boot e) e nb a b c d s) (\<lambda>(r, s). run_task n P boot e i (k r) s)"
  by (simp add: switcher_def)

section \<open>Whatever the applications do\<close>

lemma on_view_keeps: "on_view e f s = ret s' \<Longrightarrow> same_tasks s s' \<and> same_machine s s'"
  by (simp add: same_tasks_on_view same_machine_on_view)

lemma raise_exception_keeps: "raise_exception e num err ip s = ret s' \<Longrightarrow> same_tasks s s' \<and> same_machine s s'"
proof -
  assume "raise_exception e num err ip s = ret s'"
  then obtain x where x: "exception_handler e (exception_regs num err ip) s = ret x"
    "(case x of Resumes s \<Rightarrow> ret s | Halts s \<Rightarrow> None) = ret s'"
    by (auto simp: raise_exception_def rbind_eq_ret)
  then have r: "exception_handler e (exception_regs num err ip) s = ret (Resumes s')"
    by (cases x) simp_all
  then have "same_machine s s'"
    by (auto simp: exception_handler_def Let_def rbind_eq_ret split: if_splits dest!: same_machine_on_view)
  with exception_keeps_tasks [OF r] show ?thesis by simp
qed

lemma syscall_machine:
  assumes "syscall_handler sw e nb a b c d s = ret (r, s')" and "\<And>sel t t'. sw sel t = ret t' \<Longrightarrow> same_machine t t'"
  shows "same_machine s s'"
proof (cases "9 \<le> unat nb")
  case True
  with assms(1) show ?thesis by (simp add: syscall_beyond)
next
  case False
  then have "nb = 0 \<or> nb = 1 \<or> nb = 2 \<or> nb = 3 \<or> nb = 4 \<or> nb = 5 \<or> nb = 6 \<or> nb = 7 \<or> nb = 8"
    using nat9_cases [of nb] by auto
  with assms(1) show ?thesis
    by (auto simp: syscall_numbers syscall_term_puts_def syscall_term_set_colors_def
        syscall_keyb_get_key_def syscall_timer_info_def syscall_timer_sleep_def syscall_vbe_fb_info_def
        syscall_vbe_setpix_def syscall_putc_def syscall_task_exec_def Let_def rbind_eq_ret
        dest!: same_machine_on_view same_machine_exec [OF _ assms(2)]) (blast intro: same_machine_trans)
qed

text \<open>
  A relation that every step of an application respects, whatever happens in the tasks it
  starts, holds from the start of a task to its end.
\<close>

lemma run_task_rel:
  assumes R_refl: "\<And>s. R s s" and R_trans: "\<And>s s' s''. R s s' \<Longrightarrow> R s' s'' \<Longrightarrow> R s s''"
    and R_same: "\<And>s s'. same_tasks s s' \<Longrightarrow> same_machine s s' \<Longrightarrow> R s s'"
    and R_syscall: "\<And>sw nb a b c d s r s'. (\<And>sel t t'. sw sel t = ret t' \<Longrightarrow> R t t') \<Longrightarrow>
      syscall_handler sw e nb a b c d s = ret (r, s') \<Longrightarrow> R s s'"
    and R_switch: "\<And>body sel s s'. (\<And>j t t'. body j t = ret t' \<Longrightarrow> R t t') \<Longrightarrow>
      hw_switch e body sel s = ret s' \<Longrightarrow> R s s'"
  shows "run_task n P boot e i u s = ret s' \<Longrightarrow> R s s'"
proof (induction n arbitrary: i u s s')
  case (Suc n)
  show ?case
  proof (cases "P u (view e s)")
    case (Store a b ip u')
    show ?thesis
    proof (cases "user_writable e s i a")
      case True
      with Store Suc.prems obtain s1 where s1: "on_view e (\<lambda>m. store8 m a b) s = ret s1"
        "run_task n P boot e i u' s1 = ret s'"
        by (auto simp: rbind_eq_ret)
      show ?thesis using R_trans [OF R_same Suc.IH [OF s1(2)]] on_view_keeps [OF s1(1)] by blast
    next
      case False
      with Store Suc.prems have "raise_exception e 14 7 ip s = ret s'" by simp
      then show ?thesis using R_same raise_exception_keeps by blast
    qed
  next
    case (Syscall nb a b c d k)
    have sw: "R t t'" if "switcher n P boot e sel t = ret t'" for sel t t'
      using that unfolding switcher_def by (rule R_switch [rotated]) (rule Suc.IH)
    from Suc.prems obtain r s1 where s1: "syscall_handler (switcher n P boot e) e nb a b c d s = ret (r, s1)"
      "run_task n P boot e i (k r) s1 = ret s'"
      unfolding run_task_Syscall [of P u e s nb a b c d k, OF Syscall] by (auto simp: rbind_eq_ret)
    show ?thesis by (rule R_trans [OF R_syscall [OF sw s1(1)] Suc.IH [OF s1(2)]])
  next
    case (Raise num err ip)
    with Suc.prems have "raise_exception e num err ip s = ret s'" by simp
    then show ?thesis using R_same raise_exception_keeps by blast
  next
    case Leave
    with Suc.prems R_refl show ?thesis by simp
  qed
qed simp

lemma hw_switch_machine:
  assumes "\<And>j t t'. body j t = ret t' \<Longrightarrow> same_machine t t'" and "hw_switch e body sel s = ret s'"
  shows "same_machine s s'"
proof -
  obtain i s1 where "body i (s\<lparr>tr_reg := sel, cr3_reg := cr3 (t_tss (k_tasks s ! i))\<rparr>) = ret s1"
    "s' = s1\<lparr>tr_reg := tr_reg s, cr3_reg := cr3_reg s\<rparr>"
    using assms(2) by (auto simp: hw_switch_def rbind_eq_ret split: option.splits)
  with assms(1) show ?thesis by (fastforce simp: same_machine_def)
qed

lemma run_task_machine: "run_task n P boot e i u s = ret s' \<Longrightarrow> same_machine s s'"
  by (rule run_task_rel [of same_machine])
     (auto intro: same_machine_trans syscall_machine hw_switch_machine)

text \<open>The tasks alive before and after are the same, and the invariant holds.\<close>

definition keeps_pool :: "env \<Rightarrow> kstate \<Rightarrow> kstate \<Rightarrow> bool" where
  "keeps_pool e s s' \<longleftrightarrow> (tasks_ok e s \<longrightarrow> tasks_ok e s' \<and> used_slots s' = used_slots s)"

lemma keeps_pool_same: "same_tasks s s' \<Longrightarrow> keeps_pool e s s'"
  using same_tasks_ok [of s s' e] same_tasks_used [of s s'] by (simp add: keeps_pool_def)

lemma keeps_pool_switch:
  assumes "\<And>j t t'. body j t = ret t' \<Longrightarrow> keeps_pool e t t'" and "hw_switch e body sel s = ret s'"
  shows "keeps_pool e s s'"
proof -
  obtain i x y s1 where s1: "body i (s\<lparr>tr_reg := sel, cr3_reg := y\<rparr>) = ret s1"
    "s' = s1\<lparr>tr_reg := tr_reg s, cr3_reg := cr3_reg s\<rparr>"
    using assms(2) by (auto simp: hw_switch_def rbind_eq_ret split: option.splits)
  have "keeps_pool e s (s\<lparr>tr_reg := sel, cr3_reg := y\<rparr>)" "keeps_pool e s1 s'"
    by (auto simp: s1(2) same_tasks_def intro: keeps_pool_same)
  with assms(1) [OF s1(1)] show ?thesis by (simp add: keeps_pool_def)
qed

lemma keeps_pool_syscall:
  "(\<And>sel t t'. sw sel t = ret t' \<Longrightarrow> keeps_pool e t t') \<Longrightarrow>
   syscall_handler sw e nb a b c d s = ret (r, s') \<Longrightarrow> keeps_pool e s s'"
  unfolding keeps_pool_def using syscall_keeps by blast

lemma run_task_pool: "run_task n P boot e i u s = ret s' \<Longrightarrow> keeps_pool e s s'"
proof (rule run_task_rel [of "keeps_pool e"])
  show "keeps_pool e t t" for t by (simp add: keeps_pool_def)
  show "keeps_pool e t t''" if "keeps_pool e t t'" "keeps_pool e t' t''" for t t' t''
    using that by (simp add: keeps_pool_def)
qed (auto intro: keeps_pool_same keeps_pool_syscall keeps_pool_switch)

lemma switcher_keeps: "switcher n P boot e sel s = ret s' \<Longrightarrow> keeps_pool e s s' \<and> same_machine s s'"
  unfolding switcher_def
  by (rule conjI, rule keeps_pool_switch, erule run_task_pool, assumption,
      rule hw_switch_machine, erule run_task_machine, assumption)

section \<open>Fuel\<close>

text \<open>More fuel gives no other result.\<close>

definition run_le :: "'a run \<Rightarrow> 'a run \<Rightarrow> bool" where
  "run_le r q \<longleftrightarrow> r = None \<or> r = q"

lemma run_le_refl [simp]: "run_le r r"
  by (simp add: run_le_def)

lemma run_le_rbind: "run_le r q \<Longrightarrow> (\<And>x. run_le (f x) (g x)) \<Longrightarrow> run_le (rbind r f) (rbind q g)"
  by (cases "r = None"; cases q rule: run_cases) (auto simp: run_le_def dest: meta_spec)

lemma run_le_exec:
  assumes "\<And>sel t. run_le (sw sel t) (sw' sel t)"
  shows "run_le (task_exec sw e f argc argv s) (task_exec sw' e f argc argv s)"
  unfolding task_exec_def Let_def using assms
  by (auto intro!: run_le_rbind split: option.split)

lemma run_le_syscall:
  assumes "\<And>sel t. run_le (sw sel t) (sw' sel t)"
  shows "run_le (syscall_handler sw e nb a b c d s) (syscall_handler sw' e nb a b c d s)"
proof (cases "nb = 7")
  case True
  then show ?thesis
    using run_le_exec [OF assms] by (auto simp: syscall_numbers syscall_task_exec_def intro!: run_le_rbind)
next
  case False
  then have "syscall_handler sw e nb = syscall_handler sw' e nb"
    using nat9_cases [of nb] by (cases "9 \<le> unat nb") (auto simp: fun_eq_iff syscall_beyond syscall_numbers)
  then show ?thesis by simp
qed

lemma run_le_switch: "(\<And>j t. run_le (body j t) (body' j t)) \<Longrightarrow> run_le (hw_switch e body sel s) (hw_switch e body' sel s)"
  by (auto simp: hw_switch_def intro!: run_le_rbind split: option.split)

lemma run_task_Suc: "run_le (run_task n P boot e i u s) (run_task (Suc n) P boot e i u s)"
proof (induction n arbitrary: i u s)
  case 0
  then show ?case by (simp add: run_le_def)
next
  case (Suc n)
  show ?case
  proof (cases "P u (view e s)")
    case (Store a b ip u')
    have "run_le (rbind (on_view e (\<lambda>m. store8 m a b) s) (run_task n P boot e i u'))
        (rbind (on_view e (\<lambda>m. store8 m a b) s) (run_task (Suc n) P boot e i u'))"
      by (intro run_le_rbind run_le_refl Suc.IH)
    then show ?thesis
      unfolding run_task.simps(2) [of n] run_task.simps(2) [of "Suc n"] Store by simp
  next
    case (Syscall nb a b c d k)
    show ?thesis
      unfolding run_task_Syscall [of P u e s nb a b c d k, OF Syscall] switcher_def split_def
      by (intro run_le_rbind run_le_syscall run_le_switch Suc.IH)
  qed simp_all
qed

lemma run_task_fuel: "run_task n P boot e i u s = Some r \<Longrightarrow> n \<le> m \<Longrightarrow> run_task m P boot e i u s = Some r"
proof (induction m)
  case (Suc m)
  then show ?case
    using run_task_Suc [of m P boot e i u s] by (cases "n = Suc m") (auto simp: run_le_def)
qed simp

section \<open>Every reachable state\<close>

text \<open>
  How control enters the kernel while a task runs: a system call, an exception, a hardware
  interrupt, and between them the stores of the task; and the states these lead to from one in
  which the task has just been entered.
\<close>

inductive kernel_step :: "nat \<Rightarrow> 'u program \<Rightarrow> (mem \<Rightarrow> 'u) \<Rightarrow> env \<Rightarrow> kstate \<Rightarrow> kstate \<Rightarrow> bool"
  for n P boot e where
  by_syscall: "syscall_handler (switcher n P boot e) e nb a b c d s = ret (r, s') \<Longrightarrow> kernel_step n P boot e s s'"
| by_exception: "exception_handler e r s = ret (Resumes s') \<Longrightarrow> kernel_step n P boot e s s'"
| by_irq: "irq_handler (k_handlers s) irq = ret evs \<Longrightarrow> kernel_step n P boot e s (events evs s)"
| by_store: "on_view e (\<lambda>m. store8 m a b) s = ret s' \<Longrightarrow> kernel_step n P boot e s s'"

inductive_cases kernel_stepE: "kernel_step n P boot e s s'"

inductive reachable :: "nat \<Rightarrow> 'u program \<Rightarrow> (mem \<Rightarrow> 'u) \<Rightarrow> env \<Rightarrow> kstate \<Rightarrow> kstate \<Rightarrow> bool"
  for n P boot e s0 where
  at_start: "reachable n P boot e s0 s0"
| after_step: "reachable n P boot e s0 s \<Longrightarrow> kernel_step n P boot e s s' \<Longrightarrow> reachable n P boot e s0 s'"

lemma exception_keeps: "exception_handler e r s = ret (Resumes s') \<Longrightarrow> same_tasks s s' \<and> same_machine s s'"
  using exception_keeps_tasks [of e r s s']
  by (auto simp: exception_handler_def Let_def rbind_eq_ret split: if_splits dest!: same_machine_on_view)

lemma kernel_step_keeps:
  assumes "kernel_step n P boot e s s'"
  shows "keeps_pool e s s' \<and> same_machine s s'"
  using assms
proof (rule kernel_stepE)
  fix nb a b c d r
  assume call: "syscall_handler (switcher n P boot e) e nb a b c d s = ret (r, s')"
  show "keeps_pool e s s' \<and> same_machine s s'"
    using keeps_pool_syscall [OF _ call] syscall_machine [OF call] switcher_keeps by blast
qed (auto dest: exception_keeps on_view_keeps intro: keeps_pool_same)

lemma reachable_keeps:
  "reachable n P boot e s0 s \<Longrightarrow> keeps_pool e s0 s \<and> same_machine s0 s"
proof (induction rule: reachable.induct)
  case at_start
  show ?case by (simp add: keeps_pool_def)
next
  case (after_step s s')
  with kernel_step_keeps [OF after_step.hyps(2)] show ?case
    by (auto simp: keeps_pool_def intro: same_machine_trans)
qed

section \<open>Properties\<close>


lemma booted_sample: "booted sample_env mbi sample_mem = ret b \<Longrightarrow>
    load_ready sample_env b 512 (chars ''shell.exe'') [chars ''shell.exe''] 0 [0xCF] 0 [] []"
proof (rule sample_ready)
  assume b: "booted sample_env mbi sample_mem = ret b"
  then show "kmem b = sample_mem"
    by (auto simp: booted_def Let_def boot_machine_def boot_messages_def boot_subsystems_def tasks_init_def
        sample_env_def multiboot_set_info_def initial_state_def split_def rbind_eq_ret)
  show "\<forall>i. uspace b i = Map.empty"
    by (simp add: booted_result [OF b])
qed (simp_all add: args_at_def args_region_def)

lemma sample_tables:
  assumes "task_load sample_env f argc argv s = ret (Some i, s')" and "tasks_ok sample_env s" and "i < MAX_TASK_COUNT"
  shows "page_tables (k_tasks s' ! i) ! 0 = 0"
proof -
  obtain s1 n a s2 where s1: "same_tasks s s1" "task_create sample_env f n a s1 = (Some i, s2)" "k_tasks s' = k_tasks s2"
    using task_load_created [OF assms(1)] by blast
  have "e_paging_alloc sample_env l km pd tb va sz pr = r \<Longrightarrow> ar_tables r = tb" for l km pd tb va sz pr r
    by (auto simp: sample_env_def)
  then have "ar_tables (e_paging_alloc sample_env l km pd tb va sz pr) = tb" for l km pd tb va sz pr by simp
  with s1 assms(2,3) show ?thesis
    by (auto simp: task_create_def Let_def zero_task_def same_tasks_def tasks_ok_def PAGES_IN_PT_def split: option.splits)
qed


text \<open>C2: When the boot completes with the shell among its modules, the kernel gets to the point where it enters the
  shell's task: selector 48 is that of slot 0, whose entry point, at user privilege with interrupts
  enabled, shows the shell's image; what is left after the switch is the release of that task and
  the halt.\<close>

theorem kernel_main_starts_shell:
  assumes "booted e mbi m = ret b" and "load_ready e b (shell_name e) fn names k code 0 [] []"
  shows "\<exists>s cols. kernel_main sw e mbi (initial_state m) = rbind (sw 48 s) (\<lambda>s.
      rbind (task_free e 0 (event (TermSetColors cols) s)) (\<lambda>s.
        ret (events [TermPrintf ''\<newline>System halted.'' [], Halt] s))) \<and>
    get_task_by_selector 48 = Some 0 \<and> used_slots s = {0} \<and>
    block (uspace s 0) TASK_VIRT_ADDR (code @ [0, 0, 0, 0]) \<and>
    (let t = t_tss (k_tasks s ! 0) in eip t = TASK_VIRT_ADDR \<and> cr3 t = pagedir_addr e 0 \<and>
       cs t = GDT_USER_CODE_SELECTOR \<and> ss t = GDT_USER_DATA_SELECTOR \<and> bit (eflags t) 9)"
proof -
  have ok: "tasks_ok e b" using booted_ok [OF assms(1)] by blast
  have f: "first_free b = Some 0"
    using booted_ok [OF assms(1)] by (simp add: first_free_Some MAX_TASK_COUNT_def)
  obtain s1 where s1: "task_load e (shell_name e) 0 0 b = ret (Some 0, s1)"
    "block (uspace s1 0) TASK_VIRT_ADDR (code @ split32 0 @ packed [])"
    using task_load_image [OF ok f assms(2), of 0] by auto
  from ok s1(1) have k: "tasks_ok e s1" "used_slots s1 = {0}"
    using booted_ok [OF assms(1)] by (cases rule: task_load_cases; simp)+
  then have sel: "tss_selector (k_tasks s1 ! 0) = 48" and c: "cr3 (t_tss (k_tasks s1 ! 0)) = pagedir_addr e 0"
    using used_slots_iff [of 0 s1]
    by (auto simp: tasks_ok_def slot_ok_def Let_def gdt_entry_to_selector_def gdt_slots)
  have g: "get_task_by_selector 48 = Some 0"
    using get_task_of_task [OF k(1), of 0] k(2) by (simp add: sel)
  obtain s0 n a s2 where s2: "same_tasks b s0" "task_create e (shell_name e) n a s0 = (Some 0, s2)" "k_tasks s1 = k_tasks s2"
    using task_load_created [OF s1(1)] by blast
  have "\<exists>x. t_tss (k_tasks s2 ! 0) = task_tss e 0 x"
    using s2(1,2) ok by (auto simp: task_create_def Let_def same_tasks_def tasks_ok_def MAX_TASK_COUNT_def split: option.splits)
  then have t: "eip (t_tss (k_tasks s1 ! 0)) = TASK_VIRT_ADDR" "cs (t_tss (k_tasks s1 ! 0)) = GDT_USER_CODE_SELECTOR"
    "ss (t_tss (k_tasks s1 ! 0)) = GDT_USER_DATA_SELECTOR" "bit (eflags (t_tss (k_tasks s1 ! 0))) 9"
    using s2(3) by (auto simp: task_tss_def bit_simps)
  let ?s = "event (TaskSwitch 48) (event TermGetColors s1)"
  have "used_slots ?s = {0}" using k(2) same_tasks_used [of s1 ?s] by simp
  moreover have "kernel_main sw e mbi (initial_state m) = rbind (sw 48 ?s) (\<lambda>s.
      rbind (task_free e 0 (event (TermSetColors (e_getcolors e (klog s1))) s)) (\<lambda>s.
        ret (events [TermPrintf ''\<newline>System halted.'' [], Halt] s)))"
    by (simp add: kernel_main_booted assms(1) task_exec_def s1(1) Let_def sel rbind_assoc)
  moreover have "split32 0 = [0, 0, 0, 0]" by (simp add: split32_def)
  ultimately show ?thesis using s1(2) t c g by (intro exI [of _ ?s]) auto
qed

theorem kernel_main_starts_shell_witness:
  "\<exists>s cols. kernel_main (\<lambda>sel s. ret s) sample_env 1020 (initial_state sample_mem)
    = rbind (task_free sample_env 0 (event (TermSetColors cols) s)) (\<lambda>s.
        ret (events [TermPrintf ''\<newline>System halted.'' [], Halt] s)) \<and>
    block (uspace s 0) TASK_VIRT_ADDR [0xCF, 0, 0, 0, 0]"
proof -
  have "shell_name sample_env = 512" by (simp add: sample_env_def)
  obtain b where b: "booted sample_env 1020 sample_mem = ret b"
    using booted_returns [OF sample_mbi] by blast
  have r: "load_ready sample_env b
      (shell_name sample_env) (chars ''shell.exe'') [chars ''shell.exe''] 0 [0xCF] 0 [] []"
    using booted_sample [OF b] \<open>shell_name sample_env = 512\<close> by simp
  have "[0xCF] @ [0, 0, 0, 0] = [0xCF, 0, 0, 0, 0 :: u8]" by simp
  with kernel_main_starts_shell [OF b r, of "\<lambda>sel s. ret s"] show ?thesis by auto
qed


lemma sample_reachable: "reachable 0 (\<lambda>u m. Leave) (\<lambda>m. ()) sample_env s (events (pic_eoi 3) s)"
  if "k_handlers s = irq_init"
proof -
  have "irq_handler (k_handlers s) 3 = ret (pic_eoi 3)"
    by (simp add: that irq_handler_def irq_get_handler_def irq_init_def IRQ_COUNT_def zero_handler_def)
  then show ?thesis by (intro after_step [OF at_start] by_irq)
qed






end
