(* ===== verification/Cpu.thy ===== *)
theory Cpu
  imports Exception
begin

text \<open>
  The processor under the assembly files: the registers, the instructions those files use, the
  delivery of an interrupt through a gate and the return from it, and the call of a C function
  by the IA-32 convention. Code and data are flat, so a segment register is only its selector.
  Pushed selectors are extended with zeros. The status flags, which no stub reads, are not
  tracked.
\<close>

section \<open>Registers\<close>

datatype reg = EAX | EBX | ECX | EDX | ESI | EDI | EBP | ESP

datatype segreg = CS | SS | DS | ES | FS | GS

record cpu =
  gpr :: "reg \<Rightarrow> u32"
  sgr :: "segreg \<Rightarrow> u16"
  flg :: u32
  cip :: u32                       \<comment> \<open>the next instruction of the code that was left or entered\<close>
  kst :: kstate

definition set_gpr :: "reg \<Rightarrow> u32 \<Rightarrow> cpu \<Rightarrow> cpu" where
  "set_gpr r w c = c\<lparr>gpr := (gpr c)(r := w)\<rparr>"

definition set_sgr :: "segreg \<Rightarrow> u16 \<Rightarrow> cpu \<Rightarrow> cpu" where
  "set_sgr r w c = c\<lparr>sgr := (sgr c)(r := w)\<rparr>"

text \<open>The low half of a register, as \<open>mov ax, ...\<close> writes it, and the low byte, as \<open>mov al, ...\<close> does.\<close>

definition set_low :: "u32 \<Rightarrow> u16 \<Rightarrow> u32" where
  "set_low w x = (w AND NOT (mask 16)) OR ucast x"

definition set_low8 :: "u32 \<Rightarrow> u8 \<Rightarrow> u32" where
  "set_low8 w b = (w AND NOT (mask 8)) OR ucast b"

definition cpl :: "cpu \<Rightarrow> nat" where
  "cpl c = unat (sel_rpl (sgr c CS))"

section \<open>The stack\<close>

definition push32 :: "env \<Rightarrow> u32 \<Rightarrow> cpu \<Rightarrow> cpu run" where
  "push32 e w c = (let p = gpr c ESP - 4 in
     rbind (on_view e (\<lambda>m. store32 m p w) (kst c)) (\<lambda>s. ret (set_gpr ESP p (c\<lparr>kst := s\<rparr>))))"

definition pop32 :: "env \<Rightarrow> cpu \<Rightarrow> (u32 \<times> cpu) run" where
  "pop32 e c = (let p = gpr c ESP in
     rbind (load32 (view e (kst c)) p) (\<lambda>w. ret (w, set_gpr ESP (p + 4) c)))"

primrec pushes :: "env \<Rightarrow> u32 list \<Rightarrow> cpu \<Rightarrow> cpu run" where
  "pushes e [] c = ret c"
| "pushes e (w # ws) c = rbind (push32 e w c) (pushes e ws)"

definition load16 :: "mem \<Rightarrow> u32 \<Rightarrow> u16 run" where
  "load16 m a = rbind (load8 m a) (\<lambda>b0. rbind (load8 m (a + 1)) (\<lambda>b1.
     ret (ucast b0 OR push_bit 8 (ucast b1))))"

section \<open>Interrupts\<close>

text \<open>
  Where execution goes on: at the next instruction; in the task that this one was called from,
  by an \<open>iret\<close> with the nested-task flag set; nowhere.
\<close>

datatype flow = Next cpu | TaskReturn cpu | Stopped kstate

text \<open>
  The TSS a selector leads to, the initial one or that of a task; from the one of the task
  register the processor takes the kernel stack.
\<close>

definition tss_at :: "kstate \<Rightarrow> u16 \<Rightarrow> tss" where
  "tss_at s sel = (case get_task_by_selector sel of
     None \<Rightarrow> initial_tss s | Some i \<Rightarrow> t_tss (k_tasks s ! i))"

definition current_tss :: "kstate \<Rightarrow> tss" where
  "current_tss s = tss_at s (tr_reg s)"

text \<open>TF, NT, RF and VM are cleared on entry, and IF by an interrupt gate.\<close>

definition entry_flags :: "idt_entry \<Rightarrow> u32 \<Rightarrow> u32" where
  "entry_flags g f = f AND NOT (if i_type g = ucast TYPE_INTERRUPT_GATE then 0x34300 else 0x34100)"

text \<open>
  Delivery of vector \<open>n\<close>, asked for at privilege level \<open>lvl\<close> (0 for the hardware): from an outer
  level the processor changes to the stack of the TSS and saves the old one there.
\<close>

definition deliver :: "env \<Rightarrow> nat \<Rightarrow> nat \<Rightarrow> u32 list \<Rightarrow> cpu \<Rightarrow> cpu run" where
  "deliver e lvl n err c = (case software_int (k_idt (kst c)) lvl n of
     None \<Rightarrow> fail BadIndex
   | Some (sel, off) \<Rightarrow>
       let outer = unat (sel_rpl sel) < cpl c;
           t = current_tss (kst c);
           c1 = (if outer then set_sgr SS (ss0 t) (set_gpr ESP (esp0 t) c) else c)
       in rbind (pushes e ((if outer then [ucast (sgr c SS), gpr c ESP] else []) @
                   [flg c, ucast (sgr c CS), cip c] @ err) c1) (\<lambda>c2.
          ret (set_sgr CS sel (c2\<lparr>flg := entry_flags (k_idt (kst c) ! n) (flg c), cip := off\<rparr>))))"

definition iret :: "env \<Rightarrow> cpu \<Rightarrow> flow run" where
  "iret e c = (if bit (flg c) 14 then ret (TaskReturn c) else
     rbind (pop32 e c) (\<lambda>(new_ip, c1). rbind (pop32 e c1) (\<lambda>(new_cs, c2). rbind (pop32 e c2) (\<lambda>(f, c3).
       let c4 = set_sgr CS (ucast new_cs) (c3\<lparr>cip := new_ip, flg := f\<rparr>) in
       if cpl c < cpl c4
       then rbind (pop32 e c4) (\<lambda>(sp, c5). rbind (pop32 e c5) (\<lambda>(new_ss, c6).
              ret (Next (set_sgr SS (ucast new_ss) (set_gpr ESP sp c6)))))
       else ret (Next c4)))))"

section \<open>Calls of C functions\<close>

text \<open>
  A C function finds its arguments from the given address on. Its return address and its own
  frame lie below them and are not modelled; \<open>eax\<close> has the result, if there is one.
\<close>

datatype cresult = Returns "u32 option" kstate | Halted kstate

type_synonym cfun = "u32 \<Rightarrow> kstate \<Rightarrow> cresult run"

text \<open>
  What surrounds a piece of code: the software interrupts, the hardware task switch, and what a
  C function leaves in the registers it need not preserve (\<open>eax\<close> of a void one, \<open>ecx\<close>, \<open>edx\<close>);
  what the ports and the register CR0 hold after the requests so far.
\<close>

record platform =
  pl_int :: "nat \<Rightarrow> cpu \<Rightarrow> flow run"
  pl_switch :: "u16 \<Rightarrow> cpu \<Rightarrow> cpu run"
  pl_clobber :: "kstate \<Rightarrow> u32 \<times> u32 \<times> u32"
  pl_inb :: "kevent list \<Rightarrow> u16 \<Rightarrow> u8"
  pl_inw :: "kevent list \<Rightarrow> u16 \<Rightarrow> u16"
  pl_cr0 :: "kevent list \<Rightarrow> u32"

definition call_c :: "platform \<Rightarrow> cfun \<Rightarrow> cpu \<Rightarrow> flow run" where
  "call_c pl f c = rbind (f (gpr c ESP) (kst c)) (\<lambda>r. case r of
     Halted s \<Rightarrow> ret (Stopped s)
   | Returns v s \<Rightarrow> (case pl_clobber pl s of (a, x, d) \<Rightarrow>
       ret (Next (c\<lparr>kst := s, gpr := (gpr c)(EAX := (case v of None \<Rightarrow> a | Some w \<Rightarrow> w), ECX := x, EDX := d)\<rparr>))))"

section \<open>Instructions\<close>

datatype instr =
    PushR reg | PushS segreg | PushI u32
  | PopR reg | PopS segreg
  | MovR reg reg                   \<comment> \<open>\<open>mov r, r'\<close>\<close>
  | MovI reg u32
  | MovI16 reg u16                 \<comment> \<open>\<open>mov ax, imm\<close>\<close>
  | LoadR reg reg u32              \<comment> \<open>\<open>mov r, [r' + d]\<close>\<close>
  | LoadR16 reg reg u32            \<comment> \<open>\<open>mov ax, [r' + d]\<close>\<close>
  | LoadR8 reg reg u32             \<comment> \<open>\<open>mov al, [r' + d]\<close>\<close>
  | StoreR16 reg reg               \<comment> \<open>\<open>mov [r], ax\<close>\<close>
  | MovS segreg reg                \<comment> \<open>\<open>mov ds, ax\<close>\<close>
  | AddI reg u32 | OrI reg u32
  | MovToCr0 reg | MovFromCr0 reg
  | MovToCr3 reg | MovFromCr3 reg
  | LgdtM reg | LidtM reg          \<comment> \<open>\<open>lgdt [r]\<close>\<close>
  | LtrR reg | StrR reg
  | OutDxAl | OutDxAx              \<comment> \<open>\<open>out dx, al\<close>\<close>
  | InAlDx | InAxDx                \<comment> \<open>\<open>in al, dx\<close>\<close>
  | CliI | StiI | HltI
  | IntI nat
  | CallC cfun                     \<comment> \<open>\<open>call\<close> of a C function\<close>
  | CallFar reg u32                \<comment> \<open>\<open>call far [r + d]\<close> of a TSS selector\<close>
  | JmpFar u16                     \<comment> \<open>\<open>jmp sel:next\<close>\<close>
  | RetI | IretI

definition load_table_ptr :: "mem \<Rightarrow> u32 \<Rightarrow> table_ptr run" where
  "load_table_ptr m a = rbind (load16 m a) (\<lambda>l. rbind (load32 m (a + 2)) (\<lambda>b.
     ret \<lparr>tp_limit = l, tp_base = b\<rparr>))"

definition store16_at :: "u32 \<Rightarrow> u16 \<Rightarrow> mem \<Rightarrow> mem run" where
  "store16_at a w m = rbind (store8 m a (ucast w)) (\<lambda>m. store8 m (a + 1) (ucast (drop_bit 8 w)))"

fun step :: "platform \<Rightarrow> env \<Rightarrow> instr \<Rightarrow> cpu \<Rightarrow> flow run" where
  "step pl e (PushR r) c = rbind (push32 e (gpr c r) c) (\<lambda>c. ret (Next c))"
| "step pl e (PushS r) c = rbind (push32 e (ucast (sgr c r)) c) (\<lambda>c. ret (Next c))"
| "step pl e (PushI w) c = rbind (push32 e w c) (\<lambda>c. ret (Next c))"
| "step pl e (PopR r) c = rbind (pop32 e c) (\<lambda>(w, c). ret (Next (set_gpr r w c)))"
| "step pl e (PopS r) c = rbind (pop32 e c) (\<lambda>(w, c). ret (Next (set_sgr r (ucast w) c)))"
| "step pl e (MovR r r') c = ret (Next (set_gpr r (gpr c r') c))"
| "step pl e (MovI r w) c = ret (Next (set_gpr r w c))"
| "step pl e (MovI16 r w) c = ret (Next (set_gpr r (set_low (gpr c r) w) c))"
| "step pl e (LoadR r r' d) c = rbind (load32 (view e (kst c)) (gpr c r' + d)) (\<lambda>w. ret (Next (set_gpr r w c)))"
| "step pl e (LoadR16 r r' d) c = rbind (load16 (view e (kst c)) (gpr c r' + d)) (\<lambda>w.
     ret (Next (set_gpr r (set_low (gpr c r) w) c)))"
| "step pl e (LoadR8 r r' d) c = rbind (load8 (view e (kst c)) (gpr c r' + d)) (\<lambda>b.
     ret (Next (set_gpr r (set_low8 (gpr c r) b) c)))"
| "step pl e (StoreR16 r r') c = rbind (on_view e (store16_at (gpr c r) (ucast (gpr c r'))) (kst c)) (\<lambda>s.
     ret (Next (c\<lparr>kst := s\<rparr>)))"
| "step pl e (MovS r r') c = ret (Next (set_sgr r (ucast (gpr c r')) c))"
| "step pl e (AddI r w) c = ret (Next (set_gpr r (gpr c r + w) c))"
| "step pl e (OrI r w) c = ret (Next (set_gpr r (gpr c r OR w) c))"
| "step pl e (MovToCr0 r) c = ret (Next (c\<lparr>kst := event (SetCr0 (gpr c r)) (kst c)\<rparr>))"
| "step pl e (MovFromCr0 r) c = ret (Next (set_gpr r (pl_cr0 pl (klog (kst c))) c))"
| "step pl e (MovToCr3 r) c = ret (Next (c\<lparr>kst := load_pagedir (gpr c r) (kst c)\<rparr>))"
| "step pl e (MovFromCr3 r) c = ret (Next (set_gpr r (cr3_reg (kst c)) c))"
| "step pl e (LgdtM r) c = rbind (load_table_ptr (view e (kst c)) (gpr c r)) (\<lambda>p.
     ret (Next (c\<lparr>kst := event (Lgdt p) (kst c)\<rparr>)))"
| "step pl e (LidtM r) c = rbind (load_table_ptr (view e (kst c)) (gpr c r)) (\<lambda>p.
     ret (Next (c\<lparr>kst := event (Lidt p) (kst c)\<rparr>)))"
| "step pl e (LtrR r) c = ret (Next (c\<lparr>kst := event (Ltr (ucast (gpr c r))) ((kst c)\<lparr>tr_reg := ucast (gpr c r)\<rparr>)\<rparr>))"
| "step pl e (StrR r) c = ret (Next (set_gpr r (set_low (gpr c r) (tr_reg (kst c))) c))"
| "step pl e OutDxAl c = ret (Next (c\<lparr>kst := event (OutB (ucast (gpr c EDX)) (ucast (gpr c EAX))) (kst c)\<rparr>))"
| "step pl e OutDxAx c = ret (Next (c\<lparr>kst := event (OutW (ucast (gpr c EDX)) (ucast (gpr c EAX))) (kst c)\<rparr>))"
| "step pl e InAlDx c = (let port = ucast (gpr c EDX); b = pl_inb pl (klog (kst c)) port in
     ret (Next (set_gpr EAX (set_low8 (gpr c EAX) b) (c\<lparr>kst := event (InB port) (kst c)\<rparr>))))"
| "step pl e InAxDx c = (let port = ucast (gpr c EDX); w = pl_inw pl (klog (kst c)) port in
     ret (Next (set_gpr EAX (set_low (gpr c EAX) w) (c\<lparr>kst := event (InW port) (kst c)\<rparr>))))"
| "step pl e CliI c = ret (Next (c\<lparr>flg := flg c AND NOT 0x200\<rparr>))"
| "step pl e StiI c = ret (Next (c\<lparr>flg := flg c OR 0x200\<rparr>))"
| "step pl e HltI c = ret (Stopped (event Halt (kst c)))"
| "step pl e (IntI n) c = pl_int pl n c"
| "step pl e (CallC f) c = call_c pl f c"
| "step pl e (CallFar r d) c = rbind (load16 (view e (kst c)) (gpr c r + d + 4)) (\<lambda>sel.
     rbind (pl_switch pl sel (c\<lparr>kst := event (TaskSwitch sel) (kst c)\<rparr>)) (\<lambda>c. ret (Next c)))"
| "step pl e (JmpFar sel) c = ret (Next (set_sgr CS sel c))"
| "step pl e RetI c = rbind (pop32 e c) (\<lambda>(w, c). ret (Next (c\<lparr>cip := w\<rparr>)))"
| "step pl e IretI c = iret e c"

primrec exec :: "platform \<Rightarrow> env \<Rightarrow> instr list \<Rightarrow> cpu \<Rightarrow> flow run" where
  "exec pl e [] c = ret (Next c)"
| "exec pl e (i # is) c = rbind (step pl e i c) (\<lambda>f. case f of Next c \<Rightarrow> exec pl e is c | _ \<Rightarrow> ret f)"

text \<open>An interrupt: its delivery, then the code at the address of the gate.\<close>

definition interrupt :: "(u32 \<Rightarrow> instr list) \<Rightarrow> platform \<Rightarrow> env \<Rightarrow> nat \<Rightarrow> nat \<Rightarrow> u32 list \<Rightarrow> cpu \<Rightarrow> flow run" where
  "interrupt code pl e lvl n err c = rbind (deliver e lvl n err c) (\<lambda>c. exec pl e (code (cip c)) c)"

text \<open>Code of an application: its \<open>int n\<close> is an interrupt asked for at its privilege level.\<close>

definition user_platform :: "(u32 \<Rightarrow> instr list) \<Rightarrow> platform \<Rightarrow> env \<Rightarrow> platform" where
  "user_platform code pl e = pl\<lparr>pl_int := \<lambda>n c. interrupt code pl e (cpl c) n [] c\<rparr>"

section \<open>Registers and memory\<close>

lemma set_simps [simp]:
  "gpr (set_gpr r w c) = (gpr c)(r := w)" "sgr (set_gpr r w c) = sgr c" "flg (set_gpr r w c) = flg c"
  "cip (set_gpr r w c) = cip c" "kst (set_gpr r w c) = kst c"
  "sgr (set_sgr x v c) = (sgr c)(x := v)" "gpr (set_sgr x v c) = gpr c" "flg (set_sgr x v c) = flg c"
  "cip (set_sgr x v c) = cip c" "kst (set_sgr x v c) = kst c"
  by (simp_all add: set_gpr_def set_sgr_def)

lemma cpu_eq: "gpr c = gpr c' \<Longrightarrow> sgr c = sgr c' \<Longrightarrow> flg c = flg c' \<Longrightarrow> cip c = cip c' \<Longrightarrow> kst c = kst c' \<Longrightarrow> c = (c' :: cpu)"
  by simp

lemma all_reg: "(\<forall>r. P r) \<longleftrightarrow> P EAX \<and> P EBX \<and> P ECX \<and> P EDX \<and> P ESI \<and> P EDI \<and> P EBP \<and> P ESP"
  by (metis reg.exhaust)

lemma all_segreg: "(\<forall>r. P r) \<longleftrightarrow> P CS \<and> P SS \<and> P DS \<and> P ES \<and> P FS \<and> P GS"
  by (metis segreg.exhaust)

lemmas by_register = fun_eq_iff all_reg all_segreg

lemma set_view_set_view: "dom m = dom (view e s) \<Longrightarrow> set_view e m' (set_view e m s) = set_view e m' s"
proof (cases "active_space e s")
  case (Some i)
  assume "dom m = dom (view e s)"
  then have d: "dom (uspace s i) \<subseteq> dom m" by (auto simp: view_def Some)
  then have "dom (m |` dom (uspace s i)) = dom (uspace s i)" by auto
  moreover have "active_space e (set_view e m s) = Some i" using Some by simp
  ultimately show ?thesis
    using Some by (simp add: set_view_def) (auto simp: fun_eq_iff)
qed (simp add: set_view_def active_space_def)

lemma set_view_same: "set_view e (view e s) s = s"
proof (cases "active_space e s")
  case (Some i)
  have "(kmem s ++ uspace s i) |` dom (uspace s i) = uspace s i"
    by (auto simp: restrict_map_def fun_eq_iff map_add_def split: option.splits)
  moreover have "(\<lambda>a. if a \<in> dom (uspace s i) then kmem s a else (kmem s ++ uspace s i) a) = kmem s"
    by (auto simp: fun_eq_iff map_add_def split: option.split)
  ultimately show ?thesis using Some by (simp add: set_view_def view_def)
qed (simp add: set_view_def view_def)

lemma view_cong: "kmem s = kmem s' \<Longrightarrow> uspace s = uspace s' \<Longrightarrow> cr3_reg s = cr3_reg s' \<Longrightarrow> view e s = view e s'"
  by (simp add: view_def active_space_def split: option.split)

lemma upd_local: "a \<in> addrs p (length xs) \<Longrightarrow> upd m p xs a = upd m' p xs a"
proof (induction xs arbitrary: m m' p)
  case (Cons x xs)
  show ?case
  proof (cases "a \<in> addrs (p + 1) (length xs)")
    case True
    then show ?thesis by (simp add: Cons.IH [of "p + 1" "m(p \<mapsto> x)" "m'(p \<mapsto> x)"])
  next
    case False
    with Cons.prems show ?thesis by (simp add: upd_outside)
  qed
qed simp

lemma upd_comm:
  assumes "addrs p (length xs) \<inter> addrs q (length ys) = {}"
  shows "upd (upd m q ys) p xs = upd (upd m p xs) q ys"
proof
  fix a
  consider "a \<in> addrs p (length xs)" "a \<notin> addrs q (length ys)" | "a \<notin> addrs p (length xs)"
    using assms by blast
  then show "upd (upd m q ys) p xs a = upd (upd m p xs) q ys a"
  proof cases
    case 1
    then show ?thesis using upd_local [OF 1(1)] by (simp add: upd_outside)
  next
    case 2
    then show ?thesis
      using upd_local [of a q ys m "upd m p xs"] upd_outside [of a q ys] by (cases "a \<in> addrs q (length ys)") (simp_all add: upd_outside)
  qed
qed

lemma addrs_adjacent: "n + k \<le> 2 ^ 32 \<Longrightarrow> addrs p n \<inter> addrs (p + of_nat n) k = {}"
proof -
  assume nk: "n + k \<le> 2 ^ 32"
  have "p + of_nat i \<noteq> p + of_nat n + of_nat j" if "i < n" "j < k" for i j
  proof -
    have "(of_nat i :: u32) \<noteq> of_nat (n + j)" using that nk by (subst of_nat_u32_inj) simp_all
    then show ?thesis by (simp add: add.assoc)
  qed
  then show ?thesis by (auto simp: addrs_def)
qed

lemma upd_prepend:
  "length xs + length ys \<le> 2 ^ 32 \<Longrightarrow> upd (upd m (p + of_nat (length xs)) ys) p xs = upd m p (xs @ ys)"
  by (subst upd_comm) (rule addrs_adjacent, simp_all add: upd_append)

text \<open>A write that covers an earlier one.\<close>

lemma upd_absorb: "addrs q (length ys) \<subseteq> addrs p (length xs) \<Longrightarrow> upd (upd m q ys) p xs = upd m p xs"
proof
  fix a
  assume "addrs q (length ys) \<subseteq> addrs p (length xs)"
  then show "upd (upd m q ys) p xs a = upd m p xs a"
    using upd_local [of a p xs "upd m q ys" m] upd_outside [of a q ys m]
    by (cases "a \<in> addrs p (length xs)") (simp, metis upd_outside subsetD)
qed

definition words :: "u32 list \<Rightarrow> u8 list" where
  "words ws = concat (map split32 ws)"

lemma words_simps [simp]: "words [] = []" "words (w # ws) = split32 w @ words ws"
  "words (vs @ ws) = words vs @ words ws" "length (words ws) = 4 * length ws"
  by (simp_all add: words_def) (induction ws, simp_all)

lemma load32_words: "block m p (words ws) \<Longrightarrow> i < length ws \<Longrightarrow> load32 m (p + of_nat (4 * i)) = ret (ws ! i)"
proof -
  assume b: "block m p (words ws)" and i: "i < length ws"
  have "words ws = words (take i ws) @ split32 (ws ! i) @ words (drop (Suc i) ws)"
    using i by (metis id_take_nth_drop words_simps(2,3))
  moreover have "length (words (take i ws)) = 4 * i" using i by simp
  ultimately have "block m (p + of_nat (4 * i)) (split32 (ws ! i))"
    using b by (simp only: block_append)
  then show ?thesis by (rule load32_split)
qed

lemma mapped_sub: "mapped m p n \<Longrightarrow> i + k \<le> n \<Longrightarrow> mapped m (p + of_nat i) k"
  using addrs_split [of p i k] addrs_mono [of "i + k" n p] by (auto simp: mapped_def)

section \<open>Runs of pushes and pops\<close>

lemma push32_on:
  assumes "kst c = set_view e m s" and "dom m = dom (view e s)" and "mapped m (gpr c ESP - 4) 4"
  shows "push32 e w c = ret (set_gpr ESP (gpr c ESP - 4) (c\<lparr>kst := set_view e (upd m (gpr c ESP - 4) (split32 w)) s\<rparr>))"
proof -
  have "view e (kst c) = m" using assms(1,2) by (simp add: view_set_view)
  then show ?thesis
    using assms by (simp add: push32_def on_view_def store32_upd set_view_set_view Let_def)
qed

lemma pushes_on:
  assumes "kst c = set_view e m s" and "dom m = dom (view e s)" and "4 * length ws < 2 ^ 32"
    and "mapped m (gpr c ESP - of_nat (4 * length ws)) (4 * length ws)"
  shows "pushes e ws c = ret (set_gpr ESP (gpr c ESP - of_nat (4 * length ws))
    (c\<lparr>kst := set_view e (upd m (gpr c ESP - of_nat (4 * length ws)) (words (rev ws))) s\<rparr>))"
  using assms
proof (induction ws arbitrary: c m)
  case Nil
  then show ?case by (simp add: set_gpr_def)
next
  case (Cons w ws)
  let ?p = "gpr c ESP - of_nat (4 * length (w # ws))" and ?q = "gpr c ESP - 4"
  let ?m = "upd m ?q (split32 w)" and ?n = "4 * length ws"
  have q: "?p + of_nat ?n = ?q" by (simp add: algebra_simps)
  have map: "mapped m ?p ?n" "mapped m ?q 4"
    using Cons.prems(4) addrs_split [of ?p ?n 4] unfolding mapped_def q by (simp_all add: add.commute del: addrs_Suc)
  let ?c = "set_gpr ESP ?q (c\<lparr>kst := set_view e ?m s\<rparr>)"
  have "pushes e ws ?c = ret (set_gpr ESP (gpr ?c ESP - of_nat ?n)
      (?c\<lparr>kst := set_view e (upd ?m (gpr ?c ESP - of_nat ?n) (words (rev ws))) s\<rparr>))"
  proof (rule Cons.IH)
    show "dom ?m = dom (view e s)"
      using map(2) Cons.prems(2) by (auto simp: dom_upd mapped_def simp del: addrs_Suc)
    show "mapped ?m (gpr ?c ESP - of_nat (4 * length ws)) (4 * length ws)"
      using map(1) by (intro mapped_upd) (simp add: algebra_simps)
  qed (use Cons.prems(3) in simp_all)
  moreover have "upd ?m ?p (words (rev ws)) = upd m ?p (words (rev (w # ws)))"
    using upd_prepend [of "words (rev ws)" "split32 w" m ?p] Cons.prems(3) q by (simp add: algebra_simps)
  moreover have "?q - of_nat ?n = ?p" by (simp add: algebra_simps)
  ultimately show ?case
    using push32_on [OF Cons.prems(1,2) map(2), of w] by (simp add: set_gpr_def diff_diff_eq)
qed

lemma pop32_on: "block (view e (kst c)) (gpr c ESP) (split32 w) \<Longrightarrow> pop32 e c = ret (w, set_gpr ESP (gpr c ESP + 4) c)"
  by (simp add: pop32_def load32_split)

lemma exec_append: "exec pl e (is @ js) c = rbind (exec pl e is c) (\<lambda>f. case f of Next c \<Rightarrow> exec pl e js c | _ \<Rightarrow> ret f)"
proof (induction "is" arbitrary: c)
  case (Cons i "is")
  show ?case by (cases "step pl e i c" rule: run_cases) (simp_all add: Cons split: flow.split)
qed simp

fun pushed :: "instr \<Rightarrow> cpu \<Rightarrow> u32 option" where
  "pushed (PushR r) c = (if r = ESP then None else Some (gpr c r))"
| "pushed (PushS r) c = Some (ucast (sgr c r))"
| "pushed (PushI w) c = Some w"
| "pushed i c = None"

lemma pushed_push: "push32 e w c = ret c' \<Longrightarrow> pushed i c' = pushed i c"
  by (cases i) (auto simp: push32_def Let_def rbind_eq_ret)

lemma exec_pushes: "map (\<lambda>i. pushed i c) is = map Some ws \<Longrightarrow>
    exec pl e (is @ js) c = rbind (pushes e ws c) (exec pl e js)"
proof (induction "is" arbitrary: ws c)
  case (Cons i "is")
  then obtain w ws' where ws: "ws = w # ws'" "pushed i c = Some w" "map (\<lambda>i. pushed i c) is = map Some ws'"
    by (cases ws) auto
  have s: "step pl e i c = rbind (push32 e w c) (\<lambda>c. ret (Next c))"
    using ws(2) by (cases i) (auto split: if_splits)
  show ?case
  proof (cases "push32 e w c" rule: run_cases)
    case (Returns c')
    then have "map (\<lambda>i. pushed i c') is = map Some ws'"
      using ws(3) pushed_push [OF Returns] by simp
    from Cons.IH [OF this] show ?thesis by (simp add: s ws(1) Returns)
  qed (simp_all add: s ws(1))
qed simp

text \<open>Pushes onto the stack whose top will be \<open>p\<close>.\<close>

lemma exec_pushes_on:
  assumes "map (\<lambda>i. pushed i c) is = map Some ws"
    and "kst c = set_view e m s" and "dom m = dom (view e s)" and "4 * length is < 2 ^ 32"
    and "gpr c ESP = p + of_nat (4 * length is)" and "mapped m p (4 * length is)"
  shows "exec pl e (is @ js) c = exec pl e js (set_gpr ESP p (c\<lparr>kst := set_view e (upd m p (words (rev ws))) s\<rparr>))"
proof -
  have "length ws = length is" using arg_cong [OF assms(1), of length] by simp
  then show ?thesis using pushes_on [OF assms(2,3), of ws] assms(4,5,6) by (simp add: exec_pushes [OF assms(1)])
qed

lemma exec_step: "step pl e i c = ret (Next c') \<Longrightarrow> exec pl e (i # is) c = exec pl e is c'"
  by simp

lemma exec_iret: "exec pl e [IretI] c = iret e c"
  by (cases "iret e c" rule: run_cases) (auto split: flow.split)

fun is_pop :: "instr \<Rightarrow> bool" where
  "is_pop (PopR r) = (r \<noteq> ESP)"
| "is_pop (PopS r) = True"
| "is_pop i = False"

fun popped :: "instr \<Rightarrow> u32 \<Rightarrow> cpu \<Rightarrow> cpu" where
  "popped (PopR r) w c = set_gpr r w c"
| "popped (PopS r) w c = set_sgr r (ucast w) c"
| "popped i w c = c"

lemma popped_esp: "is_pop i \<Longrightarrow> popped i w (set_gpr ESP p c) = set_gpr ESP p (popped i w c)"
  by (cases i) (auto simp: set_gpr_def set_sgr_def fun_upd_twist)

lemma popped_kst: "kst (popped i w c) = kst c" "is_pop i \<Longrightarrow> gpr (popped i w c) ESP = gpr c ESP"
  by (cases i, simp_all)+

lemma exec_pops:
  assumes "list_all is_pop is" and "length ws = length is"
    and "block (view e (kst c)) (gpr c ESP) (words ws)"
  shows "exec pl e (is @ js) c = exec pl e js
    (set_gpr ESP (gpr c ESP + of_nat (4 * length is)) (fold (\<lambda>(i, w). popped i w) (zip is ws) c))"
  using assms
proof (induction "is" arbitrary: ws c)
  case Nil
  then show ?case by (simp add: set_gpr_def)
next
  case (Cons i "is")
  then obtain w ws' where ws: "ws = w # ws'" "length ws' = length is"
    by (cases ws) auto
  let ?c = "popped i w (set_gpr ESP (gpr c ESP + 4) c)"
  have b: "block (view e (kst c)) (gpr c ESP) (split32 w)" "block (view e (kst c)) (gpr c ESP + 4) (words ws')"
    using Cons.prems(3) by (simp_all add: ws block_append)
  have s: "step pl e i c = ret (Next ?c)"
    using Cons.prems(1) pop32_on [OF b(1)] by (cases i) simp_all
  have "exec pl e (is @ js) ?c = exec pl e js
    (set_gpr ESP (gpr ?c ESP + of_nat (4 * length is)) (fold (\<lambda>(i, w). popped i w) (zip is ws') ?c))"
    using Cons.prems(1) b(2) ws(2) by (intro Cons.IH) (simp_all add: popped_kst)
  moreover have "fold (\<lambda>(i, w). popped i w) (zip is ws') (set_gpr ESP p c')
      = set_gpr ESP p (fold (\<lambda>(i, w). popped i w) (zip is ws') c')" for p c'
    using Cons.prems(1) ws(2)
  proof (induction "is" arbitrary: ws' c')
    case (Cons j js)
    then show ?case by (cases ws') (simp_all add: popped_esp)
  qed simp
  ultimately show ?case
    using Cons.prems(1) by (simp add: s ws(1) popped_esp) (simp add: set_gpr_def algebra_simps)
qed

declare exec.simps(2) [simp del]

lemma selector_word [simp]: "ucast (ucast (x :: u16) :: u32) = x"
  by (intro bit_word_eqI) (auto simp: bit_simps)

section \<open>Selectors in a register\<close>

lemma set_low_selector [simp]: "ucast (set_low w x) = x"
  unfolding set_low_def by (intro bit_word_eqI) (auto simp: bit_simps)

lemma set_low8_byte [simp]: "ucast (set_low8 w b) = b"
  unfolding set_low8_def by (intro bit_word_eqI) (auto simp: bit_simps)

section \<open>Entering and leaving the kernel\<close>

lemma entry_flags_not_nested: "\<not> bit (entry_flags g f) 14"
  by (simp add: entry_flags_def bit_simps)

text \<open>From an outer level, onto the stack of the TSS; from level 0, onto the stack in use.\<close>

lemma deliver_outer:
  assumes "kst c = set_view e m s" and "dom m = dom (view e s)"
    and "software_int (k_idt s) lvl n = Some (sel, off)" and "sel_rpl sel = 0" and "cpl c \<noteq> 0" and "length err \<le> 2"
    and "esp0 (current_tss s) = p + of_nat (4 * (5 + length err))" and "mapped m p (4 * (5 + length err))"
  shows "deliver e lvl n err c = ret (c\<lparr>sgr := (sgr c)(SS := ss0 (current_tss s), CS := sel),
    kst := set_view e (upd m p (words (rev err @ [cip c, ucast (sgr c CS), flg c, gpr c ESP, ucast (sgr c SS)]))) s,
    gpr := (gpr c)(ESP := p), flg := entry_flags (k_idt s ! n) (flg c), cip := off\<rparr>)"
proof -
  let ?t = "current_tss s"
  let ?c1 = "set_sgr SS (ss0 ?t) (set_gpr ESP (esp0 ?t) c)"
  let ?ws = "[ucast (sgr c SS), gpr c ESP, flg c, ucast (sgr c CS), cip c] @ err"
  have t: "current_tss (kst c) = ?t" using assms(1) by (simp add: current_tss_def tss_at_def split: option.split)
  have "pushes e ?ws ?c1 = ret (set_gpr ESP (gpr ?c1 ESP - of_nat (4 * length ?ws))
    (?c1\<lparr>kst := set_view e (upd m (gpr ?c1 ESP - of_nat (4 * length ?ws)) (words (rev ?ws))) s\<rparr>))"
    using assms by (intro pushes_on) (simp_all add: algebra_simps del: mapped_Suc)
  moreover have "gpr ?c1 ESP - of_nat (4 * length ?ws) = p"
    using assms(7) by (simp add: algebra_simps)
  ultimately have "pushes e ?ws ?c1 = ret (set_gpr ESP p (?c1\<lparr>kst := set_view e (upd m p (words (rev ?ws))) s\<rparr>))"
    by (simp only:)
  then show ?thesis
    using assms(1,3-5) t by (simp add: deliver_def Let_def set_gpr_def set_sgr_def)
qed

lemma deliver_inner:
  assumes "kst c = set_view e m s" and "dom m = dom (view e s)"
    and "software_int (k_idt s) lvl n = Some (sel, off)" and "cpl c = 0" and "length err \<le> 2"
    and "gpr c ESP = p + of_nat (4 * (3 + length err))" and "mapped m p (4 * (3 + length err))"
  shows "deliver e lvl n err c = ret (c\<lparr>sgr := (sgr c)(CS := sel),
    kst := set_view e (upd m p (words (rev err @ [cip c, ucast (sgr c CS), flg c]))) s,
    gpr := (gpr c)(ESP := p), flg := entry_flags (k_idt s ! n) (flg c), cip := off\<rparr>)"
proof -
  let ?ws = "[flg c, ucast (sgr c CS), cip c] @ err"
  have "pushes e ?ws c = ret (set_gpr ESP (gpr c ESP - of_nat (4 * length ?ws))
    (c\<lparr>kst := set_view e (upd m (gpr c ESP - of_nat (4 * length ?ws)) (words (rev ?ws))) s\<rparr>))"
    using assms by (intro pushes_on) (simp_all add: algebra_simps del: mapped_Suc)
  moreover have "gpr c ESP - of_nat (4 * length ?ws) = p"
    using assms(6) by (simp add: algebra_simps)
  ultimately have "pushes e ?ws c = ret (set_gpr ESP p (c\<lparr>kst := set_view e (upd m p (words (rev ?ws))) s\<rparr>))"
    by (simp only:)
  then show ?thesis
    using assms(1,3,4) by (simp add: deliver_def Let_def set_gpr_def set_sgr_def)
qed

lemma pop32_words: "block (view e (kst c)) (gpr c ESP) (words (w # ws)) \<Longrightarrow>
    pop32 e c = ret (w, set_gpr ESP (gpr c ESP + 4) c) \<and> block (view e (kst c)) (gpr c ESP + 4) (words ws)"
  by (simp add: block_append pop32_on)

lemma iret_outer:
  assumes "\<not> bit (flg c) 14" and "cpl c = 0" and "sel_rpl code \<noteq> 0"
    and "block (view e (kst c)) (gpr c ESP) (words [new_ip, ucast code, f, sp, ucast stack])"
  shows "iret e c = ret (Next (c\<lparr>cip := new_ip, flg := f, gpr := (gpr c)(ESP := sp),
    sgr := (sgr c)(CS := code, SS := stack)\<rparr>))"
proof -
  let ?p = "gpr c ESP"
  have b: "block (view e (kst c)) ?p (split32 new_ip)" "block (view e (kst c)) (?p + 4) (split32 (ucast code))"
    "block (view e (kst c)) (?p + 8) (split32 f)" "block (view e (kst c)) (?p + 12) (split32 sp)"
    "block (view e (kst c)) (?p + 16) (split32 (ucast stack))"
    using assms(4) by (simp_all add: block_append add.assoc)
  note l = b [THEN load32_split]
  show ?thesis
    using assms(1-3) l by (simp add: iret_def pop32_def Let_def cpl_def add.assoc word_unat_eq_iff set_gpr_def set_sgr_def)
qed

lemma iret_inner:
  assumes "\<not> bit (flg c) 14" and "cpl c = 0" and "sel_rpl code = 0"
    and "block (view e (kst c)) (gpr c ESP) (words [new_ip, ucast code, f])"
  shows "iret e c = ret (Next (c\<lparr>gpr := (gpr c)(ESP := gpr c ESP + 12), cip := new_ip, flg := f,
    sgr := (sgr c)(CS := code)\<rparr>))"
proof -
  let ?p = "gpr c ESP"
  have b: "block (view e (kst c)) ?p (split32 new_ip)" "block (view e (kst c)) (?p + 4) (split32 (ucast code))"
    "block (view e (kst c)) (?p + 8) (split32 f)"
    using assms(4) by (simp_all add: block_append add.assoc)
  note l = b [THEN load32_split]
  show ?thesis
    using assms(1-3) l by (simp add: iret_def pop32_def Let_def cpl_def add.assoc set_gpr_def set_sgr_def)
qed

section \<open>A small machine\<close>

text \<open>The machine of \<open>sample_env\<close> while its first task runs, with a kernel stack below \<open>0x9000\<close>.\<close>

definition running_task :: task where
  "running_task = zero_task\<lparr>in_use := True, t_id := 0, tss_selector := 48, virt_addr := TASK_VIRT_ADDR,
     t_tss := zero_tss\<lparr>cr3 := 0x210000, ss0 := GDT_KERNEL_DATA_SELECTOR, esp0 := 0x9000\<rparr>\<rparr>"

definition running_state :: kstate where
  "running_state = sample_state\<lparr>k_tasks := (replicate MAX_TASK_COUNT zero_task)[0 := running_task],
     k_gdt := gdt_static[6 := gdt_make_tss 0x211000 DPL_KERNEL], k_idt := idt_table (e_isr sample_env),
     task_id := 2, tr_reg := 48, cr3_reg := 0x210000\<rparr>"

text \<open>At level \<open>l\<close>, on the stack \<open>p\<close>, with the flags \<open>f\<close>.\<close>

definition sample_cpu :: "u16 \<Rightarrow> u32 \<Rightarrow> u32 \<Rightarrow> cpu" where
  "sample_cpu l p f = \<lparr>gpr = (\<lambda>r. 7)(ESP := p), sgr = (\<lambda>_. 0x20 OR l)(CS := 0x18 OR l), flg = f, cip = 4096,
     kst = running_state\<rparr>"

lemma running_tss: "current_tss running_state = t_tss running_task" "get_task_by_selector (tr_reg running_state) = Some 0"
proof -
  have "unat (gdt_entry_to_selector (gdt_first_task_entry + 0)) = 48"
    using task_selector_nat [of 0] by (simp add: MAX_TASK_COUNT_def)
  then show g: "get_task_by_selector (tr_reg running_state) = Some 0"
    by (simp add: get_task_by_selector_iff MAX_TASK_COUNT_def running_state_def word_unat_eq_iff)
  then show "current_tss running_state = t_tss running_task"
    by (simp add: current_tss_def tss_at_def) (simp add: running_state_def MAX_TASK_COUNT_def)
qed

lemma running_ok: "tasks_ok sample_env running_state" "used_slots running_state = {0}"
  "tr_reg running_state = tss_selector (k_tasks running_state ! 0)"
proof -
  have t: "k_tasks running_state ! i = (if i = 0 then running_task else zero_task)" if "i < MAX_TASK_COUNT" for i
    using that by (simp add: running_state_def nth_list_update)
  then show "tr_reg running_state = tss_selector (k_tasks running_state ! 0)"
    by (simp add: MAX_TASK_COUNT_def) (simp add: running_state_def running_task_def)
  show u: "used_slots running_state = {0}"
    by (auto simp: used_slots_iff t running_task_def zero_task_def MAX_TASK_COUNT_def split: if_splits)
  have "slot_ok sample_env running_state i" if "i < MAX_TASK_COUNT" for i
    using that t [OF that]
    by (simp add: slot_ok_def zero_task_def running_task_def)
       (simp add: running_state_def gdt_static_def gdt_len_def gdt_slots gdt_entry_to_selector_def
         tss_addr_def pagedir_addr_def task_addr_def sample_env_def offsetof_tss_def)
  then show "tasks_ok sample_env running_state"
    by (simp add: tasks_ok_def u) (simp add: running_state_def gdt_static_def sample_state_def)
qed

lemma running_view [simp]: "view sample_env running_state = sample_mem"
  by (simp add: view_def running_state_def sample_state_def split: option.split)

lemma sample_mapped: "unat p + n \<le> 0x80000 \<Longrightarrow> mapped sample_mem p n"
  by (auto simp: mapped_def sample_dom addrs_range word_less_nat_alt word_le_nat_alt)

lemma sample_cpu_simps [simp]: "kst (sample_cpu l p f) = running_state" "flg (sample_cpu l p f) = f"
  "cip (sample_cpu l p f) = 4096" "gpr (sample_cpu l p f) ESP = p" "cpl (sample_cpu 3 p f) = 3" "cpl (sample_cpu 0 p f) = 0"
  by (simp_all add: sample_cpu_def cpl_def sel_rpl_def)

definition sample_platform :: platform where
  "sample_platform = \<lparr>pl_int = \<lambda>n c. ret (Next c), pl_switch = \<lambda>sel. ret, pl_clobber = \<lambda>s. (1, 2, 3),
     pl_inb = \<lambda>log port. 0, pl_inw = \<lambda>log port. 0, pl_cr0 = \<lambda>log. 0\<rparr>"

lemma sample_zero_words:
  assumes "unat p + 24 \<le> 0x80000" and "0x1001 \<le> unat p"
  shows "block sample_mem p (words [0, 0, 0, 0, 0, 0])"
proof -
  have "sample_mem a = Some 0" if "a \<in> addrs p 24" for a
    using that assms by (auto simp: addrs_range sample_mem_def chars_def split32_def word_less_nat_alt simp del: addrs_Suc)
  moreover have "words [0, 0, 0, 0, 0, 0] = replicate 24 0" by (simp add: words_def split32_def numeral_eq_Suc)
  ultimately show ?thesis by (auto simp: block_nth addrs_def simp del: addrs_Suc)
qed

end
