(* ===== verification/SyscallAsm.thy ===== *)
theory SyscallAsm
  imports Cpu Syscall
begin

text \<open>
  The system call in assembly: \<^verbatim>\<open>user/syscall_asm.s\<close>, which moves the arguments of an
  application's call to registers, and \<^verbatim>\<open>kernel/syscall/syscall_asm.s\<close>, which moves them on
  to the kernel's stack for \<open>syscall_handler\<close>. The memory of both stacks is written out.
\<close>

section \<open>The system call\<close>

definition user_syscall :: "instr list" where
  "user_syscall =
    [PushR EBP, MovR EBP ESP,
     PushR EBX, PushR ECX, PushR EDX, PushR ESI, PushR EDI,
     LoadR EAX EBP 8, LoadR EBX EBP 12, LoadR ECX EBP 16, LoadR EDX EBP 20, LoadR ESI EBP 24,
     IntI 48,
     PopR EDI, PopR ESI, PopR EDX, PopR ECX, PopR EBX,
     MovR ESP EBP, PopR EBP, RetI]"

text \<open>\<open>int syscall_handler(int nb, uint32_t arg1, ..., uint32_t arg4)\<close>\<close>

definition c_syscall_handler :: "task_switcher \<Rightarrow> env \<Rightarrow> cfun" where
  "c_syscall_handler sw e p s =
     (let m = view e s in
      rbind (load32 m p) (\<lambda>nb. rbind (load32 m (p + 4)) (\<lambda>arg1. rbind (load32 m (p + 8)) (\<lambda>arg2.
      rbind (load32 m (p + 12)) (\<lambda>arg3. rbind (load32 m (p + 16)) (\<lambda>arg4.
      rbind (syscall_handler sw e nb arg1 arg2 arg3 arg4 s) (\<lambda>(r, s). ret (Returns (Some r) s))))))))"

definition syscall_stub :: "task_switcher \<Rightarrow> env \<Rightarrow> instr list" where
  "syscall_stub sw e =
    [PushS DS, PushS ES, PushS FS, PushS GS,
     PushR EAX, MovI16 EAX GDT_KERNEL_DATA_SELECTOR,
     MovS DS EAX, MovS ES EAX, MovS FS EAX, MovS GS EAX, PopR EAX,
     PushR ESI, PushR EDX, PushR ECX, PushR EBX, PushR EAX,
     CallC (c_syscall_handler sw e),
     PopR EBX, PopR EBX, PopR EBX, PopR EBX, PopR EBX,
     PopS GS, PopS FS, PopS ES, PopS DS,
     IretI]"

text \<open>The words of the stub's frame, from the last pushed to the first.\<close>

definition syscall_frame :: "cpu \<Rightarrow> u32 list" where
  "syscall_frame c = [gpr c EAX, gpr c EBX, gpr c ECX, gpr c EDX, gpr c ESI,
     ucast (sgr c GS), ucast (sgr c FS), ucast (sgr c ES), ucast (sgr c DS)]"

lemma length_syscall_frame [simp]: "length (syscall_frame c) = 9"
  by (simp add: syscall_frame_def)

lemma c_syscall_handler_frame:
  assumes "block (view e s) p (words (nb # a1 # a2 # a3 # a4 # ws))"
  shows "c_syscall_handler sw e p s = rbind (syscall_handler sw e nb a1 a2 a3 a4 s) (\<lambda>(r, s). ret (Returns (Some r) s))"
proof -
  note l = load32_words [OF assms]
  show ?thesis
    using l [of 0] l [of 1] l [of 2] l [of 3] l [of 4] by (simp add: c_syscall_handler_def)
qed

definition load_kernel_segs :: "instr list" where
  "load_kernel_segs = [MovI16 EAX GDT_KERNEL_DATA_SELECTOR,
     MovS DS EAX, MovS ES EAX, MovS FS EAX, MovS GS EAX]"

definition kernel_segs :: "(segreg \<Rightarrow> u16) \<Rightarrow> segreg \<Rightarrow> u16" where
  "kernel_segs g = g(DS := GDT_KERNEL_DATA_SELECTOR, ES := GDT_KERNEL_DATA_SELECTOR,
     FS := GDT_KERNEL_DATA_SELECTOR, GS := GDT_KERNEL_DATA_SELECTOR)"

lemma exec_load_kernel_segs: "exec pl e (load_kernel_segs @ js) c
    = exec pl e js (c\<lparr>gpr := (gpr c)(EAX := set_low (gpr c EAX) GDT_KERNEL_DATA_SELECTOR), sgr := kernel_segs (sgr c)\<rparr>)"
  by (simp add: load_kernel_segs_def exec.simps(2) kernel_segs_def set_gpr_def set_sgr_def)

text \<open>What comes before the call and what comes after it.\<close>

definition syscall_save :: "instr list" where
  "syscall_save = [PushS DS, PushS ES, PushS FS, PushS GS] @ [PushR EAX] @ load_kernel_segs @ [PopR EAX] @
     [PushR ESI, PushR EDX, PushR ECX, PushR EBX, PushR EAX]"

definition syscall_restore :: "instr list" where
  "syscall_restore = [PopR EBX, PopR EBX, PopR EBX, PopR EBX, PopR EBX, PopS GS, PopS FS, PopS ES, PopS DS]"

lemma syscall_stub_parts: "syscall_stub sw e =
    syscall_save @ [CallC (c_syscall_handler sw e)] @ syscall_restore @ [IretI]"
  by (simp add: syscall_stub_def syscall_save_def syscall_restore_def load_kernel_segs_def)

lemma syscall_save_runs:
  assumes "kst c = set_view e m s" and "dom m = dom (view e s)" and "gpr c ESP = p + 36" and map: "mapped m p 36"
  shows "exec pl e (syscall_save @ js) c = exec pl e js
    (c\<lparr>sgr := kernel_segs (sgr c), kst := set_view e (upd m p (words (syscall_frame c))) s, gpr := (gpr c)(ESP := p)\<rparr>)"
proof -
  let ?sel = "[ucast (sgr c GS), ucast (sgr c FS), ucast (sgr c ES), ucast (sgr c DS)] :: u32 list"
  define m1 where "m1 = upd m (p + 20) (words ?sel)"
  define m2 where "m2 = upd m1 (p + 16) (words [gpr c EAX])"
  have sub: "mapped m (p + 20) 16" "mapped m (p + 16) 4" "mapped m p 20"
    using mapped_sub [OF map, of 20 16] mapped_sub [OF map, of 16 4] mapped_sub [OF map, of 0 20]
    by (simp_all del: mapped_Suc)
  have d: "dom m1 = dom (view e s)" "dom m2 = dom (view e s)"
    using sub assms(2) unfolding m1_def m2_def by (auto simp: dom_upd mapped_def simp del: addrs_Suc)
  have sub': "mapped m1 (p + 16) 4" "mapped m2 p 20"
    using sub unfolding m1_def m2_def by (simp_all add: mapped_upd del: mapped_Suc)
  define c1 where "c1 = set_gpr ESP (p + 20) (c\<lparr>kst := set_view e m1 s\<rparr>)"
  define c2 where "c2 = set_gpr ESP (p + 16) (c\<lparr>kst := set_view e m2 s\<rparr>)"
  define c3 where "c3 = set_gpr ESP (p + 20) (c\<lparr>kst := set_view e m2 s, sgr := kernel_segs (sgr c)\<rparr>)"
  have 1: "exec pl e ([PushS DS, PushS ES, PushS FS, PushS GS] @ js) c = exec pl e js c1" for js
    unfolding c1_def m1_def using assms(1,2,3) sub(1)
    by (subst exec_pushes_on [where ws = "rev ?sel" and p = "p + 20"]) (simp_all add: add.assoc del: mapped_Suc)
  have 2: "exec pl e ([PushR EAX] @ js) c1 = exec pl e js c2" for js
    using d(1) sub'(1) 
    by (subst exec_pushes_on [where ws = "[gpr c EAX]" and p = "p + 16" and m = m1 and s = s])
       (simp_all add: c1_def c2_def m2_def set_gpr_def add.assoc del: mapped_Suc)
  have "view e (set_view e m2 s) = m2" using d(2) by (rule view_set_view)
  moreover have "block m2 (p + 16) (split32 (gpr c EAX))" unfolding m2_def by (simp add: upd_block)
  ultimately have 3: "exec pl e (load_kernel_segs @ [PopR EAX] @ js) c2 = exec pl e js c3" for js
    unfolding exec_load_kernel_segs
    by (subst exec_pops [where ws = "[gpr c EAX]"])
       (simp_all add: c2_def c3_def set_gpr_def fun_upd_twist add.assoc)
  have cover: "upd m2 p (words (take 5 (syscall_frame c))) = upd m p (words (syscall_frame c))"
  proof -
    have "upd m2 p (words (take 5 (syscall_frame c))) = upd m1 p (words (take 5 (syscall_frame c)))"
      unfolding m2_def using addrs_split [of p 16 4] by (intro upd_absorb) (simp add: syscall_frame_def del: addrs_Suc)
    also have "\<dots> = upd m p (words (take 5 (syscall_frame c)) @ words ?sel)"
      unfolding m1_def using upd_prepend [of "words (take 5 (syscall_frame c))" "words ?sel" m p]
      by (simp add: syscall_frame_def del: words_simps(2))
    finally show ?thesis by (simp add: syscall_frame_def)
  qed
  have 4: "exec pl e ([PushR ESI, PushR EDX, PushR ECX, PushR EBX, PushR EAX] @ js) c3 = exec pl e js
     (c\<lparr>sgr := kernel_segs (sgr c), kst := set_view e (upd m p (words (syscall_frame c))) s, gpr := (gpr c)(ESP := p)\<rparr>)" for js
    using d(2) sub'(2) unfolding cover [symmetric]
    by (subst exec_pushes_on [where ws = "rev (take 5 (syscall_frame c))" and p = p and m = m2 and s = s])
       (simp_all add: c3_def set_gpr_def syscall_frame_def add.assoc del: mapped_Suc words_simps(2))
  show ?thesis unfolding syscall_save_def append_assoc by (simp only: 1 2 3 4)
qed

text \<open>
  The stub as a whole: the handler gets the registers in the order of its parameters, and if it
  leaves the frame alone the stub is at its \<open>iret\<close> with the stack and the selectors as they came.
\<close>

lemma syscall_stub_correct:
  assumes st: "kst c = set_view e m s" "dom m = dom (view e s)" "gpr c ESP = p + 36" "mapped m p 36"
    and h: "syscall_handler sw e (gpr c EAX) (gpr c EBX) (gpr c ECX) (gpr c EDX) (gpr c ESI)
      (set_view e (upd m p (words (syscall_frame c))) s) = ret (r, s2)"
    and keep: "\<forall>a \<in> addrs p 36. view e s2 a = upd m p (words (syscall_frame c)) a"
    and clob: "pl_clobber pl s2 = (a, x, d)"
  shows "exec pl e (syscall_stub sw e) c =
    iret e (c\<lparr>kst := s2, gpr := (gpr c)(EAX := r, EBX := gpr c ESI, ECX := x, EDX := d)\<rparr>)"
proof -
  let ?m = "upd m p (words (syscall_frame c))"
  let ?c1 = "c\<lparr>sgr := kernel_segs (sgr c), kst := set_view e ?m s, gpr := (gpr c)(ESP := p)\<rparr>"
  let ?pops = syscall_restore
  have len: "length (words (syscall_frame c)) = 36" by (simp add: syscall_frame_def)
  have "dom ?m = dom (view e s)" using st(2,4) len by (auto simp: dom_upd mapped_def simp del: addrs_Suc)
  then have v: "view e (kst ?c1) = ?m" by (simp add: view_set_view)
  have b: "block ?m p (words (syscall_frame c))" by (rule upd_block, subst len) simp
  then have b2: "block (view e s2) p (words (syscall_frame c))"
    using keep by (subst block_agree [where m = ?m]) (simp_all only: len)
  define c2 where "c2 = ?c1\<lparr>kst := s2, gpr := (gpr ?c1)(EAX := r, ECX := x, EDX := d)\<rparr>"
  have "block (view e (kst ?c1)) p (words [gpr c EAX, gpr c EBX, gpr c ECX, gpr c EDX, gpr c ESI,
      ucast (sgr c GS), ucast (sgr c FS), ucast (sgr c ES), ucast (sgr c DS)])"
    unfolding v by (fold syscall_frame_def) (rule b)
  from c_syscall_handler_frame [OF this, of sw] h have "c_syscall_handler sw e p (kst ?c1) = ret (Returns (Some r) s2)"
    by simp
  then have "step pl e (CallC (c_syscall_handler sw e)) ?c1 = ret (Next c2)"
    by (simp add: call_c_def clob c2_def)
  then have "exec pl e (syscall_stub sw e) c = exec pl e (?pops @ [IretI]) c2"
    unfolding syscall_stub_parts syscall_save_runs [OF st] by (subst append_Cons) (simp only: exec_step append_Nil)
  also have "\<dots> = exec pl e [IretI] (set_gpr ESP (gpr c2 ESP + of_nat (4 * length ?pops))
      (fold (\<lambda>(i, w). popped i w) (zip ?pops (syscall_frame c)) c2))"
    using b2 by (intro exec_pops) (simp_all add: c2_def syscall_frame_def syscall_restore_def)
  also have "set_gpr ESP (gpr c2 ESP + of_nat (4 * length ?pops))
      (fold (\<lambda>(i, w). popped i w) (zip ?pops (syscall_frame c)) c2)
    = c\<lparr>kst := s2, gpr := (gpr c)(EAX := r, EBX := gpr c ESI, ECX := x, EDX := d)\<rparr>"
    using st(3) by (intro cpu_eq) (simp_all add: c2_def syscall_frame_def syscall_restore_def kernel_segs_def by_register)
  finally show ?thesis by (simp only: exec_iret)
qed

subsection \<open>From the application's call to its return\<close>

definition user_frame :: "cpu \<Rightarrow> u32 list" where
  "user_frame c = [gpr c EDI, gpr c ESI, gpr c EDX, gpr c ECX, gpr c EBX, gpr c EBP]"

lemma user_syscall_parts: "user_syscall =
    [PushR EBP] @ [MovR EBP ESP] @ [PushR EBX, PushR ECX, PushR EDX, PushR ESI, PushR EDI] @
    [LoadR EAX EBP 8, LoadR EBX EBP 12, LoadR ECX EBP 16, LoadR EDX EBP 20, LoadR ESI EBP 24] @ [IntI 48] @
    [PopR EDI, PopR ESI, PopR EDX, PopR ECX, PopR EBX] @ [MovR ESP EBP, PopR EBP, RetI]"
  by (simp add: user_syscall_def)

text \<open>The saved registers, and the arguments in the registers they travel in.\<close>

lemma user_syscall_enter:
  assumes "kst c = set_view e m s" and "dom m = dom (view e s)" and "gpr c ESP = q + 24" and map: "mapped m q 24"
    and args: "block m (q + 24) (words [ra, nb, a1, a2, a3, a4])"
  shows "exec pl e user_syscall c = exec pl e
     ([IntI 48] @ [PopR EDI, PopR ESI, PopR EDX, PopR ECX, PopR EBX] @ [MovR ESP EBP, PopR EBP, RetI])
    (c\<lparr>kst := set_view e (upd m q (words (user_frame c))) s,
       gpr := (gpr c)(ESP := q, EBP := q + 20, EAX := nb, EBX := a1, ECX := a2, EDX := a3, ESI := a4)\<rparr>)"
proof -
  define m1 where "m1 = upd m (q + 20) (words [gpr c EBP])"
  define m2 where "m2 = upd m q (words (user_frame c))"
  have sub: "mapped m (q + 20) 4" "mapped m q 20"
    using mapped_sub [OF map, of 20 4] mapped_sub [OF map, of 0 20] by (simp_all del: mapped_Suc)
  have d: "dom m1 = dom (view e s)" "dom m2 = dom (view e s)"
    using sub(1) map assms(2) unfolding m1_def m2_def user_frame_def
    by (auto simp: dom_upd mapped_def simp del: addrs_Suc)
  have sub': "mapped m1 q 20" using sub unfolding m1_def by (simp add: mapped_upd del: mapped_Suc)
  define c1 where "c1 = set_gpr ESP (q + 20) (c\<lparr>kst := set_view e m1 s\<rparr>)"
  define c2 where "c2 = set_gpr EBP (q + 20) c1"
  define c3 where "c3 = c\<lparr>kst := set_view e m2 s, gpr := (gpr c)(ESP := q, EBP := q + 20)\<rparr>"
  have 1: "exec pl e ([PushR EBP] @ js) c = exec pl e js c1" for js
    unfolding c1_def m1_def using assms(1,2,3) sub(1)
    by (subst exec_pushes_on [where ws = "[gpr c EBP]" and p = "q + 20"]) (simp_all add: add.assoc del: mapped_Suc)
  have 2: "exec pl e ([MovR EBP ESP] @ js) c1 = exec pl e js c2" for js
    by (simp add: exec.simps(2) c2_def c1_def)
  have "upd m1 q (words (take 5 (user_frame c))) = m2"
    unfolding m1_def m2_def using upd_prepend [of "words (take 5 (user_frame c))" "words [gpr c EBP]" m q]
    by (simp add: user_frame_def)
  then have 3: "exec pl e ([PushR EBX, PushR ECX, PushR EDX, PushR ESI, PushR EDI] @ js) c2 = exec pl e js c3" for js
    using d(1) sub'
    by (subst exec_pushes_on [where ws = "rev (take 5 (user_frame c))" and p = q and m = m1 and s = s])
       (simp_all add: c2_def c1_def c3_def set_gpr_def user_frame_def fun_upd_twist del: mapped_Suc words_simps(2))
  have "addrs q 24 \<inter> addrs (q + 24) 24 = {}" using addrs_adjacent [of 24 24 q] by simp
  then have "block m2 (q + 24) (words [ra, nb, a1, a2, a3, a4]) = block m (q + 24) (words [ra, nb, a1, a2, a3, a4])"
    unfolding m2_def by (intro block_agree ballI upd_outside) (auto simp: user_frame_def simp del: addrs_Suc)
  with args have "block m2 (q + 24) (words [ra, nb, a1, a2, a3, a4])" by simp
  note l = load32_words [OF this]
  have v: "view e (set_view e m2 s) = m2" using d(2) by (rule view_set_view)
  have 4: "exec pl e ([LoadR EAX EBP 8, LoadR EBX EBP 12, LoadR ECX EBP 16, LoadR EDX EBP 20, LoadR ESI EBP 24] @ js) c3
     = exec pl e js (c\<lparr>kst := set_view e m2 s,
         gpr := (gpr c)(ESP := q, EBP := q + 20, EAX := nb, EBX := a1, ECX := a2, EDX := a3, ESI := a4)\<rparr>)" for js
    using l [of 1] l [of 2] l [of 3] l [of 4] l [of 5] by (simp add: exec.simps(2) c3_def v add.assoc set_gpr_def)
  show ?thesis unfolding user_syscall_parts by (simp only: 1 2 3 4) (simp only: m2_def)
qed

lemma user_syscall_leave:
  assumes "block (view e (kst c)) (gpr c ESP) (words [di, si, d, x, b, bp, ra])"
    and "gpr c EBP = gpr c ESP + 20"
  shows "exec pl e ([PopR EDI, PopR ESI, PopR EDX, PopR ECX, PopR EBX] @ [MovR ESP EBP, PopR EBP, RetI]) c
    = ret (Next (c\<lparr>cip := ra, gpr := (gpr c)(EDI := di, ESI := si, EDX := d, ECX := x, EBX := b, EBP := bp,
        ESP := gpr c ESP + 28)\<rparr>))"
proof -
  let ?pops = "[PopR EDI, PopR ESI, PopR EDX, PopR ECX, PopR EBX]" and ?ws = "[di, si, d, x, b]"
  define c1 where "c1 = c\<lparr>gpr := (gpr c)(EDI := di, ESI := si, EDX := d, ECX := x, EBX := b, ESP := gpr c ESP + 20)\<rparr>"
  note l = load32_words [OF assms(1)]
  have "exec pl e (?pops @ [MovR ESP EBP, PopR EBP, RetI]) c = exec pl e [MovR ESP EBP, PopR EBP, RetI]
      (set_gpr ESP (gpr c ESP + of_nat (4 * length ?pops)) (fold (\<lambda>(i, w). popped i w) (zip ?pops ?ws) c))"
    using assms(1) by (intro exec_pops) (simp_all add: block_append)
  also have "set_gpr ESP (gpr c ESP + of_nat (4 * length ?pops)) (fold (\<lambda>(i, w). popped i w) (zip ?pops ?ws) c) = c1"
    by (intro cpu_eq) (simp_all add: c1_def by_register)
  also have "exec pl e [MovR ESP EBP, PopR EBP, RetI] c1 = ret (Next (c\<lparr>cip := ra, gpr := (gpr c)(EDI := di, ESI := si,
      EDX := d, ECX := x, EBX := b, EBP := bp, ESP := gpr c ESP + 28)\<rparr>))"
  proof -
    have "pop32 e (set_gpr ESP (gpr c ESP + 20) c1) = ret (bp, set_gpr ESP (gpr c ESP + 24) c1)"
      using l [of 5] by (simp add: pop32_def c1_def Let_def set_gpr_def add.assoc)
    moreover have "pop32 e (set_gpr EBP bp (set_gpr ESP (gpr c ESP + 24) c1))
        = ret (ra, set_gpr ESP (gpr c ESP + 28) (set_gpr EBP bp c1))"
      using l [of 6] by (simp add: pop32_def c1_def Let_def set_gpr_def add.assoc fun_upd_twist)
    moreover have "gpr c1 EBP = gpr c ESP + 20" using assms(2) by (simp add: c1_def)
    moreover have "(set_gpr ESP (gpr c ESP + 28) (set_gpr EBP bp c1))\<lparr>cip := ra\<rparr> = c\<lparr>cip := ra, gpr := (gpr c)(EDI := di, ESI := si,
      EDX := d, ECX := x, EBX := b, EBP := bp, ESP := gpr c ESP + 28)\<rparr>"
      by (intro cpu_eq) (simp_all add: c1_def by_register)
    ultimately show ?thesis by (simp add: exec.simps(2))
  qed
  finally show ?thesis .
qed

text \<open>The words on the kernel's stack when \<open>syscall_handler\<close> is called.\<close>

definition kernel_frame :: "cpu \<Rightarrow> u32 list \<Rightarrow> u32 \<Rightarrow> u32 list" where
  "kernel_frame c args q = args @ [ucast (sgr c GS), ucast (sgr c FS), ucast (sgr c ES), ucast (sgr c DS),
     cip c, ucast (sgr c CS), flg c, q, ucast (sgr c SS)]"

lemma length_frames [simp]: "length (kernel_frame c [nb, a1, a2, a3, a4] q) = 14" "length (user_frame c) = 6"
  by (simp_all add: kernel_frame_def user_frame_def)

text \<open>The words the processor saves, and the processor at the first instruction of the stub.\<close>

definition user_tail :: "cpu \<Rightarrow> u32 list" where
  "user_tail c = [cip c, ucast (sgr c CS), flg c, gpr c ESP, ucast (sgr c SS)]"

definition stub_entry :: "env \<Rightarrow> mem \<Rightarrow> kstate \<Rightarrow> u32 \<Rightarrow> cpu \<Rightarrow> cpu" where
  "stub_entry e m s p c = c\<lparr>sgr := (sgr c)(SS := ss0 (current_tss s), CS := GDT_KERNEL_CODE_SELECTOR),
     kst := set_view e (upd m (p + 36) (words (user_tail c))) s, gpr := (gpr c)(ESP := p + 36),
     flg := entry_flags (k_idt s ! 48) (flg c), cip := syscall_isr (e_isr e)\<rparr>"

lemma length_user_tail [simp]: "length (user_tail c) = 5"
  by (simp add: user_tail_def)

lemma stub_entry_simps [simp]:
  "kst (stub_entry e m s p c) = set_view e (upd m (p + 36) (words (user_tail c))) s"
  "cip (stub_entry e m s p c) = syscall_isr (e_isr e)" "cpl (stub_entry e m s p c) = 0"
  "gpr (stub_entry e m s p c) = (gpr c)(ESP := p + 36)"
  by (simp_all add: stub_entry_def cpl_def sel_rpl_def descriptor_consts)

lemma int48_delivered:
  assumes "kst c = set_view e m s" and "dom m = dom (view e s)" and "mapped m (p + 36) 20"
    and "k_idt s = idt_table (e_isr e)" and "cpl c = 3" and "esp0 (current_tss s) = p + 56"
  shows "deliver e (cpl c) 48 [] c = ret (stub_entry e m s p c)"
proof -
  have "software_int (k_idt s) (cpl c) 48 = Some (GDT_KERNEL_CODE_SELECTOR, syscall_isr (e_isr e))"
    using assms by (simp add: software_int_idt)
  moreover have "sel_rpl GDT_KERNEL_CODE_SELECTOR = 0" by (simp add: sel_rpl_def descriptor_consts)
  ultimately show ?thesis
    using assms deliver_outer [of c e m s "cpl c" 48 GDT_KERNEL_CODE_SELECTOR "syscall_isr (e_isr e)" "[]" "p + 36"]
    by (simp add: stub_entry_def user_tail_def add.assoc del: mapped_Suc)
qed

lemma kernel_frame_tail: "kernel_frame c [gpr c EAX, gpr c EBX, gpr c ECX, gpr c EDX, gpr c ESI] (gpr c ESP)
    = syscall_frame (stub_entry e m s p c) @ user_tail c"
  by (simp add: syscall_frame_def kernel_frame_def stub_entry_def user_tail_def)

lemma stub_entry_frame: "upd (upd m (p + 36) (words (user_tail c))) p (words (syscall_frame (stub_entry e m s p c)))
    = upd m p (words (kernel_frame c [gpr c EAX, gpr c EBX, gpr c ECX, gpr c EDX, gpr c ESI] (gpr c ESP)))"
  unfolding kernel_frame_tail [where e = e and m = m and s = s and p = p] words_simps(3)
  using upd_prepend [of "words (syscall_frame (stub_entry e m s p c))" "words (user_tail c)" m p] by simp

lemma int48_leaves:
  assumes lvl: "cpl c = 3" and tail: "block (view e s2) (p + 36) (words (user_tail c))"
  shows "iret e ((stub_entry e m s p c)\<lparr>kst := s2,
      gpr := (gpr (stub_entry e m s p c))(EAX := r, EBX := gpr c ESI, ECX := x, EDX := d)\<rparr>)
    = ret (Next (c\<lparr>kst := s2, gpr := (gpr c)(EAX := r, EBX := gpr c ESI, ECX := x, EDX := d)\<rparr>))"
proof -
  let ?c3 = "(stub_entry e m s p c)\<lparr>kst := s2, gpr := (gpr (stub_entry e m s p c))(EAX := r, EBX := gpr c ESI, ECX := x, EDX := d)\<rparr>"
  have "sel_rpl (sgr c CS) \<noteq> 0" using lvl by (auto simp: cpl_def)
  then have "iret e ?c3 = ret (Next (?c3\<lparr>cip := cip c, flg := flg c, gpr := (gpr ?c3)(ESP := gpr c ESP),
      sgr := (sgr ?c3)(CS := sgr c CS, SS := sgr c SS)\<rparr>))"
    using tail by (intro iret_outer)
      (simp_all add: stub_entry_def user_tail_def entry_flags_not_nested cpl_def sel_rpl_def descriptor_consts)
  moreover have "?c3\<lparr>cip := cip c, flg := flg c, gpr := (gpr ?c3)(ESP := gpr c ESP), sgr := (sgr ?c3)(CS := sgr c CS, SS := sgr c SS)\<rparr>
      = c\<lparr>kst := s2, gpr := (gpr c)(EAX := r, EBX := gpr c ESI, ECX := x, EDX := d)\<rparr>"
    by (intro cpu_eq) (simp_all add: stub_entry_def by_register)
  ultimately show ?thesis by (simp only:)
qed

text \<open>\<open>int 48\<close> of an application, from its delivery to the instruction behind it.\<close>

lemma int48_returns:
  assumes st: "kst c = set_view e m s" "dom m = dom (view e s)" "mapped m p 56"
    and idt: "k_idt s = idt_table (e_isr e)" and code: "code (syscall_isr (e_isr e)) = syscall_stub sw e"
    and lvl: "cpl c = 3" and kstack: "esp0 (current_tss s) = p + 56"
  defines "F \<equiv> kernel_frame c [gpr c EAX, gpr c EBX, gpr c ECX, gpr c EDX, gpr c ESI] (gpr c ESP)"
  assumes h: "syscall_handler sw e (gpr c EAX) (gpr c EBX) (gpr c ECX) (gpr c EDX) (gpr c ESI)
      (set_view e (upd m p (words F)) s) = ret (r, s')"
    and keep: "\<forall>a \<in> addrs p 56. view e s' a = upd m p (words F) a"
    and clob: "pl_clobber pl s' = (a, x, d)"
  shows "step (user_platform code pl e) e (IntI 48) c
    = ret (Next (c\<lparr>kst := s', gpr := (gpr c)(EAX := r, EBX := gpr c ESI, ECX := x, EDX := d)\<rparr>))"
proof -
  let ?c2 = "stub_entry e m s p c" and ?m2 = "upd m (p + 36) (words (user_tail c))"
  have len: "length (words F) = 56" by (simp add: F_def)
  have map2: "mapped m (p + 36) 20" "mapped m p 36"
    using mapped_sub [OF st(3), of 36 20] mapped_sub [OF st(3), of 0 36] by (simp_all del: mapped_Suc)
  have stacks: "upd ?m2 p (words (syscall_frame ?c2)) = upd m p (words F)"
    unfolding F_def by (rule stub_entry_frame)
  have "dom ?m2 = dom (view e s)" "mapped ?m2 p 36"
    using st(2) map2 by (auto simp: dom_upd mapped_upd mapped_def simp del: addrs_Suc)
  moreover have "\<forall>a \<in> addrs p 36. view e s' a = upd ?m2 p (words (syscall_frame ?c2)) a"
    unfolding stacks using keep addrs_mono [of 36 56 p] by auto
  ultimately have 3: "exec pl e (syscall_stub sw e) ?c2
      = iret e (?c2\<lparr>kst := s', gpr := (gpr ?c2)(EAX := r, EBX := gpr ?c2 ESI, ECX := x, EDX := d)\<rparr>)"
    using h clob by (intro syscall_stub_correct [where s = s and m = ?m2 and p = p]) (simp_all add: stacks)
  have "block (upd m p (words F)) p (words F)" by (intro upd_block) (simp only: len, simp)
  then have "block (view e s') p (words F)" using keep len by (subst block_agree [where m = "upd m p (words F)"]) simp_all
  then have "block (view e s') (p + 36) (words (user_tail c))"
    unfolding F_def kernel_frame_tail [where e = e and m = m and s = s and p = p]
    by (simp add: block_append)
  from int48_leaves [OF lvl this] 3 show ?thesis
    using int48_delivered [OF st(1,2) map2(1) idt lvl kstack] code by (simp add: user_platform_def interrupt_def)
qed

text \<open>The memory at that time, and what a handler that leaves the frames alone keeps of it.\<close>

definition syscall_stacks :: "env \<Rightarrow> cpu \<Rightarrow> u32 \<Rightarrow> u32 list \<Rightarrow> u32 \<Rightarrow> mem" where
  "syscall_stacks e c q args p = upd (upd (view e (kst c)) q (words (user_frame c))) p (words (kernel_frame c args q))"

lemma user_part_of_stacks:
  assumes "addrs p 56 \<inter> addrs q 28 = {}" and "block (view e (kst c)) (q + 24) (words [ra])"
  shows "block (syscall_stacks e c q [nb, a1, a2, a3, a4] p) q (words (user_frame c @ [ra]))"
proof -
  let ?m = "upd (view e (kst c)) q (words (user_frame c))"
  have "block ?m q (words (user_frame c))" by (intro upd_block) simp
  moreover have "block ?m (q + 24) (words [ra]) = block (view e (kst c)) (q + 24) (words [ra])"
    using addrs_adjacent [of 24 4 q] by (intro block_agree ballI upd_outside) (auto simp: length_frames simp del: addrs_Suc)
  ultimately have "block ?m q (words (user_frame c @ [ra]))"
    using assms(2) by (simp add: block_append length_frames del: words_simps(2))
  moreover have "length (words (user_frame c @ [ra])) = 28" by (simp add: user_frame_def)
  moreover have "\<forall>a \<in> addrs q 28. syscall_stacks e c q [nb, a1, a2, a3, a4] p a = ?m a"
    unfolding syscall_stacks_def using assms(1) by (intro ballI upd_outside) auto
  ultimately show ?thesis by (subst block_agree [where m = ?m]) (simp_all only:)
qed

section \<open>Properties\<close>

text \<open>C5: A system call of an application, from \<open>syscall\<close> in the C library through \<open>int 48\<close> and the
  kernel's stub and back: \<open>syscall_handler\<close> gets exactly the five arguments of the call, and if it
  leaves the words saved on the two stacks alone, the application goes on behind its call with the
  result in \<open>eax\<close> and every other register, selector and flag as before.\<close>

theorem syscall_path:
  assumes idt: "k_idt (kst c) = idt_table (e_isr e)" and code: "code (syscall_isr (e_isr e)) = syscall_stub sw e"
    and lvl: "cpl c = 3" and kstack: "esp0 (current_tss (kst c)) = p + 56" and ustack: "gpr c ESP = q + 24"
    and map: "mapped (view e (kst c)) p 56" "mapped (view e (kst c)) q 24" and dis: "addrs p 56 \<inter> addrs q 28 = {}"
    and args: "block (view e (kst c)) (q + 24) (words [ra, nb, a1, a2, a3, a4])"
    and h: "syscall_handler sw e nb a1 a2 a3 a4 (set_view e (syscall_stacks e c q [nb, a1, a2, a3, a4] p) (kst c)) = ret (r, s')"
    and keep: "\<forall>a \<in> addrs p 56 \<union> addrs q 28. view e s' a = syscall_stacks e c q [nb, a1, a2, a3, a4] p a"
  shows "exec (user_platform code pl e) e user_syscall c
    = ret (Next (c\<lparr>cip := ra, kst := s', gpr := (gpr c)(EAX := r, ESP := q + 28)\<rparr>))"
proof -
  let ?s = "kst c" and ?leave = "[PopR EDI, PopR ESI, PopR EDX, PopR ECX, PopR EBX] @ [MovR ESP EBP, PopR EBP, RetI]"
  let ?F = "syscall_stacks e c q [nb, a1, a2, a3, a4] p"
  define m1 where "m1 = upd (view e ?s) q (words (user_frame c))"
  define c1 where "c1 = c\<lparr>kst := set_view e m1 ?s, gpr := (gpr c)(ESP := q, EBP := q + 20, EAX := nb, EBX := a1,
      ECX := a2, EDX := a3, ESI := a4)\<rparr>"
  have 1: "exec (user_platform code pl e) e user_syscall c = exec (user_platform code pl e) e ([IntI 48] @ ?leave) c1"
    unfolding c1_def m1_def using ustack map(2) args by (intro user_syscall_enter) (simp_all add: set_view_same)
  obtain a x d where clob: "pl_clobber pl s' = (a, x, d)" by (cases "pl_clobber pl s'")
  define c4 where "c4 = c1\<lparr>kst := s', gpr := (gpr c1)(EAX := r, EBX := gpr c1 ESI, ECX := x, EDX := d)\<rparr>"
  have F: "?F = upd m1 p (words (kernel_frame c1 [gpr c1 EAX, gpr c1 EBX, gpr c1 ECX, gpr c1 EDX, gpr c1 ESI] (gpr c1 ESP)))"
    by (simp add: syscall_stacks_def m1_def kernel_frame_def c1_def)
  have "dom m1 = dom (view e ?s)" "mapped m1 p 56"
    using map by (auto simp: m1_def dom_upd mapped_upd mapped_def length_frames simp del: addrs_Suc)
  then have 2: "step (user_platform code pl e) e (IntI 48) c1 = ret (Next c4)"
    unfolding c4_def using idt code lvl kstack h keep clob
    by (intro int48_returns [where p = p and m = m1 and s = ?s]) (simp_all add: F [symmetric], simp_all add: c1_def cpl_def)
  have "block (view e ?s) (q + 24) (words [ra])" using args by (simp add: block_append)
  from user_part_of_stacks [OF dis this] keep have "block (view e s') q (words (user_frame c @ [ra]))"
    by (subst block_agree [where m = ?F]) (auto simp: user_frame_def simp del: addrs_Suc)
  then have "exec (user_platform code pl e) e ?leave c4 = ret (Next (c4\<lparr>cip := ra, gpr := (gpr c4)(EDI := gpr c EDI,
      ESI := gpr c ESI, EDX := gpr c EDX, ECX := gpr c ECX, EBX := gpr c EBX, EBP := gpr c EBP, ESP := gpr c4 ESP + 28)\<rparr>))"
    by (intro user_syscall_leave) (simp_all add: c4_def c1_def user_frame_def)
  also have "c4\<lparr>cip := ra, gpr := (gpr c4)(EDI := gpr c EDI, ESI := gpr c ESI, EDX := gpr c EDX, ECX := gpr c ECX,
      EBX := gpr c EBX, EBP := gpr c EBP, ESP := gpr c4 ESP + 28)\<rparr> = c\<lparr>cip := ra, kst := s', gpr := (gpr c)(EAX := r, ESP := q + 28)\<rparr>"
    by (intro cpu_eq) (simp_all add: c4_def c1_def by_register)
  finally show ?thesis unfolding 1 using 2 by (subst append_Cons) (simp only: exec_step append_Nil)
qed

theorem syscall_path_witness:
  "\<exists>s'. exec (user_platform (\<lambda>a. syscall_stub (\<lambda>sel. ret) sample_env) sample_platform sample_env) sample_env
      user_syscall (sample_cpu 3 0x6000 0x4202)
    = ret (Next ((sample_cpu 3 0x6000 0x4202)\<lparr>cip := 0, kst := s',
        gpr := (gpr (sample_cpu 3 0x6000 0x4202))(EAX := 0, ESP := 0x6004)\<rparr>)) \<and> klog s' = [TermPuts 0]"
proof -
  let ?c = "sample_cpu 3 0x6000 0x4202"
  let ?F = "syscall_stacks sample_env ?c 0x5FE8 [0, 0, 0, 0, 0] 0x8FC8"
  let ?s = "event (TermPuts 0) (set_view sample_env ?F running_state)"
  have "dom ?F = dom sample_mem"
    using sample_mapped [of "0x8FC8" 56] sample_mapped [of "0x5FE8" 24]
    by (auto simp: syscall_stacks_def dom_upd mapped_def simp del: addrs_Suc)
  then have v: "view sample_env (set_view sample_env ?F running_state) = ?F"
    by (intro view_set_view) simp
  have "exec (user_platform (\<lambda>a. syscall_stub (\<lambda>sel. ret) sample_env) sample_platform sample_env) sample_env user_syscall ?c
    = ret (Next (?c\<lparr>cip := 0, kst := ?s, gpr := (gpr ?c)(EAX := 0, ESP := 0x5FE8 + 28)\<rparr>))"
  proof (rule syscall_path [where p = "0x8FC8"])
    show "k_idt (kst ?c) = idt_table (e_isr sample_env)" by (simp add: running_state_def)
    show "esp0 (current_tss (kst ?c)) = 0x8FC8 + 56" by (simp add: running_tss running_task_def)
    show "mapped (view sample_env (kst ?c)) 0x8FC8 56" "mapped (view sample_env (kst ?c)) 0x5FE8 24"
      by (simp_all add: sample_mapped del: mapped_Suc)
    show "addrs 0x8FC8 56 \<inter> addrs (0x5FE8 :: u32) 28 = {}"
      by (auto simp: addrs_range simp del: addrs_Suc)
    show "block (view sample_env (kst ?c)) (0x5FE8 + 24) (words [0, 0, 0, 0, 0, 0])"
      using sample_zero_words [of "0x6000"] by simp
    show "syscall_handler (\<lambda>sel. ret) sample_env 0 0 0 0 0 (set_view sample_env ?F (kst ?c)) = ret (0, ?s)"
      by (simp add: syscall_numbers syscall_term_puts_def)
    show "\<forall>a \<in> addrs 0x8FC8 56 \<union> addrs 0x5FE8 28. view sample_env ?s a = ?F a"
      by (simp add: v)
  qed simp_all
  moreover have "klog ?s = [TermPuts 0]" by (simp add: running_state_def sample_state_def)
  ultimately show ?thesis by (intro exI [of _ ?s]) simp
qed

end
