(* ===== verification/TrapAsm.thy ===== *)
theory TrapAsm
  imports SyscallAsm Irq
begin

text \<open>
  Exceptions and interrupt requests in assembly, \<^verbatim>\<open>kernel/interrupt/idt_asm.s\<close>: the stubs
  of the vectors and the wrapper that saves the interrupted context as \<open>regs_t\<close> for
  \<open>exception_handler\<close> and \<open>irq_handler\<close> and restores it, from the delivery by the processor
  to its \<open>iret\<close>, in the application's and in the kernel's own code.
\<close>

section \<open>Exceptions and interrupt requests\<close>

text \<open>The wrapper both share, around the C function \<open>f\<close>; the labels jump into it.\<close>

definition isr_wrapper :: "cfun \<Rightarrow> instr list" where
  "isr_wrapper f =
    [PushR EAX, PushR EBX, PushR ECX, PushR EDX, PushR ESI, PushR EDI, PushR EBP,
     PushS DS, PushS ES, PushS FS, PushS GS,
     MovI16 EAX GDT_KERNEL_DATA_SELECTOR,
     MovS DS EAX, MovS ES EAX, MovS FS EAX, MovS GS EAX,
     MovR EAX ESP, PushR EAX,
     CallC f,
     PopR EAX,
     PopS GS, PopS FS, PopS ES, PopS DS,
     PopR EBP, PopR EDI, PopR ESI, PopR EDX, PopR ECX, PopR EBX, PopR EAX,
     AddI ESP 8,
     IretI]"

text \<open>A C function with a pointer to the saved context, \<open>regs_t *\<close>.\<close>

definition load_regs :: "mem \<Rightarrow> u32 \<Rightarrow> regs run" where
  "load_regs m p =
     rbind (load32 m p) (\<lambda>v0. rbind (load32 m (p + 4)) (\<lambda>v1. rbind (load32 m (p + 8)) (\<lambda>v2.
     rbind (load32 m (p + 12)) (\<lambda>v3. rbind (load32 m (p + 16)) (\<lambda>v4. rbind (load32 m (p + 20)) (\<lambda>v5.
     rbind (load32 m (p + 24)) (\<lambda>v6. rbind (load32 m (p + 28)) (\<lambda>v7. rbind (load32 m (p + 32)) (\<lambda>v8.
     rbind (load32 m (p + 36)) (\<lambda>v9. rbind (load32 m (p + 40)) (\<lambda>v10. rbind (load32 m (p + 44)) (\<lambda>v11.
     rbind (load32 m (p + 48)) (\<lambda>v12. rbind (load32 m (p + 52)) (\<lambda>v13. rbind (load32 m (p + 56)) (\<lambda>v14.
     rbind (load32 m (p + 60)) (\<lambda>v15. rbind (load32 m (p + 64)) (\<lambda>v16. rbind (load32 m (p + 68)) (\<lambda>v17.
     ret \<lparr>r_gs = v0, r_fs = v1, r_es = v2, r_ds = v3, r_ebp = v4, r_edi = v5, r_esi = v6, r_edx = v7,
       r_ecx = v8, r_ebx = v9, r_eax = v10, r_number = v11, r_error_code = v12, r_eip = v13, r_cs = v14,
       r_eflags = v15, r_esp = v16, r_ss = v17\<rparr>))))))))))))))))))"

definition c_exception_handler :: "env \<Rightarrow> cfun" where
  "c_exception_handler e p s =
     rbind (load32 (view e s) p) (\<lambda>q. rbind (load_regs (view e s) q) (\<lambda>r.
     rbind (exception_handler e r s) (\<lambda>a. case a of
       Resumes s \<Rightarrow> ret (Returns None s) | Halts s \<Rightarrow> ret (Halted s))))"

text \<open>\<open>irq_handler\<close> reads the field \<open>number\<close> only.\<close>

definition c_irq_handler :: "env \<Rightarrow> cfun" where
  "c_irq_handler e p s =
     rbind (load32 (view e s) p) (\<lambda>q. rbind (load32 (view e s) (q + 44)) (\<lambda>n.
     rbind (irq_handler (k_handlers s) n) (\<lambda>evs. ret (Returns None (events evs s)))))"

text \<open>The vectors for which the file has a stub without a dummy code.\<close>

definition with_code :: "nat \<Rightarrow> bool" where
  "with_code n \<longleftrightarrow> n \<in> {8, 10, 11, 12, 13, 14, 17}"

definition exception_stub :: "env \<Rightarrow> nat \<Rightarrow> instr list" where
  "exception_stub e n = [CliI] @ (if with_code n then [] else [PushI 0]) @ [PushI (of_nat n)] @
     isr_wrapper (c_exception_handler e)"

definition irq_stub :: "env \<Rightarrow> nat \<Rightarrow> instr list" where
  "irq_stub e n = [CliI, PushI 0, PushI (of_nat n)] @ isr_wrapper (c_irq_handler e)"

text \<open>The words the wrapper saves, from the last pushed to the first.\<close>

definition saved_regs :: "cpu \<Rightarrow> u32 list" where
  "saved_regs c = [ucast (sgr c GS), ucast (sgr c FS), ucast (sgr c ES), ucast (sgr c DS),
     gpr c EBP, gpr c EDI, gpr c ESI, gpr c EDX, gpr c ECX, gpr c EBX, gpr c EAX]"

lemma length_saved_regs [simp]: "length (saved_regs c) = 11"
  by (simp add: saved_regs_def)

lemma isr_wrapper_parts: "isr_wrapper f =
    [PushR EAX, PushR EBX, PushR ECX, PushR EDX, PushR ESI, PushR EDI, PushR EBP, PushS DS, PushS ES, PushS FS, PushS GS] @
    load_kernel_segs @ [MovR EAX ESP, PushR EAX] @ [CallC f] @
    [PopR EAX, PopS GS, PopS FS, PopS ES, PopS DS, PopR EBP, PopR EDI, PopR ESI, PopR EDX, PopR ECX, PopR EBX, PopR EAX] @
    [AddI ESP 8, IretI]"
  by (simp add: isr_wrapper_def load_kernel_segs_def)

lemma isr_wrapper_enter:
  assumes "kst c = set_view e m s" and "dom m = dom (view e s)" and "gpr c ESP = p + 48" and map: "mapped m p 48"
  shows "exec pl e (isr_wrapper f) c = exec pl e
     ([CallC f] @ [PopR EAX, PopS GS, PopS FS, PopS ES, PopS DS, PopR EBP, PopR EDI, PopR ESI, PopR EDX, PopR ECX, PopR EBX, PopR EAX] @
      [AddI ESP 8, IretI])
    (c\<lparr>sgr := kernel_segs (sgr c), kst := set_view e (upd m p (words ((p + 4) # saved_regs c))) s,
       gpr := (gpr c)(ESP := p, EAX := p + 4)\<rparr>)"
proof -
  define m1 where "m1 = upd m (p + 4) (words (saved_regs c))"
  have sub: "mapped m (p + 4) 44" "mapped m p 4"
    using mapped_sub [OF map, of 4 44] mapped_sub [OF map, of 0 4] by (simp_all del: mapped_Suc)
  have d1: "dom m1 = dom (view e s)"
    using sub(1) assms(2) unfolding m1_def by (auto simp: dom_upd mapped_def simp del: addrs_Suc)
  have sub': "mapped m1 p 4" using sub(2) unfolding m1_def by (rule mapped_upd)
  define c1 where "c1 = set_gpr ESP (p + 4) (c\<lparr>kst := set_view e m1 s\<rparr>)"
  define c2 where "c2 = c\<lparr>kst := set_view e m1 s, sgr := kernel_segs (sgr c), gpr := (gpr c)(ESP := p + 4, EAX := p + 4)\<rparr>"
  have 1: "exec pl e ([PushR EAX, PushR EBX, PushR ECX, PushR EDX, PushR ESI, PushR EDI, PushR EBP,
      PushS DS, PushS ES, PushS FS, PushS GS] @ js) c = exec pl e js c1" for js
    unfolding c1_def m1_def using assms(1,2,3) sub(1)
    by (subst exec_pushes_on [where ws = "rev (saved_regs c)" and p = "p + 4"])
       (simp_all add: saved_regs_def add.assoc del: mapped_Suc words_simps(2))
  have 2: "exec pl e (load_kernel_segs @ [MovR EAX ESP, PushR EAX] @ js) c1 = exec pl e ([PushR EAX] @ js) c2" for js
    unfolding exec_load_kernel_segs by (simp add: exec.simps(2) c1_def c2_def set_gpr_def)
  have "upd m1 p (words [p + 4]) = upd m p (words ((p + 4) # saved_regs c))"
    unfolding m1_def using upd_prepend [of "words [p + 4]" "words (saved_regs c)" m p] by simp
  then have 3: "exec pl e ([PushR EAX] @ js) c2 = exec pl e js (c\<lparr>sgr := kernel_segs (sgr c), kst := set_view e (upd m p (words ((p + 4) # saved_regs c))) s,
      gpr := (gpr c)(ESP := p, EAX := p + 4)\<rparr>)" for js
    using d1 sub'
    by (subst exec_pushes_on [where ws = "[p + 4]" and p = p and m = m1 and s = s])
       (simp_all add: c2_def set_gpr_def fun_upd_twist del: mapped_Suc words_simps(2))
  show ?thesis unfolding isr_wrapper_parts by (simp only: 1 2 3)
qed

text \<open>
  The wrapper: \<open>f\<close> gets the address of the saved registers, and if it leaves them alone they are
  all back at the \<open>iret\<close>, with the two words above them off the stack.
\<close>

lemma isr_wrapper_correct:
  assumes st: "kst c = set_view e m s" "dom m = dom (view e s)" "gpr c ESP = p + 48" "mapped m p 48"
    and f: "f p (set_view e (upd m p (words ((p + 4) # saved_regs c))) s) = ret (Returns v s2)"
    and keep: "\<forall>a \<in> addrs p 48. view e s2 a = upd m p (words ((p + 4) # saved_regs c)) a"
  shows "exec pl e (isr_wrapper f) c = iret e (c\<lparr>kst := s2, gpr := (gpr c)(ESP := p + 56)\<rparr>)"
proof -
  let ?m = "upd m p (words ((p + 4) # saved_regs c))"
  let ?c1 = "c\<lparr>sgr := kernel_segs (sgr c), kst := set_view e ?m s, gpr := (gpr c)(ESP := p, EAX := p + 4)\<rparr>"
  let ?pops = "[PopR EAX, PopS GS, PopS FS, PopS ES, PopS DS, PopR EBP, PopR EDI, PopR ESI, PopR EDX, PopR ECX, PopR EBX, PopR EAX]"
  have len: "length (words ((p + 4) # saved_regs c)) = 48" by simp
  have "block ?m p (words ((p + 4) # saved_regs c))" by (rule upd_block, subst len) simp
  then have b2: "block (view e s2) p (words ((p + 4) # saved_regs c))"
    using keep by (subst block_agree [where m = ?m]) (simp_all only: len)
  obtain a x d where clob: "pl_clobber pl s2 = (a, x, d)" by (cases "pl_clobber pl s2")
  define c2 where "c2 = ?c1\<lparr>kst := s2, gpr := (gpr ?c1)(EAX := (case v of None \<Rightarrow> a | Some w \<Rightarrow> w), ECX := x, EDX := d)\<rparr>"
  have "step pl e (CallC f) ?c1 = ret (Next c2)"
    using f by (simp add: call_c_def clob c2_def)
  then have "exec pl e (isr_wrapper f) c = exec pl e (?pops @ [AddI ESP 8, IretI]) c2"
    unfolding isr_wrapper_enter [OF st] by (subst append_Cons) (simp only: exec_step append_Nil)
  also have "\<dots> = exec pl e [AddI ESP 8, IretI] (set_gpr ESP (gpr c2 ESP + of_nat (4 * length ?pops))
      (fold (\<lambda>(i, w). popped i w) (zip ?pops ((p + 4) # saved_regs c)) c2))"
    using b2 by (intro exec_pops) (simp_all add: c2_def)
  also have "set_gpr ESP (gpr c2 ESP + of_nat (4 * length ?pops))
      (fold (\<lambda>(i, w). popped i w) (zip ?pops ((p + 4) # saved_regs c)) c2)
    = c\<lparr>kst := s2, gpr := (gpr c)(ESP := p + 48)\<rparr>"
    by (intro cpu_eq) (simp_all add: c2_def saved_regs_def kernel_segs_def by_register)
  also have "exec pl e [AddI ESP 8, IretI] (c\<lparr>kst := s2, gpr := (gpr c)(ESP := p + 48)\<rparr>)
      = exec pl e [IretI] (c\<lparr>kst := s2, gpr := (gpr c)(ESP := p + 56)\<rparr>)"
    by (simp add: exec.simps(2) [of _ _ "AddI ESP 8"] set_gpr_def add.assoc)
  finally show ?thesis by (simp only: exec_iret)
qed

subsection \<open>The numbers below the context\<close>

lemma exec_dummy_code:
  assumes "kst c = set_view e m s" and "dom m = dom (view e s)" and "gpr c ESP = p + 8" and "mapped m p 8"
  shows "exec pl e ([CliI, PushI 0, PushI n] @ js) c = exec pl e js
    (c\<lparr>flg := flg c AND NOT 0x200, kst := set_view e (upd m p (words [n, 0])) s, gpr := (gpr c)(ESP := p)\<rparr>)"
proof -
  let ?c = "c\<lparr>flg := flg c AND NOT 0x200\<rparr>"
  have "exec pl e ([CliI, PushI 0, PushI n] @ js) c = exec pl e ([PushI 0, PushI n] @ js) ?c"
    by (simp add: exec.simps(2) [of _ _ CliI])
  also have "\<dots> = exec pl e js (set_gpr ESP p (?c\<lparr>kst := set_view e (upd m p (words (rev [0, n]))) s\<rparr>))"
    using assms by (intro exec_pushes_on) (simp_all del: mapped_Suc)
  finally show ?thesis by (simp add: set_gpr_def)
qed

lemma exec_pushed_code:
  assumes "kst c = set_view e m s" and "dom m = dom (view e s)" and "gpr c ESP = p + 4" and "mapped m p 4"
  shows "exec pl e ([CliI, PushI n] @ js) c = exec pl e js
    (c\<lparr>flg := flg c AND NOT 0x200, kst := set_view e (upd m p (words [n])) s, gpr := (gpr c)(ESP := p)\<rparr>)"
proof -
  let ?c = "c\<lparr>flg := flg c AND NOT 0x200\<rparr>"
  have "exec pl e ([CliI, PushI n] @ js) c = exec pl e ([PushI n] @ js) ?c"
    by (simp add: exec.simps(2) [of _ _ CliI])
  also have "\<dots> = exec pl e js (set_gpr ESP p (?c\<lparr>kst := set_view e (upd m p (words (rev [n]))) s\<rparr>))"
    using assms by (intro exec_pushes_on) (simp_all del: mapped_Suc)
  finally show ?thesis by (simp add: set_gpr_def)
qed

text \<open>The processor's own list of the exceptions with an error code.\<close>

definition cpu_error_code :: "nat \<Rightarrow> u32 \<Rightarrow> u32 list" where
  "cpu_error_code n err = (if n = 8 \<or> 10 \<le> n \<and> n \<le> 14 \<or> n = 17 then [err] else [])"

lemma with_code_iff: "with_code n \<longleftrightarrow> n = 8 \<or> 10 \<le> n \<and> n \<le> 14 \<or> n = 17"
  by (auto simp: with_code_def)

text \<open>The interrupted context as \<open>regs_t\<close>, and its words.\<close>

definition trap_context :: "u32 \<Rightarrow> u32 \<Rightarrow> cpu \<Rightarrow> regs" where
  "trap_context n err c = \<lparr>r_gs = ucast (sgr c GS), r_fs = ucast (sgr c FS), r_es = ucast (sgr c ES), r_ds = ucast (sgr c DS),
     r_ebp = gpr c EBP, r_edi = gpr c EDI, r_esi = gpr c ESI, r_edx = gpr c EDX, r_ecx = gpr c ECX, r_ebx = gpr c EBX,
     r_eax = gpr c EAX, r_number = n, r_error_code = err, r_eip = cip c, r_cs = ucast (sgr c CS), r_eflags = flg c,
     r_esp = gpr c ESP, r_ss = ucast (sgr c SS)\<rparr>"

definition regs_words :: "regs \<Rightarrow> u32 list" where
  "regs_words r = [r_gs r, r_fs r, r_es r, r_ds r, r_ebp r, r_edi r, r_esi r, r_edx r, r_ecx r, r_ebx r, r_eax r,
     r_number r, r_error_code r, r_eip r, r_cs r, r_eflags r, r_esp r, r_ss r]"

lemma length_regs_words [simp]: "length (regs_words r) = 18"
  by (simp add: regs_words_def)

lemma load_regs_words:
  assumes "block m p (words (regs_words r))"
  shows "load_regs m p = ret r"
proof -
  note l = load32_words [OF assms, simplified]
  have n: "regs_words r ! 0 = r_gs r" "regs_words r ! 1 = r_fs r" "regs_words r ! 2 = r_es r" "regs_words r ! 3 = r_ds r"
    "regs_words r ! 4 = r_ebp r" "regs_words r ! 5 = r_edi r" "regs_words r ! 6 = r_esi r" "regs_words r ! 7 = r_edx r"
    "regs_words r ! 8 = r_ecx r" "regs_words r ! 9 = r_ebx r" "regs_words r ! 10 = r_eax r" "regs_words r ! 11 = r_number r"
    "regs_words r ! 12 = r_error_code r" "regs_words r ! 13 = r_eip r" "regs_words r ! 14 = r_cs r"
    "regs_words r ! 15 = r_eflags r" "regs_words r ! 16 = r_esp r" "regs_words r ! 17 = r_ss r"
    by (simp_all add: regs_words_def)
  show ?thesis
    using l [of 0] l [of 1] l [of 2] l [of 3] l [of 4] l [of 5] l [of 6] l [of 7] l [of 8] l [of 9]
      l [of 10] l [of 11] l [of 12] l [of 13] l [of 14] l [of 15] l [of 16] l [of 17]
    by (simp add: load_regs_def n [simplified])
qed

subsection \<open>From the interrupted code to the stub and back\<close>

text \<open>The stack the processor saves on, and what is on it when the wrapper begins.\<close>

definition trap_stack :: "kstate \<Rightarrow> cpu \<Rightarrow> u32" where
  "trap_stack s c = (if cpl c = 0 then gpr c ESP else esp0 (current_tss s))"

definition trap_words :: "u32 \<Rightarrow> u32 list \<Rightarrow> cpu \<Rightarrow> u32 list" where
  "trap_words n ce c = [n, hd (ce @ [0]), cip c, ucast (sgr c CS), flg c] @
     (if cpl c = 0 then [] else [gpr c ESP, ucast (sgr c SS)])"

definition trap_frame :: "u32 \<Rightarrow> u32 \<Rightarrow> u32 list \<Rightarrow> cpu \<Rightarrow> u32 list" where
  "trap_frame p n ce c = (p + 4) # saved_regs c @ trap_words n ce c"

lemma length_trap [simp]: "length (trap_words n ce c) = (if cpl c = 0 then 5 else 7)"
  "length (trap_frame p n ce c) = (if cpl c = 0 then 17 else 19)"
  by (simp_all add: trap_words_def trap_frame_def)

definition trap_size :: "cpu \<Rightarrow> nat" where
  "trap_size c = (if cpl c = 0 then 68 else 76)"

text \<open>A stub in front of the wrapper: it adds the code the processor did not push.\<close>

definition trap_stub :: "u32 \<Rightarrow> u32 list \<Rightarrow> cfun \<Rightarrow> instr list" where
  "trap_stub n ce f = [CliI] @ (if ce = [] then [PushI 0] else []) @ [PushI n] @ isr_wrapper f"

lemma trap_enter:
  assumes st: "kst c = set_view e m s" "dom m = dom (view e s)"
    and int: "software_int (k_idt s) 0 vec = Some (GDT_KERNEL_CODE_SELECTOR, off)"
    and code: "code off = trap_stub n ce f" and ce: "length ce \<le> 1"
    and top: "trap_stack s c = p + of_nat (trap_size c)" and map: "mapped m p (trap_size c)"
  obtains c1 m1 where "interrupt code pl e 0 vec ce c = exec pl e (isr_wrapper f) c1"
    and "m1 = upd m (p + 48) (words (trap_words n ce c))"
    and "c1 = c\<lparr>sgr := (if cpl c = 0 then sgr c else (sgr c)(SS := ss0 (current_tss s)))(CS := GDT_KERNEL_CODE_SELECTOR),
      cip := off, flg := entry_flags (k_idt s ! vec) (flg c) AND NOT 0x200,
      kst := set_view e m1 s, gpr := (gpr c)(ESP := p + 48)\<rparr>"
proof -
  let ?cs = "GDT_KERNEL_CODE_SELECTOR"
  let ?saved = "[cip c, ucast (sgr c CS), flg c] @ (if cpl c = 0 then [] else [gpr c ESP, ucast (sgr c SS)]) :: u32 list"
  let ?sgr = "(if cpl c = 0 then sgr c else (sgr c)(SS := ss0 (current_tss s)))(CS := ?cs)"
  let ?q = "p + 56 - of_nat (4 * length ce)"
  define m0 where "m0 = upd m ?q (words (ce @ ?saved))"
  define c0 where "c0 = c\<lparr>sgr := ?sgr, cip := off, flg := entry_flags (k_idt s ! vec) (flg c),
     kst := set_view e m0 s, gpr := (gpr c)(ESP := ?q)\<rparr>"
  have ce': "ce = [] \<or> (\<exists>x. ce = [x])" using ce by (cases ce) auto
  have map0: "mapped m ?q (4 * length (ce @ ?saved))"
    using ce' mapped_sub [OF map, of 56 "4 * length ?saved"] mapped_sub [OF map, of 52 "4 + 4 * length ?saved"]
    by (auto simp: trap_size_def add.commute [of 52 p] simp del: mapped_Suc)
  have r: "rev ce = ce" using ce' by auto
  have "deliver e 0 vec ce c = ret c0"
  proof (cases "cpl c = 0")
    case True
    then show ?thesis
      using deliver_inner [OF st int True, of ce ?q] ce' map0 top r
      by (auto simp: c0_def m0_def trap_stack_def trap_size_def simp del: mapped_Suc)
  next
    case False
    then show ?thesis
      using deliver_outer [OF st int _ False, of ce ?q] ce' map0 top r
      by (auto simp: c0_def m0_def trap_stack_def trap_size_def sel_rpl_def descriptor_consts simp del: mapped_Suc)
  qed
  define m1 where "m1 = upd m (p + 48) (words (trap_words n ce c))"
  define c1 where "c1 = c\<lparr>sgr := ?sgr, cip := off, flg := entry_flags (k_idt s ! vec) (flg c) AND NOT 0x200,
      kst := set_view e m1 s, gpr := (gpr c)(ESP := p + 48)\<rparr>"
  have d0: "dom m0 = dom (view e s)"
    using st(2) map0 unfolding m0_def mapped_def by (subst dom_upd) (simp only: words_simps(4), blast)
  have "mapped m (p + 48) 8" "mapped m (p + 48) 4"
    using mapped_sub [OF map, of 48 8] mapped_sub [OF map, of 48 4] by (simp_all add: trap_size_def del: mapped_Suc)
  then have map1: "mapped m0 (p + 48) 8" "mapped m0 (p + 48) 4"
    unfolding m0_def by (simp_all add: mapped_upd del: mapped_Suc)
  have "exec pl e (trap_stub n ce f) c0 = exec pl e (isr_wrapper f) c1"
  proof (cases "ce = []")
    case True
    have "upd m0 (p + 48) (words [n, 0]) = m1"
      using upd_prepend [of "words [n, 0]" "words ?saved" m "p + 48"] True
      by (simp add: m0_def m1_def trap_words_def add.assoc)
    moreover have "exec pl e ([CliI, PushI 0, PushI n] @ isr_wrapper f) c0 = exec pl e (isr_wrapper f)
      (c0\<lparr>flg := flg c0 AND NOT 0x200, kst := set_view e (upd m0 (p + 48) (words [n, 0])) s, gpr := (gpr c0)(ESP := p + 48)\<rparr>)"
      using d0 map1 True by (intro exec_dummy_code) (simp_all add: c0_def add.assoc del: mapped_Suc)
    ultimately show ?thesis using True by (simp add: trap_stub_def c0_def c1_def)
  next
    case False
    then obtain x where x: "ce = [x]" using ce' by auto
    have "upd m0 (p + 48) (words [n]) = m1"
      using upd_prepend [of "words [n]" "words (x # ?saved)" m "p + 48"] x
      by (cases "cpl c = 0") (simp_all add: m0_def m1_def trap_words_def add.commute [of 52 p] add.assoc)
    moreover have "exec pl e ([CliI, PushI n] @ isr_wrapper f) c0 = exec pl e (isr_wrapper f)
      (c0\<lparr>flg := flg c0 AND NOT 0x200, kst := set_view e (upd m0 (p + 48) (words [n])) s, gpr := (gpr c0)(ESP := p + 48)\<rparr>)"
      using d0 map1 x by (intro exec_pushed_code) (simp_all add: c0_def del: mapped_Suc)
    ultimately show ?thesis using x by (simp add: trap_stub_def c0_def c1_def)
  qed
  then have "interrupt code pl e 0 vec ce c = exec pl e (isr_wrapper f) c1"
    using \<open>deliver e 0 vec ce c = ret c0\<close> code by (simp add: interrupt_def) (simp add: c0_def)
  then show thesis using m1_def c1_def by (rule that)
qed

lemma trap_covers: "upd (upd m (p + 48) (words (trap_words n ce c))) p (words ((p + 4) # saved_regs c))
    = upd m p (words (trap_frame p n ce c))"
  using upd_prepend [of "words ((p + 4) # saved_regs c)" "words (trap_words n ce c)" m p]
  by (simp add: trap_frame_def)

text \<open>The C function returns: the interrupted code goes on as if nothing had happened.\<close>

lemma trap_returns:
  assumes st: "kst c = set_view e m s" "dom m = dom (view e s)"
    and int: "software_int (k_idt s) 0 vec = Some (GDT_KERNEL_CODE_SELECTOR, off)"
    and code: "code off = trap_stub n ce f" and ce: "length ce \<le> 1"
    and top: "trap_stack s c = p + of_nat (trap_size c)" and map: "mapped m p (trap_size c)"
    and f: "f p (set_view e (upd m p (words (trap_frame p n ce c))) s) = ret (Returns v s')"
    and keep: "\<forall>a \<in> addrs p (trap_size c). view e s' a = upd m p (words (trap_frame p n ce c)) a"
  shows "interrupt code pl e 0 vec ce c = ret (Next (c\<lparr>kst := s'\<rparr>))"
proof -
  let ?F = "upd m p (words (trap_frame p n ce c))"
  obtain c1 m1 where 1: "interrupt code pl e 0 vec ce c = exec pl e (isr_wrapper f) c1"
    and m1: "m1 = upd m (p + 48) (words (trap_words n ce c))"
    and c1: "c1 = c\<lparr>sgr := (if cpl c = 0 then sgr c else (sgr c)(SS := ss0 (current_tss s)))(CS := GDT_KERNEL_CODE_SELECTOR),
      cip := off, flg := entry_flags (k_idt s ! vec) (flg c) AND NOT 0x200,
      kst := set_view e m1 s, gpr := (gpr c)(ESP := p + 48)\<rparr>"
    using trap_enter [where code = code, OF st int code ce top map] by metis
  have sub: "mapped m (p + 48) (4 * length (trap_words n ce c))" "mapped m p 48"
    using mapped_sub [OF map, of 48 "4 * length (trap_words n ce c)"] mapped_sub [OF map, of 0 48]
    by (simp_all add: trap_size_def del: mapped_Suc)
  have saved: "saved_regs c1 = saved_regs c" by (simp add: c1 saved_regs_def)
  have F: "upd m1 p (words ((p + 4) # saved_regs c1)) = ?F" unfolding m1 saved by (rule trap_covers)
  have "exec pl e (isr_wrapper f) c1 = iret e (c1\<lparr>kst := s', gpr := (gpr c1)(ESP := p + 56)\<rparr>)"
  proof (rule isr_wrapper_correct)
    show "kst c1 = set_view e m1 s" "gpr c1 ESP = p + 48" by (simp_all add: c1)
    show "dom m1 = dom (view e s)"
      using st(2) sub(1) unfolding m1 by (auto simp: dom_upd mapped_def simp del: addrs_Suc)
    show "mapped m1 p 48" using sub(2) unfolding m1 by (rule mapped_upd)
    show "f p (set_view e (upd m1 p (words ((p + 4) # saved_regs c1))) s) = ret (Returns v s')"
      unfolding F by (rule f)
    show "\<forall>a\<in>addrs p 48. view e s' a = upd m1 p (words ((p + 4) # saved_regs c1)) a"
      unfolding F using keep addrs_mono [of 48 "trap_size c" p] by (auto simp: trap_size_def split: if_splits)
  qed
  also have "\<dots> = ret (Next (c\<lparr>kst := s'\<rparr>))"
  proof -
    have len: "length (words (trap_frame p n ce c)) = trap_size c" by (simp add: trap_size_def)
    have "block ?F p (words (trap_frame p n ce c))" by (intro upd_block) (simp add: trap_size_def)
    then have "block (view e s') p (words (trap_frame p n ce c))"
      using keep by (subst block_agree [where m = ?F]) (simp_all only: len)
    then have b: "block (view e s') (p + 56) (words (drop 2 (trap_words n ce c)))"
      by (simp add: trap_frame_def block_append add.assoc trap_words_def)
    have fl: "\<not> bit (flg c1) 14" by (simp add: c1 entry_flags_not_nested bit_simps)
    have cs: "cpl (c1\<lparr>kst := s', gpr := (gpr c1)(ESP := p + 56)\<rparr>) = 0"
      by (simp add: c1 cpl_def sel_rpl_def descriptor_consts)
    show ?thesis
    proof (cases "cpl c = 0")
      case True
      then have "sel_rpl (sgr c CS) = 0" by (simp add: cpl_def unat_eq_0)
      then have "iret e (c1\<lparr>kst := s', gpr := (gpr c1)(ESP := p + 56)\<rparr>) = ret (Next (c1\<lparr>kst := s',
          gpr := (gpr c1)(ESP := p + 68), cip := cip c, flg := flg c, sgr := (sgr c1)(CS := sgr c CS)\<rparr>))"
        using fl cs b True
        by (subst iret_inner [where code = "sgr c CS" and new_ip = "cip c" and f = "flg c"]) (simp_all add: trap_words_def add.assoc)
      also have "c1\<lparr>kst := s', gpr := (gpr c1)(ESP := p + 68), cip := cip c, flg := flg c, sgr := (sgr c1)(CS := sgr c CS)\<rparr>
          = c\<lparr>kst := s'\<rparr>"
        using True top by (intro cpu_eq) (simp_all add: c1 by_register trap_stack_def trap_size_def)
      finally show ?thesis .
    next
      case False
      then have "sel_rpl (sgr c CS) \<noteq> 0" by (auto simp: cpl_def)
      then have "iret e (c1\<lparr>kst := s', gpr := (gpr c1)(ESP := p + 56)\<rparr>) = ret (Next (c1\<lparr>kst := s', cip := cip c,
          flg := flg c, gpr := (gpr c1)(ESP := gpr c ESP), sgr := (sgr c1)(CS := sgr c CS, SS := sgr c SS)\<rparr>))"
        using fl cs b False
        by (subst iret_outer [where code = "sgr c CS" and new_ip = "cip c" and f = "flg c" and sp = "gpr c ESP" and stack = "sgr c SS"])
           (simp_all add: trap_words_def)
      also have "c1\<lparr>kst := s', cip := cip c, flg := flg c, gpr := (gpr c1)(ESP := gpr c ESP),
          sgr := (sgr c1)(CS := sgr c CS, SS := sgr c SS)\<rparr> = c\<lparr>kst := s'\<rparr>"
        by (intro cpu_eq) (simp_all add: c1 by_register)
      finally show ?thesis .
    qed
  qed
  finally show ?thesis unfolding 1 .
qed

lemma trap_halts:
  assumes st: "kst c = set_view e m s" "dom m = dom (view e s)"
    and int: "software_int (k_idt s) 0 vec = Some (GDT_KERNEL_CODE_SELECTOR, off)"
    and code: "code off = trap_stub n ce f" and ce: "length ce \<le> 1"
    and top: "trap_stack s c = p + of_nat (trap_size c)" and map: "mapped m p (trap_size c)"
    and f: "f p (set_view e (upd m p (words (trap_frame p n ce c))) s) = ret (Halted s')"
  shows "interrupt code pl e 0 vec ce c = ret (Stopped s')"
proof -
  obtain c1 m1 where 1: "interrupt code pl e 0 vec ce c = exec pl e (isr_wrapper f) c1"
    and m1: "m1 = upd m (p + 48) (words (trap_words n ce c))"
    and c1: "c1 = c\<lparr>sgr := (if cpl c = 0 then sgr c else (sgr c)(SS := ss0 (current_tss s)))(CS := GDT_KERNEL_CODE_SELECTOR),
      cip := off, flg := entry_flags (k_idt s ! vec) (flg c) AND NOT 0x200,
      kst := set_view e m1 s, gpr := (gpr c)(ESP := p + 48)\<rparr>"
    using trap_enter [where code = code, OF st int code ce top map] by metis
  have sub: "mapped m (p + 48) (4 * length (trap_words n ce c))" "mapped m p 48"
    using mapped_sub [OF map, of 48 "4 * length (trap_words n ce c)"] mapped_sub [OF map, of 0 48]
    by (simp_all add: trap_size_def del: mapped_Suc)
  have "dom m1 = dom (view e s)"
    using st(2) sub(1) unfolding m1 by (auto simp: dom_upd mapped_def simp del: addrs_Suc)
  moreover have "mapped m1 p 48" using sub(2) unfolding m1 by (rule mapped_upd)
  moreover have "saved_regs c1 = saved_regs c" by (simp add: c1 saved_regs_def)
  ultimately show ?thesis
    unfolding 1 using f
    by (subst isr_wrapper_enter [where m = m1 and s = s and p = p])
       (simp_all add: c1 m1 trap_covers exec.simps(2) call_c_def del: mapped_Suc words_simps(2))
qed

subsection \<open>The two kinds of stubs\<close>

lemma exception_stub_trap: "exception_stub e n = trap_stub (of_nat n) (cpu_error_code n err) (c_exception_handler e)"
  by (simp add: exception_stub_def trap_stub_def cpu_error_code_def with_code_iff)

lemma irq_stub_trap: "irq_stub e n = trap_stub (of_nat n) [] (c_irq_handler e)"
  by (simp add: irq_stub_def trap_stub_def)

lemma cpu_error_code_length: "length (cpu_error_code n err) \<le> 1"
  by (simp add: cpu_error_code_def)

text \<open>An interrupted application leaves a whole \<open>regs_t\<close>, kernel code all but its last two fields.\<close>

lemma trap_frame_user: "cpl c \<noteq> 0 \<Longrightarrow> trap_frame p n ce c = (p + 4) # regs_words (trap_context n (hd (ce @ [0])) c)"
  by (simp add: trap_frame_def saved_regs_def trap_words_def regs_words_def trap_context_def)

lemma trap_frame_kernel: "cpl c = 0 \<Longrightarrow> trap_frame p n ce c @ [x, y] =
    (p + 4) # regs_words ((trap_context n (hd (ce @ [0])) c)\<lparr>r_esp := x, r_ss := y\<rparr>)"
  by (simp add: trap_frame_def saved_regs_def trap_words_def regs_words_def trap_context_def)

lemma c_exception_handler_block:
  assumes "block (view e s) p (words ((p + 4) # regs_words r))"
  shows "c_exception_handler e p s = rbind (exception_handler e r s) (\<lambda>a. case a of
    Resumes s \<Rightarrow> ret (Returns None s) | Halts s \<Rightarrow> ret (Halted s))"
proof -
  have b: "block (view e s) p (split32 (p + 4))" "block (view e s) (p + 4) (words (regs_words r))"
    using assms by (simp_all add: block_append)
  show ?thesis
    using load32_split [OF b(1)] load_regs_words [OF b(2)] by (simp add: c_exception_handler_def)
qed

text \<open>In both cases the handler gets the interrupted context but for the two fields.\<close>

lemma c_exception_handler_frame:
  assumes "mapped m p 76" and "dom m = dom (view e s)"
  obtains r where "r_number r = n" "r_error_code r = hd (ce @ [0])" "r_eip r = cip c"
    and "cpl c \<noteq> 0 \<Longrightarrow> r = trap_context n (hd (ce @ [0])) c"
    and "c_exception_handler e p (set_view e (upd m p (words (trap_frame p n ce c))) s)
      = rbind (exception_handler e r (set_view e (upd m p (words (trap_frame p n ce c))) s)) (\<lambda>a. case a of
          Resumes s \<Rightarrow> ret (Returns None s) | Halts s \<Rightarrow> ret (Halted s))"
proof -
  let ?F = "upd m p (words (trap_frame p n ce c))" and ?r = "trap_context n (hd (ce @ [0])) c"
  have sub: "addrs p (length (words (trap_frame p n ce c))) \<subseteq> dom m"
    using assms(1) addrs_mono [of 68 76 p] by (auto simp: mapped_def simp del: addrs_Suc)
  then have "dom ?F = dom (view e s)" by (subst dom_upd_within) (simp_all add: assms(2))
  then have v: "view e (set_view e ?F s) = ?F" by (rule view_set_view)
  have "block ?F p (words (trap_frame p n ce c))" by (intro upd_block) simp
  then have b: "block (view e (set_view e ?F s)) p (words (trap_frame p n ce c))" by (simp only: v)
  show thesis
  proof (cases "cpl c = 0")
    case False
    have "block (view e (set_view e ?F s)) p (words ((p + 4) # regs_words ?r))"
      using b by (simp only: trap_frame_user [OF False])
    then show thesis
      by (intro that [of ?r] c_exception_handler_block) (simp_all add: trap_context_def)
  next
    case True
    have "mapped ?F (p + 68) 4" "mapped ?F (p + 72) 4"
      using mapped_sub [OF assms(1), of 68 4] mapped_sub [OF assms(1), of 72 4] by (simp_all add: mapped_upd del: mapped_Suc)
    then obtain x y where "block ?F (p + 68) (split32 x)" "block ?F (p + 72) (split32 y)"
      using load32_mapped by metis
    then have "block (view e (set_view e ?F s)) (p + 68) (words [x, y])"
      by (simp only: v) (simp add: block_append add.assoc)
    with b have "block (view e (set_view e ?F s)) p (words (trap_frame p n ce c @ [x, y]))"
      using True by (simp only: words_simps(3) block_append words_simps(4) length_trap(2)) simp
    then have "block (view e (set_view e ?F s)) p (words ((p + 4) # regs_words (?r\<lparr>r_esp := x, r_ss := y\<rparr>)))"
      by (simp only: trap_frame_kernel [OF True])
    then show thesis
      by (intro that [of "?r\<lparr>r_esp := x, r_ss := y\<rparr>"] c_exception_handler_block) (simp_all add: trap_context_def True)
  qed
qed

lemma current_tss_task: "tasks_ok e s \<Longrightarrow> i \<in> used_slots s \<Longrightarrow> tr_reg s = tss_selector (k_tasks s ! i) \<Longrightarrow>
    current_tss s = t_tss (k_tasks s ! i)"
  using get_task_of_task [of e s i] by (simp add: current_tss_def tss_at_def)

text \<open>While a task is current, every exception ends in an \<open>iret\<close> over the instruction it came from.\<close>

lemma exception_during_task:
  assumes ok: "tasks_ok e (kst c)" "i \<in> used_slots (kst c)" "tr_reg (kst c) = tss_selector (k_tasks (kst c) ! i)"
    and idt: "k_idt (kst c) = idt_table (e_isr e)" and n: "n \<le> 20"
    and code: "code (exception_isr (e_isr e) n) = exception_stub e n"
    and top: "trap_stack (kst c) c = p + of_nat (trap_size c)" and map: "mapped (view e (kst c)) p 76"
    and ip: "cip c \<in> dom (view e (kst c))" "cip c \<notin> addrs p 76"
  obtains s' where "interrupt code pl e 0 n (cpu_error_code n err) c = ret (Next (c\<lparr>kst := s'\<rparr>))"
    and "view e s' (cip c) = Some 0xCF"
    and "\<forall>a. a \<notin> addrs p 76 \<longrightarrow> a \<noteq> cip c \<longrightarrow> view e s' a = view e (kst c) a"
    and "klog s' = klog (kst c) @ [TermPrintf ''Task %d terminated\<newline>'' [PInt (of_nat i)]]"
    and "same_tasks (kst c) s'"
proof -
  let ?s = "kst c" and ?m = "view e (kst c)" and ?ce = "cpu_error_code n err"
  let ?F = "upd ?m p (words (trap_frame p (of_nat n) ?ce c))"
  let ?s1 = "set_view e ?F ?s"
  let ?s2 = "event (TermPrintf ''Task %d terminated\<newline>'' [PInt (of_nat i)]) (set_view e (?F(cip c \<mapsto> 0xCF)) ?s)"
  have size: "trap_size c \<le> 76" "4 * length (trap_frame p (of_nat n) ?ce c) = trap_size c" by (simp_all add: trap_size_def)
  have sub: "addrs p (trap_size c) \<subseteq> addrs p 76" using size(1) by (rule addrs_mono)
  have d: "dom ?F = dom ?m" using map sub size(2) by (subst dom_upd_within) (auto simp: mapped_def simp del: addrs_Suc)
  obtain r where r: "r_eip r = cip c"
    and h: "c_exception_handler e p ?s1 = rbind (exception_handler e r ?s1) (\<lambda>a. case a of
          Resumes s \<Rightarrow> ret (Returns None s) | Halts s \<Rightarrow> ret (Halted s))"
    using c_exception_handler_frame [OF map refl, where n = "of_nat n" and ce = ?ce and c = c] by metis
  have v1: "view e ?s1 = ?F" using d by (rule view_set_view)
  have "same_tasks ?s ?s1" by (simp add: same_tasks_def)
  note kept = same_tasks_ok [OF this, of e] same_tasks_used [OF this]
  have "tasks_ok e ?s1" "i \<in> used_slots ?s1" "tr_reg ?s1 = tss_selector (k_tasks ?s1 ! i)"
    using ok kept by simp_all
  then have "exception_handler e r ?s1 = ret (Resumes (event (TermPrintf ''Task %d terminated\<newline>'' [PInt (of_nat i)])
      (set_view e ((view e ?s1)(r_eip r \<mapsto> 0xCF)) ?s1)))"
    using ip(1) d r v1 by (intro exception_of_task) auto
  then have f: "c_exception_handler e p ?s1 = ret (Returns None ?s2)"
    using d by (simp add: h r v1 set_view_set_view)
  have v2: "view e ?s2 = ?F(cip c \<mapsto> 0xCF)"
    using d ip(1) by (simp add: view_set_view insert_absorb)
  have "interrupt code pl e 0 n ?ce c = ret (Next (c\<lparr>kst := ?s2\<rparr>))"
  proof (rule trap_returns [where p = p and m = ?m and s = ?s and f = "c_exception_handler e" and n = "of_nat n" and v = None])
    show "kst c = set_view e ?m ?s" by (simp add: set_view_same)
    show "software_int (k_idt ?s) 0 n = Some (GDT_KERNEL_CODE_SELECTOR, exception_isr (e_isr e) n)"
      using idt n by (simp add: software_int_idt)
    show "code (exception_isr (e_isr e) n) = trap_stub (of_nat n) ?ce (c_exception_handler e)"
      using code exception_stub_trap by simp
    show "mapped ?m p (trap_size c)" using map sub by (auto simp: mapped_def simp del: addrs_Suc)
    show "\<forall>a\<in>addrs p (trap_size c). view e ?s2 a = ?F a" using v2 sub ip(2) by auto
  qed (rule refl cpu_error_code_length top f)+
  moreover have "view e ?s2 (cip c) = Some 0xCF" using v2 by simp
  moreover have "view e ?s2 a = ?m a" if "a \<notin> addrs p 76" "a \<noteq> cip c" for a
    using that sub size(2) v2 by (auto intro!: upd_outside)
  moreover have "klog ?s2 = klog ?s @ [TermPrintf ''Task %d terminated\<newline>'' [PInt (of_nat i)]]" by simp
  moreover have "same_tasks ?s ?s2" by (simp add: same_tasks_def)
  ultimately show thesis using that by blast
qed

lemma iret_not_nested: "\<not> bit (flg c) 14 \<Longrightarrow> iret e c \<noteq> ret (TaskReturn c')"
  by (auto simp: iret_def Let_def rbind_eq_ret split: if_splits)

text \<open>A hardware interrupt, from its delivery to the instruction it came before.\<close>

lemma irq_returns:
  assumes idt: "k_idt (kst c) = idt_table (e_isr e)" and line: "n < 16"
    and code: "code (irq_isr (e_isr e) n) = irq_stub e n"
    and top: "trap_stack (kst c) c = p + of_nat (trap_size c)" and map: "mapped (view e (kst c)) p (trap_size c)"
    and h: "irq_handler (k_handlers (kst c)) (of_nat n) = ret evs"
  shows "interrupt code pl e 0 (32 + n) [] c = ret (Next (c\<lparr>kst :=
    events evs (set_view e (upd (view e (kst c)) p (words (trap_frame p (of_nat n) [] c))) (kst c))\<rparr>))"
proof -
  let ?s = "kst c" and ?m = "view e (kst c)" and ?ws = "trap_frame p (of_nat n) [] c"
  let ?F = "upd ?m p (words ?ws)"
  let ?s1 = "set_view e ?F ?s"
  have "dom ?F = dom ?m" using map by (subst dom_upd_within) (auto simp: mapped_def trap_size_def simp del: addrs_Suc)
  then have v: "view e ?s1 = ?F" by (rule view_set_view)
  have "block ?F p (words ?ws)" by (intro upd_block) simp
  then have b: "block (view e ?s1) p (words ?ws)" by (simp only: v)
  have "load32 (view e ?s1) p = ret (p + 4)" "load32 (view e ?s1) (p + 4 + 44) = ret (of_nat n)"
    using load32_words [OF b, of 0] load32_words [OF b, of 12]
    by (simp_all add: trap_frame_def trap_words_def saved_regs_def add.assoc)
  then have f: "c_irq_handler e p ?s1 = ret (Returns None (events evs ?s1))"
    using h by (simp add: c_irq_handler_def)
  show ?thesis
  proof (rule trap_returns [where p = p and m = ?m and s = ?s and f = "c_irq_handler e" and n = "of_nat n" and v = None])
    show "kst c = set_view e ?m ?s" by (simp add: set_view_same)
    show "software_int (k_idt ?s) 0 (32 + n) = Some (GDT_KERNEL_CODE_SELECTOR, irq_isr (e_isr e) n)"
      using idt line by (simp add: software_int_idt)
    show "code (irq_isr (e_isr e) n) = trap_stub (of_nat n) [] (c_irq_handler e)"
      using code irq_stub_trap by simp
    show "\<forall>a\<in>addrs p (trap_size c). view e (events evs ?s1) a = ?F a" by (simp only: view_events v) simp
  qed (rule refl top map f | simp)+
qed

section \<open>Properties\<close>



text \<open>C11: A fault of the kernel while it serves a system call is taken for one of the application: the handler
  does not halt the machine but writes the \<open>iret\<close> over the kernel's own instruction and goes back to it,
  and since the gate cleared the nested-task flag, this \<open>iret\<close> does not end the task either.\<close>

theorem fault_in_syscall_patches_kernel:
  assumes ok: "tasks_ok e (kst c)" "i \<in> used_slots (kst c)" "tr_reg (kst c) = tss_selector (k_tasks (kst c) ! i)"
    and idt: "k_idt (kst c) = idt_table (e_isr e)" and n: "n \<le> 20"
    and code: "code (exception_isr (e_isr e) n) = exception_stub e n"
    and kernel: "cpl c = 0" "\<not> bit (flg c) 14"
    and kstack: "gpr c ESP = p + 68" and map: "mapped (view e (kst c)) p 76"
    and ip: "cip c \<in> dom (view e (kst c))" "cip c \<notin> addrs p 76"
  shows "\<exists>s'. interrupt code pl e 0 n (cpu_error_code n err) c = ret (Next (c\<lparr>kst := s'\<rparr>)) \<and>
    view e s' (cip c) = Some 0xCF \<and> (\<forall>c'. exec pl e [IretI] (c\<lparr>kst := s'\<rparr>) \<noteq> ret (TaskReturn c')) \<and>
    klog s' = klog (kst c) @ [TermPrintf ''Task %d terminated\<newline>'' [PInt (of_nat i)]]"
proof -
  have "trap_stack (kst c) c = p + of_nat (trap_size c)"
    using kernel(1) kstack by (simp add: trap_stack_def trap_size_def)
  from exception_during_task [where code = code, OF ok idt n code this map ip] obtain s' where s':
    "interrupt code pl e 0 n (cpu_error_code n err) c = ret (Next (c\<lparr>kst := s'\<rparr>))"
    "view e s' (cip c) = Some 0xCF"
    "klog s' = klog (kst c) @ [TermPrintf ''Task %d terminated\<newline>'' [PInt (of_nat i)]]" by metis
  moreover have "exec pl e [IretI] (c\<lparr>kst := s'\<rparr>) \<noteq> ret (TaskReturn c')" for c'
    using kernel(2) iret_not_nested [of "c\<lparr>kst := s'\<rparr>"] by (simp add: exec_iret)
  ultimately show ?thesis by blast
qed

theorem fault_in_syscall_patches_kernel_witness:
  "\<exists>s'. interrupt (\<lambda>a. exception_stub sample_env 14) sample_platform sample_env 0 14 [2] (sample_cpu 0 0x8F00 2)
      = ret (Next ((sample_cpu 0 0x8F00 2)\<lparr>kst := s'\<rparr>)) \<and> view sample_env s' 4096 = Some 0xCF"
proof -
  let ?c = "sample_cpu 0 0x8F00 2"
  have map: "mapped (view sample_env (kst ?c)) 0x8EBC 76" by (simp add: sample_mapped del: mapped_Suc)
  have ip: "cip ?c \<in> dom (view sample_env (kst ?c))" "cip ?c \<notin> addrs 0x8EBC 76"
    by (simp_all add: sample_dom addrs_range del: addrs_Suc)
  have top: "gpr ?c ESP = 0x8EBC + 68" by simp
  have "\<exists>s'. interrupt (\<lambda>a. exception_stub sample_env 14) sample_platform sample_env 0 14 (cpu_error_code 14 2) ?c
      = ret (Next (?c\<lparr>kst := s'\<rparr>)) \<and> view sample_env s' (cip ?c) = Some 0xCF"
    using fault_in_syscall_patches_kernel [where c = ?c and e = sample_env and i = 0 and n = 14 and p = "0x8EBC" and err = 2
        and pl = sample_platform and code = "\<lambda>a. exception_stub sample_env 14", OF _ _ _ _ _ _ _ _ top map ip]
      running_ok
    by (auto simp: running_state_def [THEN arg_cong, of k_idt] bit_simps)
  then show ?thesis by (simp add: cpu_error_code_def)
qed



end
