(* ===== verification/Preempt.thy ===== *)
theory Preempt
  imports TrapAsm
begin

text \<open>
  Hardware interrupts inside the kernel. The gate of \<open>int 48\<close> is a trap gate, so that interrupts
  stay enabled while a system call is served (\<^verbatim>\<open>kernel/interrupt/idt.c\<close>); here they are taken
  between any two instructions of its stub (\<^verbatim>\<open>kernel/syscall/syscall_asm.s\<close>), through the
  stubs of \<^verbatim>\<open>kernel/interrupt/idt_asm.s\<close>. An interrupt changes the stack below the stack pointer
  and the log; a relation between the interrupted and the undisturbed run carries this through the
  instructions.
\<close>

section \<open>Interrupted execution\<close>

text \<open>The requests for the lines in a list, one after the other; a masked one is not taken here.\<close>

primrec take_irqs :: "(u32 \<Rightarrow> instr list) \<Rightarrow> platform \<Rightarrow> env \<Rightarrow> nat list \<Rightarrow> cpu \<Rightarrow> flow run" where
  "take_irqs code pl e [] c = ret (Next c)"
| "take_irqs code pl e (n # ns) c =
     (if bit (flg c) 9
      then rbind (interrupt code pl e 0 (32 + n) [] c) (\<lambda>f. case f of Next c \<Rightarrow> take_irqs code pl e ns c | _ \<Rightarrow> ret f)
      else take_irqs code pl e ns c)"

text \<open>Before the instruction at position \<open>k\<close> the lines \<open>q k\<close> ask for an interrupt.\<close>

primrec exec_irqs :: "(u32 \<Rightarrow> instr list) \<Rightarrow> platform \<Rightarrow> env \<Rightarrow> (nat \<Rightarrow> nat list) \<Rightarrow> nat \<Rightarrow> instr list \<Rightarrow> cpu \<Rightarrow> flow run" where
  "exec_irqs code pl e q k [] c = ret (Next c)"
| "exec_irqs code pl e q k (i # is) c = rbind (take_irqs code pl e (q k) c) (\<lambda>f. case f of
     Next c \<Rightarrow> rbind (step pl e i c) (\<lambda>f. case f of Next c \<Rightarrow> exec_irqs code pl e q (Suc k) is c | _ \<Rightarrow> ret f)
   | _ \<Rightarrow> ret f)"

lemma exec_irqs_append: "exec_irqs code pl e q k (is @ js) c = rbind (exec_irqs code pl e q k is c) (\<lambda>f. case f of
    Next c \<Rightarrow> exec_irqs code pl e q (k + length is) js c | _ \<Rightarrow> ret f)"
proof (induction "is" arbitrary: k c)
  case (Cons i "is")
  show ?case
  proof (cases "take_irqs code pl e (q k) c" rule: run_cases)
    case (Returns f)
    then show ?thesis
    proof (cases f)
      case (Next c1)
      then show ?thesis using Returns
        by (cases "step pl e i c1" rule: run_cases) (simp_all add: Cons split: flow.split cong: flow.case_cong)
    qed simp_all
  qed simp_all
qed simp

lemma exec_irqs_iret: "take_irqs code pl e (q k) c = ret (Next c') \<Longrightarrow> exec_irqs code pl e q k [IretI] c = iret e c'"
  by (cases "iret e c'" rule: run_cases) (simp_all split: flow.split)

lemma exec_irqs_none: "exec_irqs code pl e (\<lambda>k. []) k is c = exec pl e is c"
  by (induction "is" arbitrary: k c) (simp_all add: exec.simps(2) cong: flow.case_cong)

section \<open>States that differ below the stack pointer\<close>

text \<open>The stack between its end \<open>lo\<close> and the stack pointer holds nothing any more.\<close>

definition dead :: "u32 \<Rightarrow> cpu \<Rightarrow> u32 set" where
  "dead lo c = {a. lo \<le> a \<and> a < gpr c ESP}"

definition state_like :: "env \<Rightarrow> u32 set \<Rightarrow> kstate \<Rightarrow> kstate \<Rightarrow> bool" where
  "state_like e D s s' \<longleftrightarrow> (\<exists>m l. s' = (set_view e m s)\<lparr>klog := l\<rparr> \<and> dom m = dom (view e s) \<and>
     (\<forall>a. a \<notin> D \<longrightarrow> m a = view e s a))"

definition like :: "env \<Rightarrow> u32 \<Rightarrow> cpu \<Rightarrow> cpu \<Rightarrow> bool" where
  "like e lo c c' \<longleftrightarrow> gpr c' = gpr c \<and> sgr c' = sgr c \<and> flg c' = flg c \<and> cip c' = cip c \<and>
     state_like e (dead lo c) (kst c) (kst c')"

lemma view_log [simp]: "view e (s\<lparr>klog := l\<rparr>) = view e s" "active_space e (s\<lparr>klog := l\<rparr>) = active_space e s"
  by (simp_all add: view_def active_space_def split: option.split)

lemma set_view_log: "set_view e m (s\<lparr>klog := l\<rparr>) = (set_view e m s)\<lparr>klog := l\<rparr>"
  by (cases "active_space e s") (auto simp: set_view_def intro!: kstate.equality)

lemma state_like_refl: "state_like e D s s"
  unfolding state_like_def by (rule exI [of _ "view e s"], rule exI [of _ "klog s"]) (simp add: set_view_same)

lemma state_likeE:
  assumes "state_like e D s s'"
  obtains m l where "s' = (set_view e m s)\<lparr>klog := l\<rparr>" "dom m = dom (view e s)" "view e s' = m"
    "\<forall>a. a \<notin> D \<longrightarrow> m a = view e s a"
  using assms by (auto simp: state_like_def view_set_view)

lemma state_like_view: "state_like e D s s' \<Longrightarrow> dom (view e s') = dom (view e s)"
  "state_like e D s s' \<Longrightarrow> a \<notin> D \<Longrightarrow> view e s' a = view e s a"
  by (auto elim!: state_likeE)

lemma state_like_fields: "state_like e D s s' \<Longrightarrow> k_idt s' = k_idt s \<and> k_handlers s' = k_handlers s \<and>
    tr_reg s' = tr_reg s \<and> cr3_reg s' = cr3_reg s \<and> k_tasks s' = k_tasks s \<and> k_gdt s' = k_gdt s \<and>
    current_tss s' = current_tss s"
  by (auto simp: state_like_def current_tss_def tss_at_def split: option.split)

lemma state_like_trans: "state_like e D s s' \<Longrightarrow> state_like e D s' s'' \<Longrightarrow> state_like e D s s''"
proof (elim state_likeE)
  fix m l m' l'
  assume m: "s' = (set_view e m s)\<lparr>klog := l\<rparr>" "dom m = dom (view e s)" "view e s' = m" "\<forall>a. a \<notin> D \<longrightarrow> m a = view e s a"
    and m': "s'' = (set_view e m' s')\<lparr>klog := l'\<rparr>" "dom m' = dom (view e s')" "\<forall>a. a \<notin> D \<longrightarrow> m' a = view e s' a"
  have "s'' = (set_view e m' s)\<lparr>klog := l'\<rparr>"
    unfolding m'(1) m(1) set_view_log using m(2) by (simp add: set_view_set_view)
  then show ?thesis unfolding state_like_def using m m' by (intro exI [of _ m'] exI [of _ l']) auto
qed

lemma state_like_mono: "state_like e D s s' \<Longrightarrow> D \<subseteq> D' \<Longrightarrow> state_like e D' s s'"
  unfolding state_like_def by blast

lemma state_like_events: "state_like e D s s' \<Longrightarrow> state_like e D s (events evs s')"
proof (elim state_likeE)
  fix m l
  assume m: "s' = (set_view e m s)\<lparr>klog := l\<rparr>" "dom m = dom (view e s)" "\<forall>a. a \<notin> D \<longrightarrow> m a = view e s a"
  then show ?thesis unfolding state_like_def by (intro exI [of _ m] exI [of _ "l @ evs"]) (simp add: events_def)
qed

text \<open>A store that both make.\<close>

lemma state_like_store:
  assumes "state_like e D s s'" and "mapped (view e s) p (length xs)"
  shows "state_like e (D - addrs p (length xs)) (set_view e (upd (view e s) p xs) s) (set_view e (upd (view e s') p xs) s')"
proof -
  obtain m l where m: "s' = (set_view e m s)\<lparr>klog := l\<rparr>" "dom m = dom (view e s)" "view e s' = m"
    "\<forall>a. a \<notin> D \<longrightarrow> m a = view e s a"
    using assms(1) by (rule state_likeE)
  let ?s = "set_view e (upd (view e s) p xs) s" and ?m = "upd m p xs"
  have d: "dom (upd (view e s) p xs) = dom (view e s)" "dom ?m = dom (view e s)"
    using assms(2) m(2) by (auto simp: dom_upd mapped_def)
  have "set_view e ?m s' = (set_view e ?m ?s)\<lparr>klog := l\<rparr>"
    unfolding m(1) set_view_log using m(2) d by (simp add: set_view_set_view)
  moreover have "?m a = view e ?s a" if "a \<notin> D - addrs p (length xs)" for a
    using that m(4) upd_local [of a p xs m "view e s"] upd_outside [of a p xs]
    by (cases "a \<in> addrs p (length xs)") (simp_all add: view_set_view d)
  ultimately show ?thesis
    unfolding state_like_def m(3) using d by (intro exI [of _ ?m] exI [of _ l]) (simp add: view_set_view)
qed

section \<open>An interrupt leaves a like state\<close>

text \<open>The kernel at level 0 with \<open>n\<close> bytes of its stack left, below which an interrupt saves the context.\<close>

definition irq_ready :: "(u32 \<Rightarrow> instr list) \<Rightarrow> env \<Rightarrow> kstate \<Rightarrow> bool" where
  "irq_ready code e s \<longleftrightarrow> k_idt s = idt_table (e_isr e) \<and> length (k_handlers s) = IRQ_COUNT \<and>
     (\<forall>n < 16. code (irq_isr (e_isr e) n) = irq_stub e n)"

definition stack_left :: "env \<Rightarrow> u32 \<Rightarrow> nat \<Rightarrow> cpu \<Rightarrow> bool" where
  "stack_left e lo n c \<longleftrightarrow> cpl c = 0 \<and> unat lo + 68 + n \<le> unat (gpr c ESP) \<and>
     {a. lo \<le> a \<and> a < gpr c ESP} \<subseteq> dom (view e (kst c))"

lemma irq_answers: "length hs = IRQ_COUNT \<Longrightarrow> n < 16 \<Longrightarrow> \<exists>evs. irq_handler hs (of_nat n) = ret evs"
  using unat_addr [of 0 n] by (simp add: irq_handler_def irq_get_handler_def IRQ_COUNT_def)

lemma irq_like:
  assumes "irq_ready code e (kst c)" and "n < 16" and "stack_left e lo k c"
  shows "\<exists>c'. interrupt code pl e 0 (32 + n) [] c = ret (Next c') \<and> like e lo c c'"
proof -
  let ?p = "gpr c ESP - 68" and ?m = "view e (kst c)"
  have lvl: "cpl c = 0" and room: "unat lo + 68 \<le> unat (gpr c ESP)" and dom: "dead lo c \<subseteq> dom ?m"
    using assms(3) by (auto simp: stack_left_def dead_def)
  have p: "unat ?p = unat (gpr c ESP) - 68"
    using room by (simp add: unat_sub word_le_nat_alt)
  moreover have "unat (gpr c ESP) < 2 ^ 32" using unsigned_less [of "gpr c ESP"] by simp
  ultimately have "unat ?p + 68 \<le> 2 ^ 32" using room by simp
  then have D: "addrs ?p 68 \<subseteq> dead lo c"
    using p room by (auto simp: addrs_range dead_def word_le_nat_alt word_less_nat_alt simp del: addrs_Suc)
  obtain evs where h: "irq_handler (k_handlers (kst c)) (of_nat n) = ret evs"
    using assms(1,2) irq_answers [of "k_handlers (kst c)" n] by (auto simp: irq_ready_def)
  let ?F = "upd ?m ?p (words (trap_frame ?p (of_nat n) [] c))"
  have map: "mapped ?m ?p (trap_size c)"
    using D dom lvl by (auto simp: mapped_def trap_size_def simp del: addrs_Suc)
  have "interrupt code pl e 0 (32 + n) [] c = ret (Next (c\<lparr>kst := events evs (set_view e ?F (kst c))\<rparr>))"
    using assms(1,2) lvl map h
    by (intro irq_returns) (simp_all add: irq_ready_def trap_stack_def trap_size_def)
  moreover have "state_like e (dead lo c) (kst c) (set_view e ?F (kst c))"
    unfolding state_like_def
  proof (intro exI conjI allI impI)
    show "set_view e ?F (kst c) = (set_view e ?F (kst c))\<lparr>klog := klog (kst c)\<rparr>" by simp
    show "dom ?F = dom ?m"
      using map lvl by (subst dom_upd_within) (auto simp: mapped_def trap_size_def simp del: addrs_Suc)
    show "?F a = ?m a" if "a \<notin> dead lo c" for a
      using that D lvl by (intro upd_outside) (auto simp del: addrs_Suc)
  qed
  ultimately show ?thesis by (auto simp: like_def intro!: state_like_events)
qed

lemma like_refl: "like e lo c c"
  by (simp add: like_def state_like_refl)

lemma like_trans: "like e lo c c' \<Longrightarrow> like e lo c' c'' \<Longrightarrow> like e lo c c''"
  by (auto simp: like_def dead_def intro: state_like_trans)

lemma like_simps:
  assumes "like e lo c c'"
  shows "gpr c' = gpr c" "sgr c' = sgr c" "flg c' = flg c" "cip c' = cip c" "cpl c' = cpl c" "dead lo c' = dead lo c"
    "dom (view e (kst c')) = dom (view e (kst c))" "k_idt (kst c') = k_idt (kst c)" "k_handlers (kst c') = k_handlers (kst c)"
proof -
  have "state_like e (dead lo c) (kst c) (kst c')" using assms by (simp add: like_def)
  note l = state_like_view(1) [OF this] state_like_fields [OF this]
  show "gpr c' = gpr c" "sgr c' = sgr c" "flg c' = flg c" "cip c' = cip c" "cpl c' = cpl c" "dead lo c' = dead lo c"
    using assms by (simp_all add: like_def cpl_def dead_def)
  show "dom (view e (kst c')) = dom (view e (kst c))" "k_idt (kst c') = k_idt (kst c)" "k_handlers (kst c') = k_handlers (kst c)"
    using l by simp_all
qed

lemma like_ready: "like e lo c c' \<Longrightarrow> irq_ready code e (kst c') = irq_ready code e (kst c)"
  by (simp add: irq_ready_def like_simps)

lemma like_left: "like e lo c c' \<Longrightarrow> stack_left e lo n c' = stack_left e lo n c"
  by (simp add: stack_left_def like_simps)

lemma take_irqs_like:
  assumes "irq_ready code e (kst c)" and "\<forall>n \<in> set ns. n < 16" and "stack_left e lo k c"
  shows "\<exists>c'. take_irqs code pl e ns c = ret (Next c') \<and> like e lo c c'"
  using assms
proof (induction ns arbitrary: c)
  case Nil
  then show ?case by (simp add: like_refl)
next
  case (Cons n ns)
  show ?case
  proof (cases "bit (flg c) 9")
    case True
    obtain c1 where c1: "interrupt code pl e 0 (32 + n) [] c = ret (Next c1)" "like e lo c c1"
      using irq_like [OF Cons.prems(1) _ Cons.prems(3), of n pl] Cons.prems(2) by auto
    then obtain c' where "take_irqs code pl e ns c1 = ret (Next c')" "like e lo c1 c'"
      using Cons.IH [of c1] Cons.prems by (auto simp: like_ready like_left)
    with c1 True show ?thesis by (auto intro: like_trans)
  qed (use Cons in simp)
qed

section \<open>Interrupted pushes, pops and moves\<close>

fun plain :: "instr \<Rightarrow> bool" where
  "plain (PushR r) = True"
| "plain (PushS r) = True"
| "plain (PushI w) = True"
| "plain (MovI16 r w) = (r \<noteq> ESP)"
| "plain (MovS r r') = (r \<noteq> CS)"
| "plain (PopR r) = (r \<noteq> ESP)"
| "plain (PopS r) = (r \<noteq> CS)"
| "plain i = False"

definition pops :: "instr list \<Rightarrow> nat" where
  "pops is = length (filter is_pop is)"

lemma pops_simps [simp]: "pops [] = 0" "pops (i # is) = (if is_pop i then Suc (pops is) else pops is)"
  by (simp_all add: pops_def)

definition stack_room :: "env \<Rightarrow> u32 \<Rightarrow> instr list \<Rightarrow> cpu \<Rightarrow> bool" where
  "stack_room e lo is c \<longleftrightarrow> cpl c = 0 \<and> unat lo + 68 + 4 * length is \<le> unat (gpr c ESP) \<and>
     unat (gpr c ESP) + 4 * pops is < 2 ^ 32 \<and>
     {a. unat lo \<le> unat a \<and> unat a < unat (gpr c ESP) + 4 * pops is} \<subseteq> dom (view e (kst c))"

lemma stack_room_left: "stack_room e lo is c \<Longrightarrow> stack_left e lo (4 * length is) c"
  by (auto simp: stack_room_def stack_left_def word_le_nat_alt word_less_nat_alt)

lemma like_room: "like e lo c c' \<Longrightarrow> stack_room e lo is c' = stack_room e lo is c"
  by (simp add: stack_room_def like_simps)


lemma push_like:
  assumes "like e lo c c'" and room: "unat lo + 4 \<le> unat (gpr c ESP)" and "dead lo c \<subseteq> dom (view e (kst c))"
  shows "\<exists>c1 c1'. push32 e w c = ret c1 \<and> push32 e w c' = ret c1' \<and> like e lo c1 c1' \<and>
    gpr c1 ESP = gpr c ESP - 4 \<and> sgr c1 = sgr c \<and> dom (view e (kst c1)) = dom (view e (kst c)) \<and>
    k_idt (kst c1) = k_idt (kst c) \<and> k_handlers (kst c1) = k_handlers (kst c)"
proof -
  let ?s = "kst c'"
  have g: "gpr c' = gpr c" and l: "state_like e (dead lo c) (kst c) ?s"
    using assms(1) by (simp_all add: like_def)
  let ?p = "gpr c ESP - 4"
  have p: "unat ?p = unat (gpr c ESP) - 4" using room by (simp add: unat_sub word_le_nat_alt)
  then have "unat ?p + 4 \<le> 2 ^ 32" using room unsigned_less [of "gpr c ESP", where 'a = nat] by simp
  then have D: "addrs ?p 4 = {a. ?p \<le> a \<and> a < gpr c ESP}"
    using p room by (auto simp: addrs_range word_le_nat_alt word_less_nat_alt simp del: addrs_Suc)
  have sub: "addrs ?p 4 \<subseteq> dead lo c" "dead lo c - addrs ?p 4 = {a. lo \<le> a \<and> a < ?p}"
    unfolding D dead_def using p room by (auto simp: word_le_nat_alt word_less_nat_alt)
  have map: "mapped (view e (kst c)) ?p 4" "mapped (view e ?s) ?p 4"
    using sub(1) assms(3) state_like_view(1) [OF l] by (auto simp: mapped_def simp del: addrs_Suc)
  let ?c1 = "set_gpr ESP ?p (c\<lparr>kst := set_view e (upd (view e (kst c)) ?p (split32 w)) (kst c)\<rparr>)"
  let ?c1' = "set_gpr ESP ?p (c'\<lparr>kst := set_view e (upd (view e ?s) ?p (split32 w)) ?s\<rparr>)"
  have 1: "push32 e w c = ret ?c1" "push32 e w c' = ret ?c1'"
    using map by (simp_all add: push32_def Let_def on_view_def store32_upd g del: mapped_Suc)
  have "state_like e {a. lo \<le> a \<and> a < ?p} (kst ?c1) (kst ?c1')"
    using state_like_store [OF l, of ?p "split32 w"] map(1) by (simp add: sub(2) del: mapped_Suc addrs_Suc)
  then have 2: "like e lo ?c1 ?c1'"
    using assms(1) by (simp add: like_def dead_def)
  have "dom (view e (kst ?c1)) = dom (view e (kst c))"
    using map(1) by (simp add: view_set_view dom_upd_within mapped_def del: addrs_Suc)
  then show ?thesis using 1 2 by (intro exI [of _ ?c1] exI [of _ ?c1']) simp
qed

lemma pop_like:
  assumes "like e lo c c'" and "unat (gpr c ESP) + 4 < 2 ^ 32" and "pop32 e c = ret (w, c1)"
  shows "\<exists>c1'. pop32 e c' = ret (w, c1') \<and> like e lo c1 c1' \<and> c1 = set_gpr ESP (gpr c ESP + 4) c"
proof -
  let ?s = "kst c'"
  have g: "gpr c' = gpr c" and l: "state_like e (dead lo c) (kst c) ?s"
    using assms(1) by (simp_all add: like_def)
  have u: "unat (gpr c ESP + 4) = unat (gpr c ESP) + 4" using unat_addr [of "gpr c ESP" 4] assms(2) by simp
  have "addrs (gpr c ESP) 4 \<inter> dead lo c = {}"
    using assms(2) by (auto simp: addrs_range dead_def word_less_nat_alt simp del: addrs_Suc)
  then have "load32 (view e ?s) (gpr c ESP) = load32 (view e (kst c)) (gpr c ESP)"
    using state_like_view(2) [OF l] by (intro load32_agree) (auto simp del: addrs_Suc)
  moreover have "dead lo c \<subseteq> {a. lo \<le> a \<and> a < gpr c ESP + 4}"
    using u by (auto simp: dead_def word_less_nat_alt)
  then have "state_like e {a. lo \<le> a \<and> a < gpr c ESP + 4} (kst c) ?s" using l by (rule state_like_mono [rotated])
  ultimately show ?thesis
    using assms(1,3) by (auto simp: pop32_def Let_def rbind_eq_ret like_def dead_def)
qed

text \<open>What a plain instruction pushes, and the registers it changes.\<close>

fun push_word :: "instr \<Rightarrow> cpu \<Rightarrow> u32 option" where
  "push_word (PushR r) c = Some (gpr c r)"
| "push_word (PushS r) c = Some (ucast (sgr c r))"
| "push_word (PushI w) c = Some w"
| "push_word i c = None"

fun moved :: "instr \<Rightarrow> cpu \<Rightarrow> cpu" where
  "moved (MovI16 r w) c = set_gpr r (set_low (gpr c r) w) c"
| "moved (MovS r r') c = set_sgr r (ucast (gpr c r')) c"
| "moved i c = c"

lemma plain_step:
  "push_word i c = Some w \<Longrightarrow> step pl e i c = rbind (push32 e w c) (\<lambda>c. ret (Next c)) \<and> \<not> is_pop i"
  "is_pop i \<Longrightarrow> step pl e i c = rbind (pop32 e c) (\<lambda>(w, c). ret (Next (popped i w c)))"
  "plain i \<Longrightarrow> \<not> is_pop i \<Longrightarrow> push_word i c = None \<Longrightarrow> step pl e i c = ret (Next (moved i c))"
  by (cases i; auto)+

lemma exec_ConsE:
  assumes "exec pl e (i # is) c = ret (Next c1)"
  obtains d where "step pl e i c = ret (Next d)" "exec pl e is d = ret (Next c1)"
proof (cases "step pl e i c" rule: run_cases)
  case (Returns f)
  then show thesis using assms that by (cases f) (simp_all add: exec.simps(2))
qed (use assms in \<open>simp_all add: exec.simps(2)\<close>)

lemma like_set:
  assumes "like e lo c c'" and "plain i"
  shows "like e lo (popped i w c) (popped i w c')" "like e lo (moved i c) (moved i c')"
  using assms by (cases i; simp add: like_def dead_def)+

lemma plain_keeps:
  assumes "plain i"
  shows "gpr (popped i w c) ESP = gpr c ESP" "kst (popped i w c) = kst c" "cpl (popped i w c) = cpl c"
    "gpr (moved i c) ESP = gpr c ESP" "kst (moved i c) = kst c" "cpl (moved i c) = cpl c"
    "push_word i (c\<lparr>kst := s\<rparr>) = push_word i c"
  using assms by (cases i; simp add: cpl_def)+

lemma step_like:
  assumes "plain i" and "like e lo c c'" and room: "stack_room e lo (i # is) c" and "step pl e i c = ret (Next c1)"
  shows "\<exists>c1'. step pl e i c' = ret (Next c1') \<and> like e lo c1 c1' \<and> stack_room e lo is c1 \<and>
    k_idt (kst c1) = k_idt (kst c) \<and> k_handlers (kst c1) = k_handlers (kst c)"
proof -
  consider w where "push_word i c = Some w" | "is_pop i" | "\<not> is_pop i" "push_word i c = None" by fastforce
  then show ?thesis
  proof cases
    case (1 w)
    note st = plain_step(1) [OF 1]
    have r: "unat lo + 72 \<le> unat (gpr c ESP)" "dead lo c \<subseteq> dom (view e (kst c))"
      using room by (auto simp: stack_room_def dead_def word_le_nat_alt word_less_nat_alt)
    obtain d d' where d: "push32 e w c = ret d" "push32 e w c' = ret d'" "like e lo d d'"
      "gpr d ESP = gpr c ESP - 4" "sgr d = sgr c" "dom (view e (kst d)) = dom (view e (kst c))"
      "k_idt (kst d) = k_idt (kst c)" "k_handlers (kst d) = k_handlers (kst c)"
      using push_like [OF assms(2) _ r(2), of w] r(1) by auto
    have "push_word i c' = Some w" using 1 assms(2) by (cases i) (simp_all add: like_def)
    from plain_step(1) [OF this] have "step pl e i c' = ret (Next d')" by (simp add: d(2))
    moreover have "c1 = d" using st d(1) assms(4) by simp
    moreover have "unat (gpr d ESP) = unat (gpr c ESP) - 4"
      using r(1) by (simp add: d(4) unat_sub word_le_nat_alt)
    then have "stack_room e lo is d"
      using room r(1) st by (auto simp: stack_room_def d cpl_def)
    ultimately show ?thesis using d by auto
  next
    case 2
    then obtain w d where w: "pop32 e c = ret (w, d)" "c1 = popped i w d"
      using assms(4) by (auto simp: plain_step(2) rbind_eq_ret)
    have r: "unat (gpr c ESP) + 4 < 2 ^ 32" using room 2 by (simp add: stack_room_def)
    obtain d' where d: "pop32 e c' = ret (w, d')" "like e lo d d'" "d = set_gpr ESP (gpr c ESP + 4) c"
      using pop_like [OF assms(2) r w(1)] by auto
    have u: "unat (gpr c ESP + 4) = unat (gpr c ESP) + 4" using unat_addr [of "gpr c ESP" 4] r by simp
    have "cpl c1 = cpl c" by (simp add: w(2) plain_keeps [OF assms(1)] d(3)) (simp add: cpl_def)
    then have "stack_room e lo is c1"
      using room 2 u by (auto simp: stack_room_def w(2) d(3) plain_keeps [OF assms(1)])
    moreover have "step pl e i c' = ret (Next (popped i w d'))" using 2 d(1) by (simp add: plain_step(2))
    ultimately show ?thesis
      using like_set(1) [OF d(2) assms(1)] by (simp add: w(2) plain_keeps [OF assms(1)] d(3))
  next
    case 3
    then have "c1 = moved i c" using assms(1,4) by (simp add: plain_step(3))
    moreover have "push_word i c' = None" using 3(2) by (cases i) simp_all
    then have "step pl e i c' = ret (Next (moved i c'))" using assms(1) 3(1) by (simp add: plain_step(3))
    moreover have "stack_room e lo is (moved i c)"
      using room 3(1) by (auto simp: stack_room_def plain_keeps [OF assms(1)])
    ultimately show ?thesis
      using like_set(2) [OF assms(2,1)] by (simp add: plain_keeps [OF assms(1)])
  qed
qed

lemma exec_irqs_like:
  assumes "list_all plain is" and "like e lo c c'" and "stack_room e lo (is @ js) c" and "irq_ready code e (kst c)"
    and q: "\<forall>k. \<forall>n \<in> set (q k). n < 16" and "exec pl e is c = ret (Next c1)"
  shows "\<exists>c1'. exec_irqs code pl e q k is c' = ret (Next c1') \<and> like e lo c1 c1' \<and> stack_room e lo js c1 \<and>
    irq_ready code e (kst c1)"
  using assms(1-4,6)
proof (induction "is" arbitrary: k c c')
  case Nil
  then show ?case by simp
next
  case (Cons i "is")
  obtain d where d: "step pl e i c = ret (Next d)" "exec pl e is d = ret (Next c1)"
    using Cons.prems(5) by (rule exec_ConsE)
  obtain c0 where c0: "take_irqs code pl e (q k) c' = ret (Next c0)" "like e lo c' c0"
    using take_irqs_like [where code = code and e = e and c = c' and ns = "q k" and lo = lo and pl = pl, OF _ _ stack_room_left [of e lo "i # is @ js"]] Cons.prems(2-4) q
    by (auto simp: like_ready like_room)
  then have "like e lo c c0" using Cons.prems(2) by (auto intro: like_trans)
  then obtain d' where d': "step pl e i c0 = ret (Next d')" "like e lo d d'" "stack_room e lo (is @ js) d"
    "k_idt (kst d) = k_idt (kst c)" "k_handlers (kst d) = k_handlers (kst c)"
    using step_like [of i e lo c c0 "is @ js" pl d] Cons.prems(1,3) d(1) by auto
  moreover have "irq_ready code e (kst d)" using Cons.prems(4) d'(4,5) by (simp add: irq_ready_def)
  ultimately show ?case
    using Cons.IH [of d d' "Suc k"] Cons.prems(1) d(2) c0(1) by auto
qed

section \<open>A system call with interrupts in the kernel\<close>

text \<open>\<open>int n\<close> of an application, where interrupts are taken before the instructions of the kernel's stub.\<close>

definition int_irqs :: "(u32 \<Rightarrow> instr list) \<Rightarrow> platform \<Rightarrow> env \<Rightarrow> (nat \<Rightarrow> nat list) \<Rightarrow> nat \<Rightarrow> cpu \<Rightarrow> flow run" where
  "int_irqs code pl e q n c = rbind (deliver e (cpl c) n [] c) (\<lambda>c. exec_irqs code pl e q 0 (code (cip c)) c)"

text \<open>The kernel's stack from its end \<open>lo\<close>, with the 56 bytes of a system call from \<open>p\<close> on.\<close>

definition kernel_stack :: "env \<Rightarrow> u32 \<Rightarrow> u32 \<Rightarrow> kstate \<Rightarrow> bool" where
  "kernel_stack e lo p s \<longleftrightarrow> unat lo + 144 \<le> unat p \<and> unat p + 56 < 2 ^ 32 \<and>
     {a. unat lo \<le> unat a \<and> unat a < unat p + 56} \<subseteq> dom (view e s)"

lemma kernel_stack_mapped: "kernel_stack e lo p s \<Longrightarrow> n \<le> 56 \<Longrightarrow> mapped (view e s) p n"
proof -
  assume k: "kernel_stack e lo p s" and n: "n \<le> 56"
  then have "addrs p n \<subseteq> {a. unat lo \<le> unat a \<and> unat a < unat p + 56}"
    by (auto simp: kernel_stack_def addrs_range word_le_nat_alt simp del: addrs_Suc)
  then show ?thesis using k unfolding mapped_def kernel_stack_def by blast
qed

lemma plain_lists: "list_all plain syscall_save" "list_all plain syscall_restore" "pops syscall_save = 1"
  "pops syscall_restore = 9" "length syscall_save = 16" "length syscall_restore = 9"
  by (simp_all add: syscall_save_def syscall_restore_def load_kernel_segs_def)

text \<open>Before the call: the frame is complete, and only the stack below it may differ.\<close>

lemma save_irqs:
  assumes st: "kst c = set_view e m s" "dom m = dom (view e s)" "gpr c ESP = p + 36" and lvl: "cpl c = 0"
    and ready: "irq_ready code e s" and stack: "kernel_stack e lo p s" and q: "\<forall>k. \<forall>n \<in> set (q k). n < 16"
  shows "\<exists>c'. exec_irqs code pl e q k (syscall_save @ js) c = exec_irqs code pl e q (k + 16) js c' \<and>
    like e lo (c\<lparr>sgr := kernel_segs (sgr c), kst := set_view e (upd m p (words (syscall_frame c))) s, gpr := (gpr c)(ESP := p)\<rparr>) c'"
proof -
  let ?c1 = "c\<lparr>sgr := kernel_segs (sgr c), kst := set_view e (upd m p (words (syscall_frame c))) s, gpr := (gpr c)(ESP := p)\<rparr>"
  have v: "view e (kst c) = m" using st(1,2) by (simp add: view_set_view)
  have p: "unat (p + 36) = unat p + 36" using unat_addr [of p 36] stack by (simp add: kernel_stack_def)
  have map: "mapped m p 36" using kernel_stack_mapped [OF stack, of 36] st(2) by (simp add: mapped_def del: addrs_Suc)
  have "exec pl e syscall_save c = ret (Next ?c1)"
    using syscall_save_runs [OF st map, of pl "[]"] by simp
  moreover have "stack_room e lo (syscall_save @ []) c"
    using stack st(2,3) lvl by (auto simp: stack_room_def kernel_stack_def plain_lists v p)
  moreover have "irq_ready code e (kst c)" using ready st(1) by (simp add: irq_ready_def)
  ultimately obtain c' where "exec_irqs code pl e q k syscall_save c = ret (Next c')" "like e lo ?c1 c'"
    using exec_irqs_like [OF plain_lists(1) like_refl _ _ q] by blast
  then show ?thesis by (auto simp: exec_irqs_append plain_lists)
qed

text \<open>After the call: the stub is at its \<open>iret\<close> with the registers it restored.\<close>

lemma restore_irqs:
  assumes frame: "block (view e (kst c)) p (words (syscall_frame c0))" and p: "gpr c ESP = p" "cpl c = 0"
    and ready: "irq_ready code e (kst c)" and stack: "kernel_stack e lo p (kst c)" and q: "\<forall>k. \<forall>n \<in> set (q k). n < 16"
  shows "\<exists>c'. exec_irqs code pl e q k (syscall_restore @ js) c = exec_irqs code pl e q (k + 9) js c' \<and>
    irq_ready code e (kst c') \<and>
    like e lo (c\<lparr>sgr := (sgr c)(GS := sgr c0 GS, FS := sgr c0 FS, ES := sgr c0 ES, DS := sgr c0 DS),
      gpr := (gpr c)(EBX := gpr c0 ESI, ESP := p + 36)\<rparr>) c'"
proof -
  let ?c1 = "c\<lparr>sgr := (sgr c)(GS := sgr c0 GS, FS := sgr c0 FS, ES := sgr c0 ES, DS := sgr c0 DS),
      gpr := (gpr c)(EBX := gpr c0 ESI, ESP := p + 36)\<rparr>"
  have "exec pl e (syscall_restore @ []) c = exec pl e [] (set_gpr ESP (gpr c ESP + of_nat (4 * length syscall_restore))
      (fold (\<lambda>(i, w). popped i w) (zip syscall_restore (syscall_frame c0)) c))"
    using frame p by (intro exec_pops) (simp_all add: syscall_restore_def syscall_frame_def)
  also have "set_gpr ESP (gpr c ESP + of_nat (4 * length syscall_restore))
      (fold (\<lambda>(i, w). popped i w) (zip syscall_restore (syscall_frame c0)) c) = ?c1"
    using p by (intro cpu_eq) (simp_all add: syscall_restore_def syscall_frame_def by_register)
  finally have "exec pl e syscall_restore c = ret (Next ?c1)" by simp
  moreover have "stack_room e lo (syscall_restore @ []) c"
    using stack p by (auto simp: stack_room_def kernel_stack_def plain_lists)
  ultimately obtain c' where "exec_irqs code pl e q k syscall_restore c = ret (Next c')" "like e lo ?c1 c'"
    "irq_ready code e (kst ?c1)"
    using exec_irqs_like [OF plain_lists(2) like_refl _ ready q] by blast
  then show ?thesis by (auto simp: exec_irqs_append plain_lists like_ready)
qed

text \<open>The call: the handler gets its arguments from the frame, whatever interrupts left below it.\<close>

lemma frame_called:
  assumes p: "unat p + 36 < 2 ^ 32" and d: "dom m = dom (view e s)" and map: "mapped m p 36"
    and s1: "state_like e {a. lo \<le> a \<and> a < p} (set_view e (upd m p (words (syscall_frame c))) s) s1"
    and h: "syscall_handler sw e (gpr c EAX) (gpr c EBX) (gpr c ECX) (gpr c EDX) (gpr c ESI) s1 = ret (r, s')"
    and keep: "\<forall>a \<in> addrs p 36. view e s' a = view e s1 a"
  shows "c_syscall_handler sw e p s1 = ret (Returns (Some r) s')" and "block (view e s') p (words (syscall_frame c))"
proof -
  let ?F = "upd m p (words (syscall_frame c))"
  have len: "length (words (syscall_frame c)) = 36" by simp
  have "a \<notin> {a. lo \<le> a \<and> a < p}" if "a \<in> addrs p 36" for a
    using that p by (auto simp: addrs_range word_less_nat_alt simp del: addrs_Suc)
  moreover have "dom ?F = dom (view e s)" using d map by (auto simp: dom_upd mapped_def simp del: addrs_Suc)
  ultimately have agree: "\<forall>a \<in> addrs p 36. view e s1 a = ?F a"
    using state_like_view(2) [OF s1] by (simp add: view_set_view del: addrs_Suc)
  have "block ?F p (words (syscall_frame c))" by (rule upd_block, subst len) simp
  then have b1: "block (view e s1) p (words (syscall_frame c))"
    using agree by (subst block_agree [where m = ?F]) (simp_all only: len)
  from c_syscall_handler_frame [OF this [unfolded syscall_frame_def], of sw] h
  show "c_syscall_handler sw e p s1 = ret (Returns (Some r) s')" by simp
  show "block (view e s') p (words (syscall_frame c))"
    using b1 keep by (subst block_agree [where m = "view e s1"]) (simp_all only: len)
qed

definition stub_frame :: "env \<Rightarrow> mem \<Rightarrow> kstate \<Rightarrow> u32 \<Rightarrow> cpu \<Rightarrow> kstate" where
  "stub_frame e m s p c = set_view e (upd m p (words (syscall_frame c))) s"

text \<open>From the first instruction of the stub to the return of the handler.\<close>

lemma call_irqs:
  assumes st: "kst c = set_view e m s" "dom m = dom (view e s)" "gpr c ESP = p + 36" and lvl: "cpl c = 0"
    and ready: "irq_ready code e s" and stack: "kernel_stack e lo p s" and q: "\<forall>k. \<forall>n \<in> set (q k). n < 16"
    and h: "\<forall>s1. state_like e {a. lo \<le> a \<and> a < p} (stub_frame e m s p c) s1 \<longrightarrow>
      syscall_handler sw e (gpr c EAX) (gpr c EBX) (gpr c ECX) (gpr c EDX) (gpr c ESI) s1 = ret (R s1, S s1) \<and>
      irq_ready code e (S s1) \<and> kernel_stack e lo p (S s1) \<and> (\<forall>a \<in> addrs p 36. view e (S s1) a = view e s1 a)"
  shows "\<exists>s1 x d. state_like e {a. lo \<le> a \<and> a < p} (stub_frame e m s p c) s1 \<and>
    exec_irqs code pl e q k (syscall_stub sw e) c = exec_irqs code pl e q (k + 17) (syscall_restore @ [IretI])
      (c\<lparr>sgr := kernel_segs (sgr c), kst := S s1, gpr := (gpr c)(ESP := p, EAX := R s1, ECX := x, EDX := d)\<rparr>) \<and>
    block (view e (S s1)) p (words (syscall_frame c))"
proof -
  let ?c1 = "c\<lparr>sgr := kernel_segs (sgr c), kst := stub_frame e m s p c, gpr := (gpr c)(ESP := p)\<rparr>"
  let ?call = "CallC (c_syscall_handler sw e)"
  obtain c1 where c1: "exec_irqs code pl e q k (syscall_stub sw e) c
      = exec_irqs code pl e q (k + 16) (?call # syscall_restore @ [IretI]) c1" "like e lo ?c1 c1"
    using save_irqs [OF st lvl ready stack q, of pl k "?call # syscall_restore @ [IretI]"]
    by (auto simp: syscall_stub_parts stub_frame_def)
  have map: "mapped m p 36" using kernel_stack_mapped [OF stack, of 36] st(2) by (simp add: mapped_def del: addrs_Suc)
  then have "dom (upd m p (words (syscall_frame c))) = dom (view e s)"
    using st(2) by (auto simp: dom_upd mapped_def simp del: addrs_Suc)
  then have "dom (view e (stub_frame e m s p c)) = dom (view e s)" by (simp add: stub_frame_def view_set_view)
  moreover have ready1: "irq_ready code e (kst ?c1)" using ready by (simp add: irq_ready_def stub_frame_def)
  ultimately have "stack_left e lo 0 ?c1"
    using stack lvl by (auto simp: stack_left_def kernel_stack_def cpl_def kernel_segs_def word_le_nat_alt word_less_nat_alt)
  then obtain c2 where c2: "take_irqs code pl e (q (k + 16)) c1 = ret (Next c2)" "like e lo c1 c2"
    using take_irqs_like [where code = code and e = e and c = c1 and ns = "q (k + 16)" and lo = lo and pl = pl and k = 0]
      q ready1 like_ready [OF c1(2)] like_left [OF c1(2)] by auto
  then have l: "like e lo ?c1 c2" using c1(2) by (blast intro: like_trans)
  have s1: "state_like e {a. lo \<le> a \<and> a < p} (stub_frame e m s p c) (kst c2)"
    using l by (simp add: like_def dead_def)
  have hs: "syscall_handler sw e (gpr c EAX) (gpr c EBX) (gpr c ECX) (gpr c EDX) (gpr c ESI) (kst c2) = ret (R (kst c2), S (kst c2))"
    "\<forall>a \<in> addrs p 36. view e (S (kst c2)) a = view e (kst c2) a" using h s1 by blast+
  note f = frame_called [OF _ st(2) map s1 [unfolded stub_frame_def] hs]
  obtain a x d where clob: "pl_clobber pl (S (kst c2)) = (a, x, d)" by (cases "pl_clobber pl (S (kst c2))")
  let ?c3 = "c\<lparr>sgr := kernel_segs (sgr c), kst := S (kst c2), gpr := (gpr c)(ESP := p, EAX := R (kst c2), ECX := x, EDX := d)\<rparr>"
  have "c2\<lparr>kst := S (kst c2), gpr := (gpr c2)(EAX := R (kst c2), ECX := x, EDX := d)\<rparr> = ?c3"
    using l by (intro cpu_eq) (simp_all add: like_def)
  then have "step pl e ?call c2 = ret (Next ?c3)"
    using f(1) stack l by (simp add: call_c_def clob like_def kernel_stack_def)
  then have "exec_irqs code pl e q k (syscall_stub sw e) c = exec_irqs code pl e q (k + 17) (syscall_restore @ [IretI]) ?c3"
    using c1(1) c2(1) by (simp add: add.commute)
  moreover have "block (view e (S (kst c2))) p (words (syscall_frame c))" using f(2) stack by (simp add: kernel_stack_def)
  ultimately show ?thesis using s1 by (intro exI conjI)
qed

text \<open>The whole of the stub.\<close>

lemma syscall_stub_irqs:
  assumes st: "kst c = set_view e m s" "dom m = dom (view e s)" "gpr c ESP = p + 36" and lvl: "cpl c = 0"
    and ready: "irq_ready code e s" and stack: "kernel_stack e lo p s" and q: "\<forall>k. \<forall>n \<in> set (q k). n < 16"
    and h: "\<forall>s1. state_like e {a. lo \<le> a \<and> a < p} (stub_frame e m s p c) s1 \<longrightarrow>
      syscall_handler sw e (gpr c EAX) (gpr c EBX) (gpr c ECX) (gpr c EDX) (gpr c ESI) s1 = ret (R s1, S s1) \<and>
      irq_ready code e (S s1) \<and> kernel_stack e lo p (S s1) \<and> (\<forall>a \<in> addrs p 36. view e (S s1) a = view e s1 a)"
  shows "\<exists>s1 s2 x d. state_like e {a. lo \<le> a \<and> a < p} (stub_frame e m s p c) s1 \<and>
    state_like e {a. lo \<le> a \<and> a < p + 36} (S s1) s2 \<and>
    exec_irqs code pl e q k (syscall_stub sw e) c =
      iret e (c\<lparr>kst := s2, gpr := (gpr c)(EAX := R s1, EBX := gpr c ESI, ECX := x, EDX := d)\<rparr>)"
proof -
  obtain s1 x d where s1: "state_like e {a. lo \<le> a \<and> a < p} (stub_frame e m s p c) s1"
    and 1: "exec_irqs code pl e q k (syscall_stub sw e) c = exec_irqs code pl e q (k + 17) (syscall_restore @ [IretI])
      (c\<lparr>sgr := kernel_segs (sgr c), kst := S s1, gpr := (gpr c)(ESP := p, EAX := R s1, ECX := x, EDX := d)\<rparr>)"
    and b: "block (view e (S s1)) p (words (syscall_frame c))"
    using call_irqs [where q = q and pl = pl and k = k, OF st lvl ready stack q h] by (elim exE conjE) (rule that)
  define c3 where "c3 = c\<lparr>sgr := kernel_segs (sgr c), kst := S s1, gpr := (gpr c)(ESP := p, EAX := R s1, ECX := x, EDX := d)\<rparr>"
  define c5 where "c5 = c\<lparr>kst := S s1, gpr := (gpr c)(EAX := R s1, EBX := gpr c ESI, ECX := x, EDX := d)\<rparr>"
  have k3: "gpr c3 ESP = p" "cpl c3 = 0" "kst c3 = S s1" using lvl by (simp_all add: c3_def cpl_def kernel_segs_def)
  have hs: "irq_ready code e (S s1)" "kernel_stack e lo p (S s1)" using h s1 by blast+
  have "c3\<lparr>sgr := (sgr c3)(GS := sgr c GS, FS := sgr c FS, ES := sgr c ES, DS := sgr c DS),
      gpr := (gpr c3)(EBX := gpr c ESI, ESP := p + 36)\<rparr> = c5"
    using st(3) by (intro cpu_eq) (simp_all add: c3_def c5_def kernel_segs_def by_register)
  then obtain c4 where 4: "exec_irqs code pl e q (k + 17 + 9) [IretI] c4 = exec_irqs code pl e q (k + 17) (syscall_restore @ [IretI]) c3"
    "irq_ready code e (kst c4)" "like e lo c5 c4"
    using restore_irqs [where c = c3 and c0 = c and p = p and js = "[IretI]" and pl = pl and k = "k + 17", OF _ k3(1,2) _ _ q, unfolded k3(3), OF b hs]
    by (elim exE conjE) (simp only:)
  have "unat (p + 36) = unat p + 36" using unat_addr [of p 36] stack by (simp add: kernel_stack_def)
  then have "stack_left e lo 0 c5"
    using hs st(3) lvl by (auto simp: stack_left_def kernel_stack_def c5_def cpl_def word_le_nat_alt word_less_nat_alt)
  then have "stack_left e lo 0 c4" using like_left [OF 4(3)] by simp
  then obtain c6 where 6: "take_irqs code pl e (q (k + 17 + 9)) c4 = ret (Next c6)" "like e lo c4 c6"
    using take_irqs_like [where code = code and e = e and c = c4 and ns = "q (k + 17 + 9)" and lo = lo and pl = pl and k = 0] 4(2) q
    by auto
  then have l6: "like e lo c5 c6" using 4(3) by (blast intro: like_trans)
  then have c6: "c6 = c\<lparr>kst := kst c6, gpr := (gpr c)(EAX := R s1, EBX := gpr c ESI, ECX := x, EDX := d)\<rparr>"
    by (intro cpu_eq) (simp_all add: like_def c5_def)
  have s2: "state_like e {a. lo \<le> a \<and> a < p + 36} (S s1) (kst c6)"
    using l6 st(3) by (simp add: like_def dead_def c5_def)
  from exec_irqs_iret [of code pl e q "k + 17 + 9", OF 6(1)] have "exec_irqs code pl e q k (syscall_stub sw e) c = iret e c6"
    using 1 4(1) by (simp only: c3_def)
  also have "\<dots> = iret e (c\<lparr>kst := kst c6, gpr := (gpr c)(EAX := R s1, EBX := gpr c ESI, ECX := x, EDX := d)\<rparr>)"
    by (rule arg_cong [OF c6])
  finally show ?thesis using s1 s2 by (intro exI conjI)
qed

text \<open>The state when \<open>syscall_handler\<close> is called, but for what interrupts left below its arguments.\<close>

definition call_state :: "env \<Rightarrow> cpu \<Rightarrow> u32 \<Rightarrow> kstate" where
  "call_state e c p = set_view e (upd (view e (kst c)) p
     (words (kernel_frame c [gpr c EAX, gpr c EBX, gpr c ECX, gpr c EDX, gpr c ESI] (gpr c ESP)))) (kst c)"

text \<open>The handler returns, leaves the words saved for the stub alone and keeps what interrupts need.\<close>

definition handler_returns :: "task_switcher \<Rightarrow> (u32 \<Rightarrow> instr list) \<Rightarrow> env \<Rightarrow> u32 \<Rightarrow> u32 \<Rightarrow> cpu \<Rightarrow> kstate \<Rightarrow> u32 \<Rightarrow> kstate \<Rightarrow> bool" where
  "handler_returns sw code e lo p c s r s' \<longleftrightarrow>
     syscall_handler sw e (gpr c EAX) (gpr c EBX) (gpr c ECX) (gpr c EDX) (gpr c ESI) s = ret (r, s') \<and>
     irq_ready code e s' \<and> kernel_stack e lo p s' \<and> (\<forall>a \<in> addrs p 56. view e s' a = view e s a)"

text \<open>The words the processor saved are still there when the stub is at its \<open>iret\<close>.\<close>

lemma tail_kept:
  assumes stack: "kernel_stack e lo p (kst c)" and s1: "state_like e {a. lo \<le> a \<and> a < p} (call_state e c p) s1"
    and keep: "\<forall>a \<in> addrs p 56. view e s' a = view e s1 a" and s2: "state_like e {a. lo \<le> a \<and> a < p + 36} s' s2"
  shows "block (view e s2) (p + 36) (words (user_tail c))"
proof -
  let ?ws = "kernel_frame c [gpr c EAX, gpr c EBX, gpr c ECX, gpr c EDX, gpr c ESI] (gpr c ESP)"
  let ?F = "upd (view e (kst c)) p (words ?ws)"
  have p: "unat (p + 36) = unat p + 36" using unat_addr [of p 36] stack by (simp add: kernel_stack_def)
  have above: "a \<notin> {a. lo \<le> a \<and> a < p + 36}" "a \<notin> {a. lo \<le> a \<and> a < p}" "a \<in> addrs p 56" if "a \<in> addrs (p + 36) 20" for a
    using that stack p addrs_split [of p 36 20]
    by (auto simp: kernel_stack_def addrs_range word_less_nat_alt simp del: addrs_Suc)
  have "dom ?F = dom (view e (kst c))"
    using kernel_stack_mapped [OF stack, of 56] by (intro dom_upd_within) (simp add: mapped_def del: addrs_Suc)
  then have F: "view e (call_state e c p) = ?F" by (simp add: call_state_def view_set_view)
  have "block ?F p (words ?ws)" by (intro upd_block) simp
  then have "block ?F (p + 36) (words (user_tail c))"
    unfolding kernel_frame_tail [where e = e and m = Map.empty and s = s' and p = p] by (simp add: block_append)
  moreover have "view e s2 a = ?F a" if "a \<in> addrs (p + 36) 20" for a
    using state_like_view(2) [OF s2 above(1) [OF that]] state_like_view(2) [OF s1 above(2) [OF that]] keep above(3) [OF that]
    by (simp add: F del: addrs_Suc)
  ultimately show ?thesis by (subst block_agree [where m = ?F]) simp_all
qed

section \<open>Properties\<close>


definition sample_code :: "u32 \<Rightarrow> instr list" where
  "sample_code a = (if a = 192 then syscall_stub (\<lambda>sel. ret) sample_env else irq_stub sample_env (unat (a - 128)))"

lemma sample_irq_ready: "irq_ready sample_code sample_env running_state"
proof -
  have "128 + of_nat n \<noteq> (192 :: u32)" "unat (of_nat n :: u32) = n" if "n < 16" for n
    using that unat_addr [of 0 n] unat_addr [of 128 n] by (auto simp: word_unat_eq_iff)
  moreover have "irq_isr (e_isr sample_env) n = 128 + of_nat n" for n by (simp add: sample_env_def)
  ultimately have "\<forall>n < 16. sample_code (irq_isr (e_isr sample_env) n) = irq_stub sample_env n"
    by (auto simp: sample_code_def)
  then show ?thesis
    by (simp add: irq_ready_def running_state_def sample_state_def irq_init_def)
qed

lemma sample_kernel_stack: "dom (view sample_env s) = dom sample_mem \<Longrightarrow> kernel_stack sample_env 0x8000 0x8FC8 s"
  by (auto simp: kernel_stack_def sample_dom word_less_nat_alt)


end
