(* ===== verification/HwTask.thy ===== *)
theory HwTask
  imports Cpu
begin

text \<open>
  The task switch of the processor: a far call to a TSS selector, and the \<open>iret\<close> of a nested
  task, with the contexts they save and load in the TSSs of \<^verbatim>\<open>kernel/task/tss.h\<close>. The busy
  flag of a descriptor and the table of local descriptors are left out: the kernel calls no task
  twice at a time and has no such table.
\<close>

section \<open>Contexts in the TSSs\<close>

definition put_tss :: "u16 \<Rightarrow> tss \<Rightarrow> kstate \<Rightarrow> kstate" where
  "put_tss sel t s = (case get_task_by_selector sel of
     None \<Rightarrow> s\<lparr>initial_tss := t\<rparr>
   | Some i \<Rightarrow> s\<lparr>k_tasks := (k_tasks s)[i := (k_tasks s ! i)\<lparr>t_tss := t\<rparr>]\<rparr>)"

definition save_context :: "cpu \<Rightarrow> tss \<Rightarrow> tss" where
  "save_context c t = t\<lparr>eip := cip c, eflags := flg c,
     eax := gpr c EAX, ecx := gpr c ECX, edx := gpr c EDX, ebx := gpr c EBX,
     esp := gpr c ESP, ebp := gpr c EBP, esi := gpr c ESI, edi := gpr c EDI,
     es := sgr c ES, cs := sgr c CS, ss := sgr c SS, ds := sgr c DS, fs := sgr c FS, gs := sgr c GS\<rparr>"

definition load_context :: "tss \<Rightarrow> u16 \<Rightarrow> kstate \<Rightarrow> cpu" where
  "load_context t sel s = \<lparr>
     gpr = (\<lambda>r. case r of EAX \<Rightarrow> eax t | EBX \<Rightarrow> ebx t | ECX \<Rightarrow> ecx t | EDX \<Rightarrow> edx t
       | ESI \<Rightarrow> esi t | EDI \<Rightarrow> edi t | EBP \<Rightarrow> ebp t | ESP \<Rightarrow> esp t),
     sgr = (\<lambda>r. case r of CS \<Rightarrow> cs t | SS \<Rightarrow> ss t | DS \<Rightarrow> ds t | ES \<Rightarrow> es t | FS \<Rightarrow> fs t | GS \<Rightarrow> gs t),
     flg = eflags t, cip = eip t, kst = s\<lparr>tr_reg := sel, cr3_reg := cr3 t\<rparr>\<rparr>"

text \<open>The first context of a task that is called. The page directory of a TSS is loaded but never saved.\<close>

definition task_entry :: "u16 \<Rightarrow> cpu \<Rightarrow> cpu" where
  "task_entry sel c =
     (let s = put_tss (tr_reg (kst c)) (save_context c (current_tss (kst c))) (kst c);
          t = (tss_at s sel)\<lparr>previous_task_link := tr_reg (kst c)\<rparr>;
          c1 = load_context t sel (put_tss sel t s)
      in c1\<lparr>flg := flg c1 OR 0x4000\<rparr>)"

definition call_task :: "u16 \<Rightarrow> cpu \<Rightarrow> cpu run" where
  "call_task sel c = (case get_task_by_selector sel of
     None \<Rightarrow> fail BadIndex
   | Some i \<Rightarrow> ret (task_entry sel c))"

definition return_task :: "cpu \<Rightarrow> cpu" where
  "return_task c =
     (let t = current_tss (kst c);
          s = put_tss (tr_reg (kst c)) (save_context (c\<lparr>flg := flg c AND NOT 0x4000\<rparr>) t) (kst c);
          link = previous_task_link t
      in load_context (tss_at s link) link s)"

text \<open>The far call as the caller sees it: \<open>body\<close> is what the task does until it gives up.\<close>

definition task_call :: "(cpu \<Rightarrow> cpu run) \<Rightarrow> u16 \<Rightarrow> cpu \<Rightarrow> cpu run" where
  "task_call body sel c = rbind (call_task sel c) (\<lambda>c. rbind (body c) (\<lambda>c. ret (return_task c)))"

section \<open>Laws\<close>

lemma load_save: "load_context (save_context c t) sel s = c\<lparr>kst := s\<lparr>tr_reg := sel, cr3_reg := cr3 t\<rparr>\<rparr>"
  by (intro cpu_eq) (auto simp: load_context_def save_context_def fun_eq_iff split: reg.split segreg.split)

lemma load_context_simps [simp]:
  "kst (load_context t sel s) = s\<lparr>tr_reg := sel, cr3_reg := cr3 t\<rparr>" "flg (load_context t sel s) = eflags t"
  "cip (load_context t sel s) = eip t" "gpr (load_context t sel s) ESP = esp t"
  "sgr (load_context t sel s) CS = cs t" "sgr (load_context t sel s) FS = fs t" "sgr (load_context t sel s) SS = ss t"
  by (simp_all add: load_context_def)

lemma save_context_keeps [simp]:
  "cr3 (save_context c t) = cr3 t" "esp0 (save_context c t) = esp0 t" "ss0 (save_context c t) = ss0 t"
  "previous_task_link (save_context c t) = previous_task_link t"
  by (simp_all add: save_context_def)

definition has_tss :: "kstate \<Rightarrow> u16 \<Rightarrow> bool" where
  "has_tss s sel \<longleftrightarrow> (\<forall>i. get_task_by_selector sel = Some i \<longrightarrow> i < length (k_tasks s))"

lemma tss_at_put [simp]: "has_tss s sel \<Longrightarrow> tss_at (put_tss sel t s) sel = t"
  by (auto simp: tss_at_def put_tss_def has_tss_def split: option.split)

lemma tss_at_put_other [simp]: "get_task_by_selector sel \<noteq> get_task_by_selector sel' \<Longrightarrow>
    tss_at (put_tss sel t s) sel' = tss_at s sel'"
  by (auto simp: tss_at_def put_tss_def split: option.split)

lemma put_tss_simps [simp]: "tr_reg (put_tss sel t s) = tr_reg s" "cr3_reg (put_tss sel t s) = cr3_reg s"
  "klog (put_tss sel t s) = klog s" "kmem (put_tss sel t s) = kmem s" "uspace (put_tss sel t s) = uspace s"
  "k_gdt (put_tss sel t s) = k_gdt s" "k_idt (put_tss sel t s) = k_idt s" "task_id (put_tss sel t s) = task_id s"
  "length (k_tasks (put_tss sel t s)) = length (k_tasks s)" "has_tss (put_tss sel t s) sel' = has_tss s sel'"
  by (simp_all add: put_tss_def has_tss_def split: option.split)

lemma tss_at_regs [simp]: "tss_at (s\<lparr>tr_reg := x\<rparr>) sel = tss_at s sel" "tss_at (s\<lparr>cr3_reg := y\<rparr>) sel = tss_at s sel"
  by (simp_all add: tss_at_def split: option.split)

lemma has_tss_ok: "tasks_ok e s \<Longrightarrow> has_tss s sel"
  by (auto simp: has_tss_def tasks_ok_def get_task_by_selector_iff)

text \<open>A saved context changes nothing the invariant of the tasks speaks of.\<close>

lemma tasks_ok_put_tss:
  assumes "tasks_ok e s" and "cr3 t = cr3 (tss_at s sel)"
  shows "tasks_ok e (put_tss sel t s)" and "used_slots (put_tss sel t s) = used_slots s"
proof -
  have k: "k_tasks (put_tss sel t s) ! j = (if get_task_by_selector sel = Some j then (k_tasks s ! j)\<lparr>t_tss := t\<rparr> else k_tasks s ! j)"
    if "j < MAX_TASK_COUNT" for j
    using that assms(1) by (auto simp: put_tss_def tasks_ok_def nth_list_update split: option.split)
  show used: "used_slots (put_tss sel t s) = used_slots s"
    by (rule set_eqI) (auto simp: used_slots_iff k split: if_splits)
  have "slot_ok e (put_tss sel t s) j" if "j < MAX_TASK_COUNT" for j
    using assms that k [OF that] by (auto simp: slot_ok_def Let_def tasks_ok_def tss_at_def)
  with assms(1) used show "tasks_ok e (put_tss sel t s)" by (simp add: tasks_ok_def)
qed

lemma call_task_entry: "get_task_by_selector sel = Some i \<Longrightarrow> call_task sel c = ret (task_entry sel c)"
  by (simp add: call_task_def)

lemma created_tss:
  assumes "tasks_ok e s" and "first_free s = Some i" and "task_create e f n a s = (r, s')"
  shows "t_tss (k_tasks s' ! i) = task_tss e i (TASK_STACK_SIZE_MB * 1024 * 1024 + a + n)"
proof -
  have "i < length (k_tasks s)" using assms(1,2) by (simp add: tasks_ok_def first_free_Some)
  then show ?thesis using assms(2,3) by (auto simp: task_create_def Let_def)
qed

lemma tasks_ok_regs [simp]: "tasks_ok e (s\<lparr>tr_reg := x\<rparr>) = tasks_ok e s" "tasks_ok e (s\<lparr>cr3_reg := y\<rparr>) = tasks_ok e s"
  "used_slots (s\<lparr>tr_reg := x\<rparr>) = used_slots s" "used_slots (s\<lparr>cr3_reg := y\<rparr>) = used_slots s"
  by (simp_all add: tasks_ok_def slot_ok_def used_slots_def)

text \<open>What the call leaves: the context of the task, the link, and the caller's context in its TSS.\<close>

lemma task_entry_links:
  assumes ok: "tasks_ok e (kst c)" and sel: "get_task_by_selector sel = Some i"
    and cur: "get_task_by_selector (tr_reg (kst c)) \<noteq> Some i"
  defines "t \<equiv> (tss_at (kst c) sel)\<lparr>previous_task_link := tr_reg (kst c)\<rparr>" and "s1 \<equiv> kst (task_entry sel c)"
  shows "task_entry sel c = (load_context t sel s1)\<lparr>flg := eflags t OR 0x4000\<rparr>"
    and "current_tss s1 = t" and "tss_at s1 (tr_reg (kst c)) = save_context c (current_tss (kst c))"
    and "tr_reg s1 = sel" and "cr3_reg s1 = cr3 t" and "klog s1 = klog (kst c)"
    and "tasks_ok e s1" and "used_slots s1 = used_slots (kst c)"
proof -
  define s where "s = put_tss (tr_reg (kst c)) (save_context c (current_tss (kst c))) (kst c)"
  have s: "tss_at s sel = tss_at (kst c) sel" "tss_at s (tr_reg (kst c)) = save_context c (current_tss (kst c))"
    using cur sel has_tss_ok [OF ok] by (simp_all add: s_def)
  have ok1: "tasks_ok e s" "used_slots s = used_slots (kst c)"
    using tasks_ok_put_tss [OF ok, of "save_context c (current_tss (kst c))" "tr_reg (kst c)"]
    by (simp_all add: s_def current_tss_def)
  have s1: "s1 = (put_tss sel t s)\<lparr>tr_reg := sel, cr3_reg := cr3 t\<rparr>"
    unfolding s1_def by (simp add: task_entry_def Let_def s_def [symmetric] s(1) t_def)
  show "task_entry sel c = (load_context t sel s1)\<lparr>flg := eflags t OR 0x4000\<rparr>"
    unfolding s1 by (simp add: task_entry_def Let_def s_def [symmetric] s(1) t_def [symmetric]) (simp add: load_context_def t_def)
  show "current_tss s1 = t" using has_tss_ok [OF ok1(1)] by (simp add: s1 current_tss_def)
  show "tss_at s1 (tr_reg (kst c)) = save_context c (current_tss (kst c))" using s(2) sel cur by (simp add: s1)
  show "tr_reg s1 = sel" "cr3_reg s1 = cr3 t" "klog s1 = klog (kst c)" by (simp_all add: s1 s_def)
  show "tasks_ok e s1" "used_slots s1 = used_slots (kst c)"
    using tasks_ok_put_tss [OF ok1(1), of t sel] ok1(2) s(1) by (simp_all add: s1 t_def)
qed

text \<open>
  The way back: if the task left the TSS of its caller and the link in its own alone, the
  caller has its registers, its page directory and the task register again.
\<close>

lemma return_to_caller:
  assumes "get_task_by_selector (tr_reg (kst c)) \<noteq> get_task_by_selector link"
    and "previous_task_link (current_tss (kst c)) = link" and "tss_at (kst c) link = save_context c0 t"
  shows "return_task c = c0\<lparr>kst := (put_tss (tr_reg (kst c)) (save_context (c\<lparr>flg := flg c AND NOT 0x4000\<rparr>)
      (current_tss (kst c))) (kst c))\<lparr>tr_reg := link, cr3_reg := cr3 t\<rparr>\<rparr>"
  using assms by (simp add: return_task_def Let_def load_save)

lemma initial_selector: "get_task_by_selector 40 = None"
  using kernel_selector_no_task by (simp add: gdt_entry_to_selector_def gdt_slots)

text \<open>A task created in the sample state, for the witnesses.\<close>

lemma sample_free: "first_free sample_state = Some 0"
  by (simp add: first_free_Some sample_ok MAX_TASK_COUNT_def)

lemma sample_created:
  assumes c: "task_create sample_env 512 1 4 sample_state = (r, s')"
  shows "r = Some 0" and "tr_reg s' = 40" and "tss_selector (k_tasks s' ! 0) = 48"
    and "get_task_by_selector (tr_reg s') \<noteq> Some 0" and "get_task_by_selector 48 = Some 0"
proof -
  have k: "r = Some 0" "tasks_ok sample_env s'" "0 \<in> used_slots s'"
    using task_create_some [OF sample_ok(1) sample_free c] by simp_all
  show "r = Some 0" by (rule k(1))
  show tr: "tr_reg s' = 40"
    using c sample_free by (auto simp: task_create_def Let_def sample_state_def)
  show sel: "tss_selector (k_tasks s' ! 0) = 48"
    using selector_of_slot [OF k(2,3)] by (simp add: gdt_entry_to_selector_def gdt_slots)
  show "get_task_by_selector (tr_reg s') \<noteq> Some 0" by (simp add: tr initial_selector)
  show "get_task_by_selector 48 = Some 0" using get_task_of_task [OF k(2,3)] by (simp add: sel)
qed

section \<open>Properties\<close>

text \<open>C9: The far call to the selector of a created task starts it: in user mode at its entry point, with the
  stack at the top of its memory, interrupts enabled, its own page directory and kernel stack, the
  nested-task flag and the link for the way back, and the caller's context saved in the caller's TSS.\<close>

theorem created_task_starts:
  assumes ok: "tasks_ok e s" and free: "first_free s = Some i" and new: "task_create e f n a s = (r, s')"
    and c: "kst c = s'" "get_task_by_selector (tr_reg s') \<noteq> Some i"
  shows "\<exists>c1. call_task (tss_selector (k_tasks s' ! i)) c = ret c1 \<and> (let s1 = kst c1 in
      cpl c1 = 3 \<and> cip c1 = TASK_VIRT_ADDR \<and> gpr c1 ESP = TASK_VIRT_ADDR + (0x200000 + a + n) \<and>
      bit (flg c1) 14 \<and> bit (flg c1) 9 \<and> cr3_reg s1 = pagedir_addr e i \<and>
      get_task_by_selector (tr_reg s1) = Some i \<and> previous_task_link (current_tss s1) = tr_reg s' \<and>
      ss0 (current_tss s1) = GDT_KERNEL_DATA_SELECTOR \<and>
      esp0 (current_tss s1) = task_addr e i + offsetof_kernel_stack + sizeof_kernel_stack \<and>
      tss_at s1 (tr_reg s') = save_context c (current_tss s') \<and> tasks_ok e s1 \<and> used_slots s1 = used_slots s')"
proof -
  let ?sel = "tss_selector (k_tasks s' ! i)" and ?total = "TASK_STACK_SIZE_MB * 1024 * 1024 + a + n"
  have k: "tasks_ok e s'" "i \<in> used_slots s'"
    using task_create_some [OF ok free new] by simp_all
  then have sel: "get_task_by_selector ?sel = Some i" by (simp add: get_task_of_task)
  have t: "tss_at s' ?sel = task_tss e i ?total" by (simp add: tss_at_def sel created_tss [OF ok free new])
  have w: "cs (task_tss e i x) = GDT_USER_CODE_SELECTOR" "eip (task_tss e i x) = TASK_VIRT_ADDR"
    "esp (task_tss e i x) = TASK_VIRT_ADDR + x" "eflags (task_tss e i x) = push_bit 9 1"
    "cr3 (task_tss e i x) = pagedir_addr e i" "ss0 (task_tss e i x) = GDT_KERNEL_DATA_SELECTOR"
    "esp0 (task_tss e i x) = task_addr e i + offsetof_kernel_stack + sizeof_kernel_stack" for x
    by (simp_all add: task_tss_def)
  note l = task_entry_links [where c = c and sel = ?sel, unfolded c(1), OF k(1) sel c(2), unfolded t]
  have f: "cpl c1 = 3 \<and> cip c1 = TASK_VIRT_ADDR \<and> gpr c1 ESP = TASK_VIRT_ADDR + (0x200000 + a + n) \<and>
      bit (flg c1) 14 \<and> bit (flg c1) 9" if "c1 = task_entry ?sel c" for c1
    unfolding that by (subst (1 2 3 4 5) l(1))
      (simp add: w cpl_def TASK_STACK_SIZE_MB_def sel_rpl_def descriptor_consts bit_simps)
  show ?thesis
    unfolding call_task_entry [OF sel] using l(2-8) f [OF refl] sel by (simp add: Let_def w)
qed

theorem created_task_starts_witness:
  "\<exists>s' c1. task_create sample_env 512 1 4 sample_state = (Some 0, s') \<and>
    call_task 48 ((sample_cpu 0 0x6000 2)\<lparr>kst := s'\<rparr>) = ret c1 \<and> cpl c1 = 3 \<and>
    gpr c1 ESP = 0x40200005 \<and> previous_task_link (current_tss (kst c1)) = 40"
proof -
  obtain r s' where c: "task_create sample_env 512 1 4 sample_state = (r, s')" by fastforce
  note n = sample_created [OF c]
  obtain c1 where c1: "call_task 48 ((sample_cpu 0 0x6000 2)\<lparr>kst := s'\<rparr>) = ret c1"
    "cpl c1 = 3" "gpr c1 ESP = TASK_VIRT_ADDR + (0x200000 + 4 + 1)" "previous_task_link (current_tss (kst c1)) = 40"
    using n(4) created_task_starts [OF sample_ok(1) sample_free c, of "(sample_cpu 0 0x6000 2)\<lparr>kst := s'\<rparr>"]
    by (auto simp: Let_def n(2,3))
  then have "gpr c1 ESP = 0x40200005" by (simp add: TASK_VIRT_ADDR_def)
  with c c1(1,2,4) n(1) show ?thesis by blast
qed

end
