(* ===== verification/CallAsm.thy ===== *)
theory CallAsm
  imports HwTask
begin

text \<open>
  The assembly functions that C code calls for one processor instruction each:
  \<^verbatim>\<open>mem/gdt_asm.s\<close>, \<^verbatim>\<open>idt_load\<close> of \<^verbatim>\<open>interrupt/idt_asm.s\<close>,
  \<^verbatim>\<open>mem/paging_asm.s\<close>, \<^verbatim>\<open>task/task_asm.s\<close>, \<^verbatim>\<open>pmio/pmio_asm.s\<close>, the inline functions of \<^verbatim>\<open>x86.h\<close>, and the entry
  point of the applications. Each is shown to have the effect that the models of the C code
  give to its call.
\<close>

section \<open>The functions\<close>

definition gdt_load :: "instr list" where
  "gdt_load = [LoadR EAX ESP 4, LgdtM EAX, MovI16 EAX GDT_KERNEL_DATA_SELECTOR,
     MovS DS EAX, MovS ES EAX, MovS FS EAX, MovS GS EAX, MovS SS EAX,
     JmpFar GDT_KERNEL_CODE_SELECTOR, RetI]"

definition idt_load :: "instr list" where
  "idt_load = [LoadR EAX ESP 4, LidtM EAX, RetI]"

definition paging_load_pagedir :: "instr list" where
  "paging_load_pagedir = [LoadR EAX ESP 4, MovToCr3 EAX, RetI]"

definition paging_get_current_pagedir :: "instr list" where
  "paging_get_current_pagedir = [MovFromCr3 EAX, RetI]"

definition task_ltr :: "instr list" where
  "task_ltr = [LoadR EAX ESP 4, LtrR EAX, RetI]"

text \<open>\<open>seg\<close> is the address of \<open>tss_sel_seg\<close>, behind the four bytes of \<open>tss_sel_offs\<close>.\<close>

definition task_switch :: "u32 \<Rightarrow> instr list" where
  "task_switch seg = [LoadR16 EAX ESP 4, MovI ECX seg, StoreR16 ECX EAX, CallFar ECX (- 4), RetI]"

definition task_get_current_sel :: "instr list" where
  "task_get_current_sel = [StrR EAX, RetI]"

definition outb :: "instr list" where
  "outb = [LoadR16 EDX ESP 4, LoadR8 EAX ESP 8, OutDxAl, RetI]"

definition inb :: "instr list" where
  "inb = [LoadR16 EDX ESP 4, InAlDx, RetI]"

definition outw :: "instr list" where
  "outw = [LoadR16 EDX ESP 4, LoadR16 EAX ESP 8, OutDxAx, RetI]"

definition inw :: "instr list" where
  "inw = [LoadR16 EDX ESP 4, InAxDx, RetI]"

text \<open>The code behind it is where it was: the kernel's memory is mapped to itself.\<close>

definition paging_enable :: "instr list" where
  "paging_enable = [MovFromCr0 EAX, OrI EAX 0x80000000, MovToCr0 EAX, RetI]"

definition cli :: "instr list" where "cli = [CliI]"
definition sti :: "instr list" where "sti = [StiI]"

text \<open>One round of the loop: with the interrupts masked nothing wakes the processor for another.\<close>

definition halt :: "instr list" where "halt = [CliI, HltI]"

text \<open>\<open>call main\<close>, then \<open>exit\<close>.\<close>

definition exit_asm :: "instr list" where "exit_asm = [IretI]"

definition entrypoint :: "cfun \<Rightarrow> instr list" where
  "entrypoint main = [CallC main] @ exit_asm"

section \<open>Their effects\<close>

text \<open>A call: the return address on top of the stack, the arguments above it.\<close>

definition called :: "env \<Rightarrow> cpu \<Rightarrow> u32 \<Rightarrow> u32 list \<Rightarrow> bool" where
  "called e c ra args = block (view e (kst c)) (gpr c ESP) (words (ra # args))"

text \<open>Back behind the call, with registers \<open>g\<close> but for the stack pointer.\<close>

definition returned :: "u32 \<Rightarrow> (reg \<Rightarrow> u32) \<Rightarrow> kstate \<Rightarrow> cpu \<Rightarrow> flow" where
  "returned ra g s c = Next (c\<lparr>cip := ra, kst := s, gpr := g(ESP := gpr c ESP + 4)\<rparr>)"

lemma called_args:
  assumes "called e c ra args"
  shows "load32 (view e (kst c)) (gpr c ESP) = ret ra"
    and "i < length args \<Longrightarrow> load32 (view e (kst c)) (gpr c ESP + of_nat (4 * Suc i)) = ret (args ! i)"
  using load32_words [of "view e (kst c)" "gpr c ESP" "ra # args" 0]
    load32_words [of "view e (kst c)" "gpr c ESP" "ra # args" "Suc i"] assms
  by (simp_all add: called_def del: words_simps)

lemma called_arg1: "called e c ra (w # args) \<Longrightarrow> load32 (view e (kst c)) (gpr c ESP + 4) = ret w"
  using called_args(2) [of e c ra "w # args" 0] by simp

lemma ret_to: "load32 (view e (kst c)) (gpr c ESP) = ret ra \<Longrightarrow>
    exec pl e [RetI] c = ret (Next (c\<lparr>cip := ra, gpr := (gpr c)(ESP := gpr c ESP + 4)\<rparr>))"
  by (simp add: exec.simps(2) pop32_def set_gpr_def)

text \<open>The low half of a word in memory.\<close>

lemma load16_low: "load32 m a = ret w \<Longrightarrow> load16 m a = ret (ucast w)"
proof -
  assume "load32 m a = ret w"
  then obtain b0 b1 b2 b3 where b: "load8 m a = ret b0" "load8 m (a + 1) = ret b1" "w = join32 b0 b1 b2 b3"
    by (auto simp: load32_def rbind_eq_ret)
  have "ucast b0 OR push_bit 8 (ucast b1) = (ucast (join32 b0 b1 b2 b3) :: u16)"
    unfolding join32_def by (intro bit_word_eqI) (auto simp: bit_simps)
  with b show ?thesis by (simp add: load16_def)
qed

lemma load8_low: "load32 m a = ret w \<Longrightarrow> load8 m a = ret (ucast w)"
  unfolding load32_def join32_def
  by (auto simp: rbind_eq_ret intro!: bit_word_eqI simp: bit_simps)

lemma run_step: "step pl e i c = ret (Next c') \<Longrightarrow> exec pl e is c' = x \<Longrightarrow> exec pl e (i # is) c = x"
  by (simp add: exec_step)

text \<open>
  A new page directory: the return address is read in the new address space, where the stack
  of the kernel is what it was.
\<close>

lemma paging_load_pagedir_correct:
  assumes "called e c ra [w]" and "called e (c\<lparr>kst := load_pagedir w (kst c)\<rparr>) ra []"
  shows "exec pl e paging_load_pagedir c = ret (returned ra ((gpr c)(EAX := w)) (load_pagedir w (kst c)) c)"
  using called_arg1 [OF assms(1)] called_args(1) [OF assms(2)]
  by (simp add: paging_load_pagedir_def exec.simps(2) pop32_def returned_def set_gpr_def fun_upd_twist)

lemma paging_get_current_pagedir_correct:
  assumes "called e c ra []"
  shows "exec pl e paging_get_current_pagedir c = ret (returned ra ((gpr c)(EAX := cr3_reg (kst c))) (kst c) c)"
  using called_args(1) [OF assms]
  by (simp add: paging_get_current_pagedir_def exec.simps(2) pop32_def returned_def set_gpr_def fun_upd_twist)

lemma task_ltr_correct:
  assumes "called e c ra [w]"
  shows "exec pl e task_ltr c
    = ret (returned ra ((gpr c)(EAX := w)) (event (Ltr (ucast w)) ((kst c)\<lparr>tr_reg := ucast w\<rparr>)) c)"
proof -
  have "view e (s\<lparr>tr_reg := x\<rparr>) = view e s" for s x
    by (simp add: view_def active_space_def split: option.split)
  then show ?thesis
    using called_arg1 [OF assms] called_args(1) [OF assms]
    by (simp add: task_ltr_def exec.simps(2) pop32_def returned_def set_gpr_def fun_upd_twist)
qed

text \<open>The result is the 16-bit value in the low half of \<open>eax\<close>.\<close>

lemma task_get_current_sel_correct:
  assumes "called e c ra []"
  shows "exec pl e task_get_current_sel c
    = ret (returned ra ((gpr c)(EAX := set_low (gpr c EAX) (tr_reg (kst c)))) (kst c) c)"
  using called_args(1) [OF assms]
  by (simp add: task_get_current_sel_def exec.simps(2) pop32_def returned_def set_gpr_def fun_upd_twist)

lemma outb_correct:
  assumes "called e c ra [port, data]"
  shows "exec pl e outb c = ret (returned ra
      ((gpr c)(EDX := set_low (gpr c EDX) (ucast port), EAX := set_low8 (gpr c EAX) (ucast data)))
      (event (OutB (ucast port) (ucast data)) (kst c)) c)"
proof -
  have "load32 (view e (kst c)) (gpr c ESP + 8) = ret data"
    using called_args(2) [OF assms, of 1] by simp
  then show ?thesis
    using load16_low [OF called_arg1 [OF assms]] load8_low called_args(1) [OF assms]
    by (simp add: outb_def exec.simps(2) pop32_def returned_def set_gpr_def fun_upd_twist)
qed

lemma outw_correct:
  assumes "called e c ra [port, data]"
  shows "exec pl e outw c = ret (returned ra
      ((gpr c)(EDX := set_low (gpr c EDX) (ucast port), EAX := set_low (gpr c EAX) (ucast data)))
      (event (OutW (ucast port) (ucast data)) (kst c)) c)"
proof -
  have "load32 (view e (kst c)) (gpr c ESP + 8) = ret data"
    using called_args(2) [OF assms, of 1] by simp
  then show ?thesis
    using load16_low [OF called_arg1 [OF assms]] load16_low called_args(1) [OF assms]
    by (simp add: outw_def exec.simps(2) pop32_def returned_def set_gpr_def fun_upd_twist)
qed

lemma in_correct:
  assumes "called e c ra [port]"
  defines "dx \<equiv> set_low (gpr c EDX) (ucast port)"
  shows "exec pl e inb c = ret (returned ra
      ((gpr c)(EDX := dx, EAX := set_low8 (gpr c EAX) (pl_inb pl (klog (kst c)) (ucast port)))) (event (InB (ucast port)) (kst c)) c)"
    and "exec pl e inw c = ret (returned ra
      ((gpr c)(EDX := dx, EAX := set_low (gpr c EAX) (pl_inw pl (klog (kst c)) (ucast port)))) (event (InW (ucast port)) (kst c)) c)"
  using load16_low [OF called_arg1 [OF assms(1)]] called_args(1) [OF assms(1)]
  by (simp_all add: inb_def inw_def dx_def exec.simps(2) Let_def pop32_def returned_def set_gpr_def fun_upd_twist)

text \<open>Bit 31 of CR0 is set and the others are as before, if CR0 holds what was last written to it.\<close>

lemma paging_enable_correct:
  fixes pl :: platform
  assumes "called e c ra []"
  defines "w \<equiv> pl_cr0 pl (klog (kst c)) OR 0x80000000"
  shows "exec pl e paging_enable c = ret (returned ra ((gpr c)(EAX := w)) (event (SetCr0 w) (kst c)) c)"
    and "pl_cr0 pl (klog (kst c) @ [SetCr0 w]) = w \<Longrightarrow>
      bit (pl_cr0 pl (klog (event (SetCr0 w) (kst c)))) n = (n = 31 \<or> bit (pl_cr0 pl (klog (kst c))) n)"
proof -
  show "exec pl e paging_enable c = ret (returned ra ((gpr c)(EAX := w)) (event (SetCr0 w) (kst c)) c)"
    using called_args(1) [OF assms(1)]
    by (simp add: paging_enable_def w_def exec.simps(2) pop32_def returned_def set_gpr_def fun_upd_twist)
  have "(0x80000000 :: u32) = push_bit 31 1" by simp
  then have "bit (0x80000000 :: u32) n = (n = 31)" by (simp only: bit_push_bit_iff) (auto simp: bit_simps)
  then show "pl_cr0 pl (klog (kst c) @ [SetCr0 w]) = w \<Longrightarrow>
      bit (pl_cr0 pl (klog (event (SetCr0 w) (kst c)))) n = (n = 31 \<or> bit (pl_cr0 pl (klog (kst c))) n)"
    by (simp add: event_def w_def bit_or_iff disj_commute)
qed

text \<open>The table registers, with the pointer the C code built in memory.\<close>

lemma idt_load_correct:
  assumes "called e c ra [a]" and "load_table_ptr (view e (kst c)) a = ret tp"
  shows "exec pl e idt_load c = ret (returned ra ((gpr c)(EAX := a)) (event (Lidt tp) (kst c)) c)"
  using called_arg1 [OF assms(1)] called_args(1) [OF assms(1)] assms(2)
  by (simp add: idt_load_def exec.simps(2) pop32_def returned_def set_gpr_def fun_upd_twist)

lemma gdt_load_correct:
  assumes "called e c ra [a]" and "load_table_ptr (view e (kst c)) a = ret tp"
  shows "exec pl e gdt_load c = ret (returned ra ((gpr c)(EAX := set_low a GDT_KERNEL_DATA_SELECTOR))
      (event (Lgdt tp) (kst c))
      (c\<lparr>sgr := (\<lambda>_. GDT_KERNEL_DATA_SELECTOR)(CS := GDT_KERNEL_CODE_SELECTOR)\<rparr>))"
proof -
  have "(sgr c)(DS := x, ES := x, FS := x, GS := x, SS := x, CS := y) = (\<lambda>_. x)(CS := y)" for x y
    by (simp add: by_register)
  then show ?thesis
    using called_arg1 [OF assms(1)] called_args(1) [OF assms(1)] assms(2)
    by (simp add: gdt_load_def exec.simps(2) pop32_def returned_def set_gpr_def set_sgr_def fun_upd_twist)
qed

section \<open>The task switch\<close>

definition half_words :: "u16 \<Rightarrow> u8 list" where
  "half_words w = [ucast w, ucast (drop_bit 8 w)]"

lemma store16_at_upd: "mapped m a 2 \<Longrightarrow> store16_at a w m = ret (upd m a (half_words w))"
  by (auto simp: store16_at_def half_words_def numeral_eq_Suc store8_def)

lemma load16_upd: "load16 (upd m a (half_words w)) a = ret w"
proof -
  have "ucast (ucast w :: u8) OR push_bit 8 (ucast (ucast (drop_bit 8 w) :: u8)) = w"
    by (intro bit_word_eqI) (auto simp: bit_simps)
  then show ?thesis by (simp add: load16_def half_words_def load8_def)
qed

text \<open>
  \<open>task_switch\<close> stores the selector behind the offset, calls through the two, and is back
  when \<open>switch\<close> is, in the memory \<open>switch\<close> left.
\<close>

definition store_sel :: "env \<Rightarrow> u32 \<Rightarrow> u16 \<Rightarrow> kstate \<Rightarrow> kstate" where
  "store_sel e seg sel s = set_view e (upd (view e s) seg (half_words sel)) s"

lemma store_sel_simps [simp]: "tr_reg (store_sel e a w s) = tr_reg s" "k_tasks (store_sel e a w s) = k_tasks s"
  "initial_tss (store_sel e a w s) = initial_tss s" "cr3_reg (store_sel e a w s) = cr3_reg s"
  "klog (store_sel e a w s) = klog s"
  by (simp_all add: store_sel_def)

lemma task_switch_correct:
  assumes "called e c ra [w]" and "mapped (view e (kst c)) seg 2"
    and sw: "pl_switch pl (ucast w) (c\<lparr>gpr := (gpr c)(EAX := set_low (gpr c EAX) (ucast w), ECX := seg),
        kst := event (TaskSwitch (ucast w)) (store_sel e seg (ucast w) (kst c))\<rparr>)
      = ret (c\<lparr>kst := s', gpr := (gpr c)(EAX := set_low (gpr c EAX) (ucast w), ECX := seg)\<rparr>)"
    and stack: "called e (c\<lparr>kst := s'\<rparr>) ra []"
  shows "exec pl e (task_switch seg) c
    = ret (returned ra ((gpr c)(EAX := set_low (gpr c EAX) (ucast w), ECX := seg)) s' c)"
proof -
  let ?m = "upd (view e (kst c)) seg (half_words (ucast w))"
  have d: "dom ?m = dom (view e (kst c))"
    using assms(2) by (intro dom_upd_within) (simp add: mapped_def half_words_def numeral_eq_Suc)
  then have v: "view e (store_sel e seg (ucast w) (kst c)) = ?m"
    unfolding store_sel_def by (rule view_set_view)
  have 1: "on_view e (store16_at seg (ucast w)) (kst c) = ret (store_sel e seg (ucast w) (kst c))"
    using assms(2) by (simp add: on_view_def store16_at_upd store_sel_def)
  show ?thesis
    using load16_low [OF called_arg1 [OF assms(1)]] called_args(1) [OF stack] sw v 1
    by (simp add: task_switch_def exec.simps(2) pop32_def returned_def set_gpr_def fun_upd_twist load16_upd)
qed

text \<open>The surroundings in which the far call runs \<open>body\<close> as the task.\<close>

definition platform_with :: "(cpu \<Rightarrow> cpu run) \<Rightarrow> platform \<Rightarrow> platform" where
  "platform_with body pl = pl\<lparr>pl_switch := task_call body\<rparr>"

section \<open>Applications\<close>

text \<open>\<open>main\<close> returns to an \<open>iret\<close>; with the nested-task flag still set it ends the task.\<close>

lemma entrypoint_returns:
  assumes "main (gpr c ESP) (kst c) = ret (Returns v s')" and "bit (flg c) 14"
  obtains c' where "exec pl e (entrypoint main) c = ret (TaskReturn c')" and "kst c' = s'"
  using assms by (cases "pl_clobber pl s'")
    (simp add: entrypoint_def exit_asm_def exec.simps(2) call_c_def iret_def)

section \<open>Properties\<close>

text \<open>C10: \<open>task_switch\<close> returns to its C caller like any function: if the task, however long it ran, left the
  caller's TSS, the link in its own and the caller's stack alone, then only \<open>eax\<close> and \<open>ecx\<close> differ,
  and the task register and the page directory are the caller's again.\<close>

theorem task_switch_returns:
  assumes sel: "get_task_by_selector (ucast w) = Some i"
    and cur: "get_task_by_selector (tr_reg (kst c)) \<noteq> Some i" "cr3_reg (kst c) = cr3 (current_tss (kst c))"
    and args: "called e c ra [w]" and seg: "mapped (view e (kst c)) seg 2"
    and body: "body (task_entry (ucast w) (c\<lparr>gpr := (gpr c)(EAX := set_low (gpr c EAX) (ucast w), ECX := seg),
        kst := event (TaskSwitch (ucast w)) (store_sel e seg (ucast w) (kst c))\<rparr>)) = ret c2"
    and keeps: "tr_reg (kst c2) = ucast w" "previous_task_link (current_tss (kst c2)) = tr_reg (kst c)"
      "tss_at (kst c2) (tr_reg (kst c)) = save_context (c\<lparr>gpr := (gpr c)(EAX := set_low (gpr c EAX) (ucast w), ECX := seg)\<rparr>)
         (current_tss (kst c))"
    and stack: "called e (return_task c2) ra []"
  shows "\<exists>s'. exec (platform_with body pl) e (task_switch seg) c
      = ret (returned ra ((gpr c)(EAX := set_low (gpr c EAX) (ucast w), ECX := seg)) s' c) \<and>
    s' = kst (return_task c2) \<and> tr_reg s' = tr_reg (kst c) \<and> cr3_reg s' = cr3_reg (kst c) \<and> klog s' = klog (kst c2)"
proof -
  let ?g = "(gpr c)(EAX := set_low (gpr c EAX) (ucast w), ECX := seg)"
  let ?c = "c\<lparr>gpr := ?g, kst := event (TaskSwitch (ucast w)) (store_sel e seg (ucast w) (kst c))\<rparr>"
  have r: "return_task c2 = c\<lparr>gpr := ?g, kst := (put_tss (ucast w) (save_context (c2\<lparr>flg := flg c2 AND NOT 0x4000\<rparr>)
      (current_tss (kst c2))) (kst c2))\<lparr>tr_reg := tr_reg (kst c), cr3_reg := cr3_reg (kst c)\<rparr>\<rparr>"
    using keeps sel cur by (simp add: return_task_def Let_def load_save)
  have "platform_with body pl = pl\<lparr>pl_switch := task_call body\<rparr>" by (simp add: platform_with_def)
  moreover have "task_call body (ucast w) ?c = ret (return_task c2)"
    using call_task_entry [OF sel, of ?c] body by (simp add: task_call_def)
  ultimately have sw: "pl_switch (platform_with body pl) (ucast w) ?c = ret (c\<lparr>kst := kst (return_task c2), gpr := ?g\<rparr>)"
    by (simp add: r)
  moreover have "called e (c\<lparr>kst := kst (return_task c2)\<rparr>) ra []"
    using stack by (simp add: called_def r)
  ultimately have "exec (platform_with body pl) e (task_switch seg) c = ret (returned ra ?g (kst (return_task c2)) c)"
    using task_switch_correct [OF args seg] by blast
  then show ?thesis by (simp add: r)
qed

definition caller_state :: kstate where
  "caller_state = running_state\<lparr>tr_reg := 40, cr3_reg := 0, kmem := upd sample_mem 0x6004 (split32 48)\<rparr>"

lemma caller_state:
  "view sample_env caller_state = upd sample_mem 0x6004 (split32 48)" "tasks_ok sample_env caller_state"
  "tr_reg caller_state = 40" "cr3_reg caller_state = 0" "current_tss caller_state = zero_tss"
  "uspace caller_state = (\<lambda>i. Map.empty)"
proof -
  show "view sample_env caller_state = upd sample_mem 0x6004 (split32 48)"
    by (simp add: view_def caller_state_def running_state_def sample_state_def split: option.split)
  show "tasks_ok sample_env caller_state"
    using running_ok(1) same_tasks_ok [of running_state caller_state]
    by (simp add: same_tasks_def caller_state_def)
  show "current_tss caller_state = zero_tss"
    by (simp add: current_tss_def tss_at_def caller_state_def initial_selector running_state_def sample_state_def)
qed (simp_all add: caller_state_def running_state_def sample_state_def)

lemma sample_call: "called sample_env ((sample_cpu 0 0x6000 2)\<lparr>kst := caller_state\<rparr>) 0 [48]"
proof -
  have "block sample_mem 0x6000 (words [0])"
    using sample_zero_words [of "0x6000"] by (simp add: block_append)
  then have "block (upd sample_mem 0x6004 (split32 48)) 0x6000 (words [0])"
    by (subst block_agree [where m = sample_mem]) (auto simp: addrs_range intro!: upd_outside simp del: addrs_Suc)
  moreover have "block (upd sample_mem 0x6004 (split32 48)) 0x6004 (split32 48)" by (simp add: upd_block)
  ultimately show ?thesis by (simp add: called_def caller_state block_append)
qed

theorem task_switch_returns_witness:
  "\<exists>s'. exec (platform_with ret sample_platform) sample_env (task_switch 0x7000) ((sample_cpu 0 0x6000 2)\<lparr>kst := caller_state\<rparr>)
      = ret (returned 0 ((gpr (sample_cpu 0 0x6000 2))(EAX := set_low 7 48, ECX := 0x7000)) s'
          ((sample_cpu 0 0x6000 2)\<lparr>kst := caller_state\<rparr>)) \<and> tr_reg s' = 40 \<and> klog s' = [TaskSwitch 48]"
proof -
  define c where "c = (sample_cpu 0 0x6000 2)\<lparr>kst := caller_state\<rparr>"
  define g where "g = (gpr c)(EAX := set_low (gpr c EAX) (ucast (48 :: u32)), ECX := 0x7000)"
  define s where "s = event (TaskSwitch 48) (store_sel sample_env 0x7000 48 caller_state)"
  define c1 where "c1 = c\<lparr>gpr := g, kst := s\<rparr>"
  define c2 where "c2 = task_entry 48 c1"
  let ?m = "upd (upd sample_mem 0x6004 (split32 48)) 0x7000 (half_words 48)"
  have sel: "get_task_by_selector 48 = Some 0"
    using running_tss(2) by (simp add: running_state_def)
  have c: "kst c = caller_state" "gpr c ESP = 0x6000" by (simp_all add: c_def)
  have c1: "kst c1 = s" "tr_reg s = 40" "current_tss s = zero_tss"
    using caller_state(3,5) by (simp_all add: c1_def s_def current_tss_def tss_at_def initial_selector event_def)
  have "tasks_ok sample_env s"
    using caller_state(2) same_tasks_ok [of caller_state s] by (simp add: same_tasks_def store_sel_def s_def)
  note l = task_entry_links [where c = c1 and sel = 48 and i = 0, folded c2_def, unfolded c1, OF this sel]
  have keeps: "tr_reg (kst c2) = 48" "previous_task_link (current_tss (kst c2)) = 40"
    "tss_at (kst c2) 40 = save_context c1 zero_tss" "klog (kst c2) = klog s"
    using l(2,3,4,6) by (simp_all add: initial_selector)
  have r: "return_task c2 = c1\<lparr>kst := (put_tss 48 (save_context (c2\<lparr>flg := flg c2 AND NOT 0x4000\<rparr>)
      (current_tss (kst c2))) (kst c2))\<lparr>tr_reg := 40, cr3_reg := cr3 zero_tss\<rparr>\<rparr>"
    using return_to_caller [of c2 40 c1 zero_tss] keeps sel by (simp add: initial_selector)
  have "kmem (kst c2) = kmem s" "uspace (kst c2) = uspace s"
    by (simp_all add: c2_def task_entry_def Let_def c1)
  then have "view sample_env (kst (return_task c2)) = view sample_env s"
    using caller_state(4) by (intro view_cong) (simp_all add: r s_def zero_tss_def)
  also have "\<dots> = ?m"
    by (simp add: s_def store_sel_def caller_state(1))
       (intro view_set_view, auto simp: caller_state sample_dom dom_upd half_words_def)
  finally have v: "view sample_env (kst (return_task c2)) = ?m" .
  have "block ?m 0x6000 (words [0])"
    using sample_call
    by (subst block_agree [where m = "upd sample_mem 0x6004 (split32 48)"])
       (auto simp: addrs_range called_def caller_state block_append half_words_def intro!: upd_outside simp del: addrs_Suc)
  then have stack: "called sample_env (return_task c2) 0 []"
    by (simp add: called_def v) (simp add: r c1_def g_def c)
  have seg: "mapped (view sample_env (kst c)) 0x7000 2"
    using sample_mapped [of "0x7000" 2] by (simp add: caller_state c mapped_upd del: mapped_Suc)
  have "\<exists>s'. exec (platform_with ret sample_platform) sample_env (task_switch 0x7000) c = ret (returned 0 g s' c) \<and>
      s' = kst (return_task c2) \<and> tr_reg s' = tr_reg (kst c) \<and> cr3_reg s' = cr3_reg (kst c) \<and> klog s' = klog (kst c2)"
    unfolding g_def
  proof (rule task_switch_returns [where i = 0])
    show "called sample_env c 0 [48]" unfolding c_def by (rule sample_call)
    show "ret (task_entry (ucast (48 :: u32)) (c\<lparr>gpr := (gpr c)(EAX := set_low (gpr c EAX) (ucast (48 :: u32)), ECX := 0x7000),
        kst := event (TaskSwitch (ucast (48 :: u32))) (store_sel sample_env 0x7000 (ucast (48 :: u32)) (kst c))\<rparr>)) = ret c2"
      by (simp add: c2_def c1_def g_def s_def c)
    show "tss_at (kst c2) (tr_reg (kst c)) = save_context (c\<lparr>gpr := (gpr c)(EAX := set_low (gpr c EAX) (ucast (48 :: u32)),
        ECX := 0x7000)\<rparr>) (current_tss (kst c))"
      using keeps(3) by (simp add: c caller_state(3,5) c1_def g_def save_context_def)
    show "cr3_reg (kst c) = cr3 (current_tss (kst c))" by (simp add: c caller_state zero_tss_def)
    show "get_task_by_selector (tr_reg (kst c)) \<noteq> Some 0" by (simp add: c caller_state initial_selector)
  qed (use seg stack keeps sel in \<open>simp_all add: c caller_state(3)\<close>)
  then show ?thesis
    using keeps(4) by (auto simp: c caller_state(3) s_def) (auto simp: c_def g_def caller_state_def running_state_def sample_state_def sample_cpu_def)
qed

end
