(* ===== verification/TaskMemory.thy ===== *)
theory TaskMemory
  imports TaskLoad
begin

text \<open>
  The pool of tasks as memory: where the fields of the \<^verbatim>\<open>tasks\<close> of \<^verbatim>\<open>kernel/task/task.c\<close> lie, as the
  declarations in \<^verbatim>\<open>task.h\<close> and \<^verbatim>\<open>tss.h\<close> lay them out.
\<close>

section \<open>Addresses in the pool\<close>

lemma pool_fits: "uint (tasks_addr e) + int MAX_TASK_COUNT * c_size task_t \<le> 2 ^ 32 \<Longrightarrow> unat (tasks_addr e) + 688128 \<le> 2 ^ 32"
proof -
  assume "uint (tasks_addr e) + int MAX_TASK_COUNT * c_size task_t \<le> 2 ^ 32"
  then have "int (unat (tasks_addr e) + 688128) \<le> int (2 ^ 32)" by (simp add: task_layout_c MAX_TASK_COUNT_def)
  then show ?thesis by (simp only: of_nat_le_iff)
qed

lemma unat_task_field:
  assumes "uint (tasks_addr e) + int MAX_TASK_COUNT * c_size task_t \<le> 2 ^ 32" and "i < MAX_TASK_COUNT"
    and "0 \<le> off" and "off < c_size task_t"
  shows "unat (task_addr e i + of_int off) = unat (tasks_addr e) + i * 86016 + nat off"
proof -
  note le = pool_fits [OF assms(1)]
  have "nat off < 86016" using assms(4) by (simp add: task_layout_c)
  then have lt: "unat (tasks_addr e) + (i * 86016 + nat off) < 2 ^ 32"
    using le assms(2) by (simp add: MAX_TASK_COUNT_def)
  have "task_addr e i + of_int off = tasks_addr e + of_nat (i * 86016 + nat off)"
    using assms(3) by (simp only: task_addr_def task_layout of_nat_add of_nat_mult of_nat_nat of_nat_numeral add.assoc)
  with unat_addr [OF lt] show ?thesis by (simp only: add.assoc)
qed

text \<open>The places of two fields in the pool, counted from its start.\<close>

lemma task_fields_ordered:
  assumes "(f, off, n) \<in> set (c_offsets task_t)" and "(g, off', k) \<in> set (c_offsets task_t)" and "(i, f) \<noteq> (j, g)"
  shows "i * 86016 + nat off + nat n \<le> j * 86016 + nat off' \<or> j * 86016 + nat off' + nat k \<le> i * 86016 + nat off"
proof -
  have o: "0 \<le> off" "0 \<le> n" "off + n \<le> 86016" "0 \<le> off'" "0 \<le> k" "off' + k \<le> 86016"
    using task_field_inside [OF assms(1)] task_field_inside [OF assms(2)] by (simp_all add: task_layout_c)
  show ?thesis
  proof (cases "i = j")
    case True
    then show ?thesis using task_fields_apart [OF assms(1,2)] assms(3) o by auto
  next
    case False
    then consider "i + 1 \<le> j" | "j + 1 \<le> i" by linarith
    then show ?thesis
    proof cases
      case 1
      then have "i * 86016 + 86016 \<le> j * 86016" by simp
      moreover have "nat off + nat n \<le> 86016" using o by linarith
      ultimately show ?thesis by linarith
    next
      case 2
      then have "j * 86016 + 86016 \<le> i * 86016" by simp
      moreover have "nat off' + nat k \<le> 86016" using o by linarith
      ultimately show ?thesis by linarith
    qed
  qed
qed

section \<open>Properties\<close>



end
