(* ===== verification/IoPorts.thy ===== *)
theory IoPorts
  imports HwTask Layout
begin

text \<open>
  The ports an application may use: the permission bitmap in the TSS of its task
  (\<^verbatim>\<open>kernel/task/tss.h\<close>), as the processor reads it. \<open>task_create\<close> clears the TSS and
  never sets \<open>iomap_base_addr\<close>, so that the processor finds the bitmap at the start of the TSS.
\<close>

section \<open>A TSS as bytes\<close>

definition half_bytes :: "u16 \<Rightarrow> u8 list" where
  "half_bytes w = [ucast w, ucast (drop_bit 8 w)]"

text \<open>The fields in their order; the reserved halves and the bitmap \<open>iomap\<close> hold the zeros of \<open>memset\<close>.\<close>

definition tss_bytes :: "tss \<Rightarrow> u8 list" where
  "tss_bytes t =
     half_bytes (previous_task_link t) @ [0, 0] @ split32 (esp0 t) @ half_bytes (ss0 t) @ [0, 0] @
     split32 (esp1 t) @ half_bytes (ss1 t) @ [0, 0] @ split32 (esp2 t) @ half_bytes (ss2 t) @ [0, 0] @
     split32 (cr3 t) @ split32 (eip t) @ split32 (eflags t) @ split32 (eax t) @ split32 (ecx t) @ split32 (edx t) @
     split32 (ebx t) @ split32 (esp t) @ split32 (ebp t) @ split32 (esi t) @ split32 (edi t) @
     half_bytes (es t) @ [0, 0] @ half_bytes (cs t) @ [0, 0] @ half_bytes (ss t) @ [0, 0] @
     half_bytes (ds t) @ [0, 0] @ half_bytes (fs t) @ [0, 0] @ half_bytes (gs t) @ [0, 0] @
     half_bytes (ldt_selector t) @ [0, 0] @ [0, 0] @ half_bytes (iomap_base_addr t) @ replicate 8192 0"

lemma length_tss_bytes [simp]: "length (tss_bytes t) = 8296"
  by (simp add: tss_bytes_def half_bytes_def)

lemma tss_bytes_size: "int (length (tss_bytes t)) = c_size tss_t"
  by (simp add: tss_layout)

lemma tss_bytes_bitmap: "104 \<le> k \<Longrightarrow> k < 8296 \<Longrightarrow> tss_bytes t ! k = 0"
proof -
  assume k: "104 \<le> k" "k < 8296"
  obtain xs where xs: "tss_bytes t = xs @ replicate 8192 0" "length xs = 104"
    unfolding tss_bytes_def by (simp add: half_bytes_def append_assoc [symmetric] del: append_assoc)
  then show ?thesis using k by (simp add: nth_append)
qed

section \<open>The check of the processor\<close>

text \<open>
  Below the I/O privilege level the bit of the port must be clear; the byte and the one behind
  it must be inside the TSS.
\<close>

definition io_bit_clear :: "tss \<Rightarrow> u16 \<Rightarrow> bool" where
  "io_bit_clear t port =
     (let k = unat (iomap_base_addr t) + unat port div 8
      in k + 1 < length (tss_bytes t) \<and> \<not> bit (tss_bytes t ! k) (unat port mod 8))"

definition iopl :: "cpu \<Rightarrow> nat" where
  "iopl c = unat (take_bit 2 (drop_bit 12 (flg c)))"

definition port_access :: "cpu \<Rightarrow> u16 \<Rightarrow> bool" where
  "port_access c port = (cpl c \<le> iopl c \<or> io_bit_clear (current_tss (kst c)) port)"

text \<open>With the bitmap at the start of the TSS the ports from 832 on have the bits of \<open>iomap\<close>.\<close>

lemma io_open_beyond: "iomap_base_addr t = 0 \<Longrightarrow> 832 \<le> unat port \<Longrightarrow> io_bit_clear t port"
proof -
  assume t: "iomap_base_addr t = 0" and p: "832 \<le> unat port"
  have "unat port < 65536" using unsigned_less [of port] by simp
  then have "104 \<le> unat port div 8" "unat port div 8 + 1 < 8296" using p by linarith+
  then show ?thesis using tss_bytes_bitmap [of "unat port div 8" t] t by (simp add: io_bit_clear_def Let_def)
qed

text \<open>The ports below it have the bits of the other fields.\<close>

lemma io_open_fields:
  assumes "iomap_base_addr t = 0"
  shows "esp1 t = 0 \<Longrightarrow> 96 \<le> unat port \<Longrightarrow> unat port < 128 \<Longrightarrow> io_bit_clear t port"
    and "esp2 t = 0 \<Longrightarrow> 160 \<le> unat port \<Longrightarrow> unat port < 192 \<Longrightarrow> io_bit_clear t port"
    and "io_bit_clear t PIC1_CMD \<longleftrightarrow> \<not> bit (esp0 t) 0"
proof -
  have z1: "tss_bytes t ! k = 0" if "esp1 t = 0" "k \<in> {12, 13, 14, 15}" for k
    using that by (auto simp: tss_bytes_def half_bytes_def split32_def)
  have "unat port div 8 \<in> {12, 13, 14, 15}" if "96 \<le> unat port" "unat port < 128" using that by auto
  then show "esp1 t = 0 \<Longrightarrow> 96 \<le> unat port \<Longrightarrow> unat port < 128 \<Longrightarrow> io_bit_clear t port"
    using assms z1 [of "unat port div 8"] by (simp add: io_bit_clear_def Let_def)
  have z2: "tss_bytes t ! k = 0" if "esp2 t = 0" "k \<in> {20, 21, 22, 23}" for k
    using that by (auto simp: tss_bytes_def half_bytes_def split32_def)
  have "unat port div 8 \<in> {20, 21, 22, 23}" if "160 \<le> unat port" "unat port < 192" using that by auto
  then show "esp2 t = 0 \<Longrightarrow> 160 \<le> unat port \<Longrightarrow> unat port < 192 \<Longrightarrow> io_bit_clear t port"
    using assms z2 [of "unat port div 8"] by (simp add: io_bit_clear_def Let_def)
  have "tss_bytes t ! 4 = ucast (esp0 t)" by (simp add: tss_bytes_def half_bytes_def split32_def)
  then show "io_bit_clear t PIC1_CMD \<longleftrightarrow> \<not> bit (esp0 t) 0"
    using assms by (simp add: io_bit_clear_def Let_def PIC1_CMD_def bit_simps)
qed

text \<open>The top of a kernel stack is an even address when the tasks are.\<close>

lemma kernel_stack_even: "\<not> bit (tasks_addr e) 0 \<Longrightarrow> \<not> bit (task_addr e i + offsetof_kernel_stack + sizeof_kernel_stack) 0"
  by (simp add: bit_0 task_addr_def task_layout even_add)

section \<open>Properties\<close>



end
